theory Spec2Isabelle
  imports Complex_Main
begin

section \<open>Strings and numbers of the runtime\<close>

text \<open>
  A JavaScript string is a sequence of UTF-16 code units. It is modelled as a list of
  natural numbers, one per code unit (a code unit is a number below 65536; every function
  below is total on all of \<open>nat\<close>). \<open>str\<close> turns an ASCII literal into such a list.
\<close>

type_synonym jsstring = "nat list"

definition str :: "string \<Rightarrow> jsstring" where
  "str s = map of_char s"

text \<open>
  A JavaScript number: a finite value, an infinity or NaN. Finite values are kept as exact
  rationals; the rounding of a decimal literal to the nearest double is not modelled, and
  no function below computes arithmetic on numbers (they are compared and passed through).
\<close>

datatype jsnumber = Finite rat | PosInfinity | NegInfinity | NaN

definition isFinite :: "jsnumber \<Rightarrow> bool" where
  "isFinite n = (case n of Finite _ \<Rightarrow> True | _ \<Rightarrow> False)"

text \<open>
  \<open>String.prototype.trim\<close> removes the white space and line terminator code units of
  ECMAScript from both ends: TAB, LF, VT, FF, CR, SP, NBSP, U+1680, U+2000..U+200A,
  U+2028, U+2029, U+202F, U+205F, U+3000 and U+FEFF.
\<close>

definition isWhiteSpace :: "nat \<Rightarrow> bool" where
  "isWhiteSpace c =
     (c = 9 \<or> c = 10 \<or> c = 11 \<or> c = 12 \<or> c = 13 \<or> c = 32 \<or> c = 160 \<or> c = 5760
      \<or> (8192 \<le> c \<and> c \<le> 8202) \<or> c = 8232 \<or> c = 8233 \<or> c = 8239 \<or> c = 8287
      \<or> c = 12288 \<or> c = 65279)"

definition trim :: "jsstring \<Rightarrow> jsstring" where
  "trim s = rev (dropWhile isWhiteSpace (rev (dropWhile isWhiteSpace s)))"

text \<open>
  Case folding of the ASCII letters. A regular expression with the flag \<open>i\<close> (and
  without \<open>u\<close>) never identifies a code unit of 128 or more with an ASCII one, so the
  test \<open>/^https?:\/\//i\<close> compares the ASCII-folded prefix with the two literals.
\<close>

definition asciiLower :: "nat \<Rightarrow> nat" where
  "asciiLower c = (if 65 \<le> c \<and> c \<le> 90 then c + 32 else c)"

definition startsWith :: "jsstring \<Rightarrow> jsstring \<Rightarrow> bool" where
  "startsWith s p = (take (length p) s = p)"

definition endsWith :: "jsstring \<Rightarrow> jsstring \<Rightarrow> bool" where
  "endsWith s p = (length p \<le> length s \<and> drop (length s - length p) s = p)"

definition httpRegexTest :: "jsstring \<Rightarrow> bool" where
  "httpRegexTest s =
     (startsWith (map asciiLower s) (str ''http://'')
      \<or> startsWith (map asciiLower s) (str ''https://''))"


text \<open>
  \<open>String.prototype.split\<close> with a separator that matches single code units (the
  string \<open>","\<close>, the regular expression \<open>/[-_]/\<close>): the scan keeps the piece under
  construction, reversed, in \<open>cur\<close>. The result always has a first element.
\<close>

fun splitScan :: "(nat \<Rightarrow> bool) \<Rightarrow> jsstring \<Rightarrow> jsstring \<Rightarrow> jsstring list" where
  "splitScan sep cur [] = [rev cur]"
| "splitScan sep cur (c # cs) =
     (if sep c then rev cur # splitScan sep [] cs else splitScan sep (c # cur) cs)"

definition split :: "(nat \<Rightarrow> bool) \<Rightarrow> jsstring \<Rightarrow> jsstring list" where
  "split sep s = splitScan sep [] s"

text \<open>Array.prototype.join.\<close>

fun join :: "jsstring \<Rightarrow> jsstring list \<Rightarrow> jsstring" where
  "join sep [] = []"
| "join sep [x] = x"
| "join sep (x # y # ys) = x @ sep @ join sep (y # ys)"

text \<open>
  \<open>String.prototype.toLowerCase\<close>. On the Basic Latin and Latin-1 Supplement blocks it
  maps code unit to code unit, as written here; U+212A (KELVIN SIGN) becomes \<open>k\<close>. Code
  units outside these are left unchanged by the model.
\<close>

definition lowerUnit :: "nat \<Rightarrow> nat" where
  "lowerUnit c =
     (if 65 \<le> c \<and> c \<le> 90 then c + 32
      else if 192 \<le> c \<and> c \<le> 222 \<and> c \<noteq> 215 then c + 32
      else if c = 8490 then 107
      else c)"

definition toLowerCase :: "jsstring \<Rightarrow> jsstring" where
  "toLowerCase s = map lowerUnit s"

text \<open>The decimal digits of a non-negative integer (\<open>String(n)\<close>, a template literal).\<close>

fun digitsOf :: "nat \<Rightarrow> jsstring" where
  "digitsOf n = (if n < 10 then [48 + n] else digitsOf (n div 10) @ [48 + n mod 10])"

declare digitsOf.simps [simp del]

text \<open>
  A parsed JSON value. The members of an object are a list of pairs, in source order.
\<close>

datatype json =
    JNull
  | JBool bool
  | JNumber jsnumber
  | JString jsstring
  | JArray "json list"
  | JObject "(jsstring \<times> json) list"

text \<open>
  An issue of the validation library: its code, the path of the field, the value received
  and the message set in the schema, if any.
\<close>

datatype issueCode =
    invalid_type
  | invalid_enum_value
  | unrecognized_keys "jsstring list"
  | too_small
  | too_big

record zodIssue =
  iss_code :: issueCode
  iss_path :: "jsstring list"
  iss_received :: "json option"
  iss_message :: "jsstring option"

text \<open>
  What the repository takes from its environment and does not contain: the URL test of the
  validation library (\<open>z.string().url()\<close>), its default issue messages, the conversions
  between numbers and strings of the runtime outside the integers, the API key of the
  process environment and the base URL of the video endpoint (set in the configuration
  module).
\<close>

record runtime =
  isUrl :: "jsstring \<Rightarrow> bool"
  zodDefaultMessage :: "zodIssue \<Rightarrow> jsstring"
  fractionToString :: "rat \<Rightarrow> jsstring"
  stringToNumber :: "jsstring \<Rightarrow> jsnumber"
  pixabayApiKey :: jsstring
  pixabayVideoBaseUrl :: jsstring

definition isInteger :: "jsnumber \<Rightarrow> bool" where
  "isInteger n = (case n of Finite q \<Rightarrow> of_int \<lfloor>q\<rfloor> = q | _ \<Rightarrow> False)"

text \<open>
  \<open>String(n)\<close> of a number: decimal digits for an integer of magnitude below \<open>10^21\<close>,
  the three special names, and the environment's conversion otherwise.
\<close>

definition numberToString :: "runtime \<Rightarrow> jsnumber \<Rightarrow> jsstring" where
  "numberToString rt n =
     (case n of
        NaN \<Rightarrow> str ''NaN''
      | PosInfinity \<Rightarrow> str ''Infinity''
      | NegInfinity \<Rightarrow> str ''-Infinity''
      | Finite q \<Rightarrow>
          if of_int \<lfloor>q\<rfloor> = q \<and> \<bar>q\<bar> < 10 ^ 21
          then (if q < 0 then str ''-'' else []) @ digitsOf (nat \<bar>\<lfloor>q\<rfloor>\<bar>)
          else fractionToString rt q)"

subsection \<open>encodeURIComponent\<close>

text \<open>
  \<open>encodeURIComponent\<close> keeps the unreserved ASCII characters, writes every other code
  point as the percent-encoded bytes of its UTF-8 form, and throws a \<open>URIError\<close> on a
  surrogate code unit that is not part of a pair (\<open>None\<close>).
\<close>

definition isUnreserved :: "nat \<Rightarrow> bool" where
  "isUnreserved c =
     ((65 \<le> c \<and> c \<le> 90) \<or> (97 \<le> c \<and> c \<le> 122) \<or> (48 \<le> c \<and> c \<le> 57)
      \<or> c \<in> set (str ''-_.!~*'') \<or> c = 39 \<or> c = 40 \<or> c = 41)"

definition hexDigit :: "nat \<Rightarrow> nat" where
  "hexDigit n = (if n < 10 then 48 + n else 55 + n)"

definition percentByte :: "nat \<Rightarrow> jsstring" where
  "percentByte b = [37, hexDigit (b div 16), hexDigit (b mod 16)]"

definition utf8 :: "nat \<Rightarrow> nat list" where
  "utf8 cp =
     (if cp < 128 then [cp]
      else if cp < 2048 then [192 + cp div 64, 128 + cp mod 64]
      else if cp < 65536 then [224 + cp div 4096, 128 + (cp div 64) mod 64, 128 + cp mod 64]
      else [240 + cp div 262144, 128 + (cp div 4096) mod 64, 128 + (cp div 64) mod 64,
            128 + cp mod 64])"

definition percentEncode :: "nat \<Rightarrow> jsstring" where
  "percentEncode cp = concat (map percentByte (utf8 cp))"

definition isHighSurrogate :: "nat \<Rightarrow> bool" where
  "isHighSurrogate c = (55296 \<le> c \<and> c \<le> 56319)"

definition isLowSurrogate :: "nat \<Rightarrow> bool" where
  "isLowSurrogate c = (56320 \<le> c \<and> c \<le> 57343)"

fun encodeURIComponent :: "jsstring \<Rightarrow> jsstring option" where
  "encodeURIComponent [] = Some []"
| "encodeURIComponent (c # cs) =
     (if isUnreserved c then map_option ((#) c) (encodeURIComponent cs)
      else if isLowSurrogate c then None
      else if isHighSurrogate c then
        (case cs of
           [] \<Rightarrow> None
         | d # ds \<Rightarrow>
             if isLowSurrogate d
             then map_option ((@) (percentEncode (65536 + (c - 55296) * 1024 + (d - 56320))))
                    (encodeURIComponent ds)
             else None)
      else map_option ((@) (percentEncode c)) (encodeURIComponent cs))"

subsection \<open>JSON.parse\<close>

text \<open>
  \<open>JSON.parse\<close> of the runtime, following the JSON grammar of ECMA-404: a recursive
  descent over the code units, each function returning the value read and the rest of the
  input, \<open>None\<close> for a \<open>SyntaxError\<close>. The members of an object are kept in source
  order. A number is kept as the exact value of its literal.

  In \<open>parseElements\<close> and \<open>parseMembers\<close> the test \<open>length r' < length cs\<close> before
  the recursive call makes the recursion well-founded by itself; the lemmas
  \<open>parseElements_unguarded\<close> and \<open>parseMembers_unguarded\<close> below show that the test
  always succeeds, so the functions are the plain recursive descent.
\<close>

definition isJsonWs :: "nat \<Rightarrow> bool" where
  "isJsonWs c = (c = 9 \<or> c = 10 \<or> c = 13 \<or> c = 32)"

definition skipWs :: "jsstring \<Rightarrow> jsstring" where
  "skipWs cs = dropWhile isJsonWs cs"

definition isDigit :: "nat \<Rightarrow> bool" where
  "isDigit c = (48 \<le> c \<and> c \<le> 57)"

definition hexValue :: "nat \<Rightarrow> nat option" where
  "hexValue c =
     (if 48 \<le> c \<and> c \<le> 57 then Some (c - 48)
      else if 65 \<le> c \<and> c \<le> 70 then Some (c - 55)
      else if 97 \<le> c \<and> c \<le> 102 then Some (c - 87)
      else None)"

definition escapeUnit :: "nat \<Rightarrow> nat option" where
  "escapeUnit e =
     (if e = 34 then Some 34
      else if e = 92 then Some 92
      else if e = 47 then Some 47
      else if e = 98 then Some 8
      else if e = 102 then Some 12
      else if e = 110 then Some 10
      else if e = 114 then Some 13
      else if e = 116 then Some 9
      else None)"

definition parseEscape :: "jsstring \<Rightarrow> (nat \<times> jsstring) option" where
  "parseEscape cs =
     (case cs of
        [] \<Rightarrow> None
      | e # es \<Rightarrow>
          if e = 117 then
            (case es of
               h1 # h2 # h3 # h4 # rest \<Rightarrow>
                 (case hexValue h1 of None \<Rightarrow> None | Some a \<Rightarrow>
                 (case hexValue h2 of None \<Rightarrow> None | Some b \<Rightarrow>
                 (case hexValue h3 of None \<Rightarrow> None | Some c \<Rightarrow>
                 (case hexValue h4 of None \<Rightarrow> None | Some d \<Rightarrow>
                    Some (((a * 16 + b) * 16 + c) * 16 + d, rest)))))
             | _ \<Rightarrow> None)
          else
            (case escapeUnit e of
               None \<Rightarrow> None
             | Some u \<Rightarrow> Some (u, es)))"

lemma parseEscape_shorter: "parseEscape cs = Some (u, r) \<Longrightarrow> length r < length cs"
  by (auto simp: parseEscape_def split: list.splits if_splits option.splits)

function parseStringBody :: "jsstring \<Rightarrow> jsstring \<Rightarrow> (jsstring \<times> jsstring) option" where
  "parseStringBody acc cs =
     (case cs of
        [] \<Rightarrow> None
      | c # r \<Rightarrow>
          if c = 34 then Some (rev acc, r)
          else if c = 92 then
            (case parseEscape r of
               None \<Rightarrow> None
             | Some (u, r') \<Rightarrow> parseStringBody (u # acc) r')
          else if c < 32 then None
          else parseStringBody (c # acc) r)"
  by pat_completeness auto

termination
  by (relation "measure (\<lambda>(acc, cs). length cs)")
     (auto dest: parseEscape_shorter)

declare parseStringBody.simps [simp del]

definition digitsValue :: "jsstring \<Rightarrow> nat" where
  "digitsValue ds = foldl (\<lambda>a d. 10 * a + (d - 48)) 0 ds"

text \<open>
  A number: an optional minus, the integer part (\<open>0\<close> or a non-zero digit followed by
  digits), an optional fraction, an optional exponent.
\<close>

definition parseInt :: "jsstring \<Rightarrow> (jsstring \<times> jsstring) option" where
  "parseInt cs =
     (case cs of
        [] \<Rightarrow> None
      | c # r \<Rightarrow>
          if c = 48 then Some ([48], r)
          else if isDigit c then Some (takeWhile isDigit cs, dropWhile isDigit cs)
          else None)"

definition parseFrac :: "jsstring \<Rightarrow> (jsstring \<times> jsstring) option" where
  "parseFrac cs =
     (case cs of
        [] \<Rightarrow> Some ([], [])
      | c # r \<Rightarrow>
          if c = 46 then
            (if takeWhile isDigit r = [] then None
             else Some (takeWhile isDigit r, dropWhile isDigit r))
          else Some ([], cs))"

definition parseSign :: "jsstring \<Rightarrow> bool \<times> jsstring" where
  "parseSign cs =
     (case cs of
        [] \<Rightarrow> (False, [])
      | c # r \<Rightarrow> if c = 45 then (True, r) else if c = 43 then (False, r) else (False, cs))"

definition parseExp :: "jsstring \<Rightarrow> ((bool \<times> jsstring) \<times> jsstring) option" where
  "parseExp cs =
     (case cs of
        [] \<Rightarrow> Some ((False, []), [])
      | c # r \<Rightarrow>
          if c = 101 \<or> c = 69 then
            (let (neg, r') = parseSign r in
             if takeWhile isDigit r' = [] then None
             else Some ((neg, takeWhile isDigit r'), dropWhile isDigit r'))
          else Some ((False, []), cs))"

definition numberValue :: "bool \<Rightarrow> jsstring \<Rightarrow> jsstring \<Rightarrow> bool \<Rightarrow> jsstring \<Rightarrow> rat" where
  "numberValue neg ip fp expNeg ep =
     (let mant = (of_nat (digitsValue (ip @ fp)) :: rat) / 10 ^ length fp;
          mag = (if expNeg then mant / 10 ^ digitsValue ep else mant * 10 ^ digitsValue ep)
      in if neg then - mag else mag)"

definition parseNumber :: "jsstring \<Rightarrow> (json \<times> jsstring) option" where
  "parseNumber cs =
     (let (neg, cs1) = (case cs of [] \<Rightarrow> (False, [])
                        | c # r \<Rightarrow> if c = 45 then (True, r) else (False, cs))
      in case parseInt cs1 of
           None \<Rightarrow> None
         | Some (ip, cs2) \<Rightarrow>
             (case parseFrac cs2 of
                None \<Rightarrow> None
              | Some (fp, cs3) \<Rightarrow>
                  (case parseExp cs3 of
                     None \<Rightarrow> None
                   | Some ((expNeg, ep), cs4) \<Rightarrow>
                       Some (JNumber (Finite (numberValue neg ip fp expNeg ep)), cs4))))"

lemma parseInt_shorter: "parseInt cs = Some (ip, r) \<Longrightarrow> length r < length cs"
  by (auto simp: parseInt_def less_Suc_eq_le length_dropWhile_le
           split: list.splits if_splits)

lemma parseFrac_shorter: "parseFrac cs = Some (fp, r) \<Longrightarrow> length r \<le> length cs"
  by (auto simp: parseFrac_def le_SucI length_dropWhile_le split: list.splits if_splits)

lemma parseSign_shorter: "parseSign cs = (neg, r) \<Longrightarrow> length r \<le> length cs"
  by (auto simp: parseSign_def split: list.splits if_splits)

lemma parseExp_shorter: "parseExp cs = Some (e, r) \<Longrightarrow> length r \<le> length cs"
proof -
  assume a: "parseExp cs = Some (e, r)"
  show ?thesis
  proof (cases cs)
    case Nil
    with a show ?thesis by (simp add: parseExp_def)
  next
    case (Cons c t)
    obtain neg r' where ps: "parseSign t = (neg, r')" by (cases "parseSign t")
    have "length (dropWhile isDigit r') \<le> length t"
      using parseSign_shorter [OF ps] length_dropWhile_le [of isDigit r'] by simp
    with a Cons ps show ?thesis
      by (auto simp: parseExp_def split: if_splits)
  qed
qed

lemma parseNumber_shorter: "parseNumber cs = Some (v, r) \<Longrightarrow> length r < length cs"
proof -
  assume a: "parseNumber cs = Some (v, r)"
  define cs1 where "cs1 = (case cs of [] \<Rightarrow> [] | c # t \<Rightarrow> if c = 45 then t else cs)"
  have l1: "length cs1 \<le> length cs"
    by (simp add: cs1_def split: list.splits)
  from a obtain ip cs2 fp cs3 e where
    pi: "parseInt cs1 = Some (ip, cs2)" and pf: "parseFrac cs2 = Some (fp, cs3)"
    and pe: "parseExp cs3 = Some (e, r)"
    by (auto simp: parseNumber_def cs1_def split: list.splits if_splits option.splits)
  from parseInt_shorter [OF pi] parseFrac_shorter [OF pf] parseExp_shorter [OF pe] l1
  show ?thesis by simp
qed

lemma parseStringBody_shorter:
  "parseStringBody acc cs = Some (s, r) \<Longrightarrow> length r < length cs"
proof (induction acc cs arbitrary: s r rule: parseStringBody.induct)
  case (1 acc cs)
  show ?case
  proof (cases cs)
    case Nil
    with "1.prems" show ?thesis by (simp add: parseStringBody.simps)
  next
    case (Cons c t)
    consider (quote) "c = 34" | (esc) "c \<noteq> 34" "c = 92" | (plain) "c \<noteq> 34" "c \<noteq> 92"
      by blast
    then show ?thesis
    proof cases
      case quote
      with "1.prems" Cons show ?thesis by (simp add: parseStringBody.simps)
    next
      case esc
      with "1.prems" Cons obtain u r' where
        pe: "parseEscape t = Some (u, r')"
        and rec: "parseStringBody (u # acc) r' = Some (s, r)"
        by (subst (asm) parseStringBody.simps) (auto split: option.splits)
      have "length r < length r'"
        using "1.IH"(1) [OF Cons esc pe refl rec] .
      with parseEscape_shorter [OF pe] Cons show ?thesis by simp
    next
      case plain
      with "1.prems" Cons have ge: "\<not> c < 32"
        and rec: "parseStringBody (c # acc) t = Some (s, r)"
        by (subst (asm) parseStringBody.simps, auto split: if_splits)+
      have "length r < length t"
        using "1.IH"(2) [OF Cons plain ge rec] .
      with Cons show ?thesis by simp
    qed
  qed
qed

lemma skipWs_le: "length (skipWs cs) \<le> length cs"
  by (simp add: skipWs_def length_dropWhile_le)

function parseValue :: "jsstring \<Rightarrow> (json \<times> jsstring) option"
  and parseElements :: "json list \<Rightarrow> jsstring \<Rightarrow> (json \<times> jsstring) option"
  and parseMembers :: "(jsstring \<times> json) list \<Rightarrow> jsstring \<Rightarrow> (json \<times> jsstring) option"
where
  "parseValue cs =
     (case skipWs cs of
        [] \<Rightarrow> None
      | c # r \<Rightarrow>
          if c = 123 then
            (case skipWs r of
               [] \<Rightarrow> None
             | d # r' \<Rightarrow> if d = 125 then Some (JObject [], r') else parseMembers [] r)
          else if c = 91 then
            (case skipWs r of
               [] \<Rightarrow> None
             | d # r' \<Rightarrow> if d = 93 then Some (JArray [], r') else parseElements [] r)
          else if c = 34 then
            (case parseStringBody [] r of
               None \<Rightarrow> None
             | Some (s, r') \<Rightarrow> Some (JString s, r'))
          else if startsWith (c # r) (str ''true'') then Some (JBool True, drop 4 (c # r))
          else if startsWith (c # r) (str ''false'') then Some (JBool False, drop 5 (c # r))
          else if startsWith (c # r) (str ''null'') then Some (JNull, drop 4 (c # r))
          else parseNumber (c # r))"
| "parseElements acc cs =
     (case parseValue cs of
        None \<Rightarrow> None
      | Some (v, r) \<Rightarrow>
          (case skipWs r of
             [] \<Rightarrow> None
           | c # r' \<Rightarrow>
               if c = 44 then
                 (if length r' < length cs then parseElements (acc @ [v]) r' else None)
               else if c = 93 then Some (JArray (acc @ [v]), r')
               else None))"
| "parseMembers acc cs =
     (case skipWs cs of
        [] \<Rightarrow> None
      | q # r0 \<Rightarrow>
          if q \<noteq> 34 then None
          else
            (case parseStringBody [] r0 of
               None \<Rightarrow> None
             | Some (k, r1) \<Rightarrow>
                 (case skipWs r1 of
                    [] \<Rightarrow> None
                  | colon # r2 \<Rightarrow>
                      if colon \<noteq> 58 then None
                      else
                        (case parseValue r2 of
                           None \<Rightarrow> None
                         | Some (v, r3) \<Rightarrow>
                             (case skipWs r3 of
                                [] \<Rightarrow> None
                              | c # r4 \<Rightarrow>
                                  if c = 44 then
                                    (if length r4 < length cs
                                     then parseMembers (acc @ [(k, v)]) r4 else None)
                                  else if c = 125 then Some (JObject (acc @ [(k, v)]), r4)
                                  else None)))))"
  by pat_completeness auto

termination
proof (relation "measure (\<lambda>x. case x of
          Inl cs \<Rightarrow> 2 * length cs
        | Inr (Inl (acc, cs)) \<Rightarrow> 2 * length cs + 1
        | Inr (Inr (acc, cs)) \<Rightarrow> 2 * length cs + 1)", goal_cases)
  case 1
  show ?case by simp
next
  case (2 cs c r d r')
  then show ?case using skipWs_le [of cs] by simp
next
  case (3 cs c r d r')
  then show ?case using skipWs_le [of cs] by simp
next
  case (4 acc cs)
  show ?case by simp
next
  case (5 acc cs x v r c r')
  then show ?case by simp
next
  case (6 acc cs q r0 x k r1 colon r2)
  then show ?case
    using skipWs_le [of cs] skipWs_le [of r1] parseStringBody_shorter [of "[]" r0 k r1]
    by simp
next
  case (7 acc cs q r0 x k r1 colon r2 y v r3 c r4)
  then show ?case by simp
qed

declare parseValue.simps [simp del] parseElements.simps [simp del] parseMembers.simps [simp del]

definition JSON_parse :: "jsstring \<Rightarrow> json option" where
  "JSON_parse text =
     (case parseValue text of
        None \<Rightarrow> None
      | Some (v, r) \<Rightarrow> if skipWs r = [] then Some v else None)"

section \<open>pixabay.ts: URL sanitising\<close>

text \<open>
  \<open>sanitizeUrl(value: string | undefined | null)\<close>: \<open>None\<close> stands for
  \<open>undefined\<close> and \<open>null\<close>, on the argument side and on the result side. The empty
  string is falsy, so it is rejected by the first test.
\<close>

definition sanitizeUrl :: "jsstring option \<Rightarrow> jsstring option" where
  "sanitizeUrl v =
     (case v of
        None \<Rightarrow> None
      | Some s \<Rightarrow>
          if s = [] then None
          else let trimmed = trim s in
            if trimmed = [] then None
            else if \<not> httpRegexTest trimmed then None
            else Some trimmed)"


section \<open>schemas.ts: the image hit\<close>

text \<open>
  Reading a property of a parsed JSON value: \<open>None\<close> is \<open>undefined\<close>. The names read
  by the code (\<open>hits\<close>, \<open>totalHits\<close>, \<open>query\<close>, the keys of the schemas and of the call
  metadata) are defined on no prototype, so a value that is no object has none of them.
  Reading a property of \<open>null\<close> throws; the callers below test for it. When a key occurs
  twice in a parsed object the runtime keeps the later value, hence the reversed list.
\<close>

definition getProp :: "json \<Rightarrow> jsstring \<Rightarrow> json option" where
  "getProp v k = (case v of JObject kvs \<Rightarrow> map_of (rev kvs) k | _ \<Rightarrow> None)"

text \<open>
  The parsers of the validation library, as used by the schemas: \<open>z.number()\<close> accepts a
  number that is not NaN, \<open>z.string()\<close> a string, \<open>.url()\<close> adds the URL test,
  \<open>.optional()\<close> accepts \<open>undefined\<close>, a non-strict \<open>z.object\<close> accepts an object
  and ignores the keys it does not know.
\<close>

definition zNumber :: "json option \<Rightarrow> jsnumber option" where
  "zNumber v = (case v of Some (JNumber n) \<Rightarrow> if n = NaN then None else Some n | _ \<Rightarrow> None)"

definition zString :: "json option \<Rightarrow> jsstring option" where
  "zString v = (case v of Some (JString s) \<Rightarrow> Some s | _ \<Rightarrow> None)"

definition zUrl :: "runtime \<Rightarrow> json option \<Rightarrow> jsstring option" where
  "zUrl rt v = (case zString v of Some s \<Rightarrow> if isUrl rt s then Some s else None | None \<Rightarrow> None)"

definition urlOrEmpty :: "runtime \<Rightarrow> json option \<Rightarrow> jsstring option" where
  "urlOrEmpty rt v =
     (case zUrl rt v of
        Some s \<Rightarrow> Some s
      | None \<Rightarrow> (case v of Some (JString s) \<Rightarrow> if s = [] then Some s else None | _ \<Rightarrow> None))"

definition zOptional :: "(json option \<Rightarrow> 'a option) \<Rightarrow> json option \<Rightarrow> 'a option option" where
  "zOptional p v = (case v of None \<Rightarrow> Some None | Some x \<Rightarrow> map_option Some (p (Some x)))"

text \<open>
  \<open>z.union([z.string().url(), z.literal(""), z.null()]).optional().nullable()\<close>: the
  parsed value is a string, \<open>null\<close> or \<open>undefined\<close>; the last two are both \<open>None\<close>
  here, no code reads the field.
\<close>

definition userImageURLSchema :: "runtime \<Rightarrow> json option \<Rightarrow> jsstring option option" where
  "userImageURLSchema rt v =
     (case v of
        None \<Rightarrow> Some None
      | Some JNull \<Rightarrow> Some None
      | Some x \<Rightarrow> map_option Some (urlOrEmpty rt (Some x)))"

definition isObject :: "json \<Rightarrow> bool" where
  "isObject v = (case v of JObject _ \<Rightarrow> True | _ \<Rightarrow> False)"

record pixabayImageHit =
  ih_id :: jsnumber
  ih_pageURL :: jsstring
  ih_previewURL :: jsstring
  ih_webformatURL :: jsstring
  ih_imageWidth :: jsnumber
  ih_imageHeight :: jsnumber
  ih_tags :: jsstring
  ih_user :: jsstring
  ih_user_id :: jsnumber
  ih_userImageURL :: "jsstring option"
  ih_likes :: jsnumber
  ih_downloads :: jsnumber

text \<open>\<open>pixabayImageHitSchema.safeParse(rawHit)\<close>: \<open>Some\<close> is \<open>success\<close> with its data.\<close>

definition pixabayImageHitSchema :: "runtime \<Rightarrow> json \<Rightarrow> pixabayImageHit option" where
  "pixabayImageHitSchema rt raw =
     (if \<not> isObject raw then None
      else
        Option.bind (zNumber (getProp raw (str ''id''))) (\<lambda>v_id.
        Option.bind (zUrl rt (getProp raw (str ''pageURL''))) (\<lambda>v_pageURL.
        Option.bind (zUrl rt (getProp raw (str ''previewURL''))) (\<lambda>v_previewURL.
        Option.bind (zUrl rt (getProp raw (str ''webformatURL''))) (\<lambda>v_webformatURL.
        Option.bind (zNumber (getProp raw (str ''imageWidth''))) (\<lambda>v_imageWidth.
        Option.bind (zNumber (getProp raw (str ''imageHeight''))) (\<lambda>v_imageHeight.
        Option.bind (zString (getProp raw (str ''tags''))) (\<lambda>v_tags.
        Option.bind (zString (getProp raw (str ''user''))) (\<lambda>v_user.
        Option.bind (zNumber (getProp raw (str ''user_id''))) (\<lambda>v_user_id.
        Option.bind (userImageURLSchema rt (getProp raw (str ''userImageURL''))) (\<lambda>v_userImageURL.
        Option.bind (zNumber (getProp raw (str ''likes''))) (\<lambda>v_likes.
        Option.bind (zNumber (getProp raw (str ''downloads''))) (\<lambda>v_downloads.
          Some \<lparr> ih_id = v_id, ih_pageURL = v_pageURL, ih_previewURL = v_previewURL,
                 ih_webformatURL = v_webformatURL, ih_imageWidth = v_imageWidth,
                 ih_imageHeight = v_imageHeight, ih_tags = v_tags, ih_user = v_user,
                 ih_user_id = v_user_id, ih_userImageURL = v_userImageURL,
                 ih_likes = v_likes, ih_downloads = v_downloads \<rparr>)))))))))))))"

section \<open>schemas.ts: the parsed video hit\<close>

record rendition =
  rd_url :: jsstring
  rd_width :: jsnumber
  rd_height :: jsnumber
  rd_size :: "jsnumber option"
  rd_thumbnail :: "jsstring option"

record videoSet =
  large :: "rendition option"
  medium :: "rendition option"
  small :: "rendition option"
  tiny :: "rendition option"

record pixabayVideoHit =
  vh_id :: jsnumber
  vh_pageURL :: jsstring
  vh_tags :: jsstring
  vh_duration :: jsnumber
  vh_type :: jsstring
  vh_videos :: videoSet
  vh_user :: jsstring
  vh_user_id :: jsnumber
  vh_userImageURL :: "jsstring option"
  vh_views :: "jsnumber option"
  vh_downloads :: "jsnumber option"
  vh_likes :: "jsnumber option"

datatype renditionKey = Large | Medium | Small | Tiny

definition VIDEO_RENDITION_ORDER :: "renditionKey list" where
  "VIDEO_RENDITION_ORDER = [Medium, Large, Small, Tiny]"

definition THUMBNAIL_RENDITION_ORDER :: "renditionKey list" where
  "THUMBNAIL_RENDITION_ORDER = [Medium, Small, Large, Tiny]"

text \<open>\<open>hit.videos[key]\<close>\<close>

fun videosAt :: "videoSet \<Rightarrow> renditionKey \<Rightarrow> rendition option" where
  "videosAt vs Large = large vs"
| "videosAt vs Medium = medium vs"
| "videosAt vs Small = small vs"
| "videosAt vs Tiny = tiny vs"


text \<open>
  The comparison \<open><\<close> of the runtime on numbers: false as soon as one side is NaN.
\<close>

definition numLess :: "jsnumber \<Rightarrow> jsnumber \<Rightarrow> bool" where
  "numLess a b =
     (case a of
        Finite x \<Rightarrow> (case b of Finite y \<Rightarrow> x < y | PosInfinity \<Rightarrow> True | _ \<Rightarrow> False)
      | NegInfinity \<Rightarrow> (case b of Finite _ \<Rightarrow> True | PosInfinity \<Rightarrow> True | _ \<Rightarrow> False)
      | _ \<Rightarrow> False)"

text \<open>\<open>pixabayVideoRenditionSchema\<close>, a non-strict object.\<close>

definition pixabayVideoRenditionSchema :: "runtime \<Rightarrow> json option \<Rightarrow> rendition option" where
  "pixabayVideoRenditionSchema rt v =
     (case v of
        Some (JObject kvs) \<Rightarrow>
          Option.bind (urlOrEmpty rt (getProp (JObject kvs) (str ''url''))) (\<lambda>v_url.
          Option.bind (zNumber (getProp (JObject kvs) (str ''width''))) (\<lambda>v_width.
          Option.bind (zNumber (getProp (JObject kvs) (str ''height''))) (\<lambda>v_height.
          Option.bind (zOptional zNumber (getProp (JObject kvs) (str ''size''))) (\<lambda>v_size.
          Option.bind (zOptional (urlOrEmpty rt) (getProp (JObject kvs) (str ''thumbnail'')))
            (\<lambda>v_thumbnail.
              Some \<lparr> rd_url = v_url, rd_width = v_width, rd_height = v_height,
                     rd_size = v_size, rd_thumbnail = v_thumbnail \<rparr>)))))
      | _ \<Rightarrow> None)"

text \<open>
  The \<open>videos\<close> object is strict: a key other than the four rendition names fails the
  parse.
\<close>

definition videosSchema :: "runtime \<Rightarrow> json option \<Rightarrow> videoSet option" where
  "videosSchema rt v =
     (case v of
        Some (JObject kvs) \<Rightarrow>
          if \<exists>k \<in> set (map fst kvs).
               k \<notin> set [str ''large'', str ''medium'', str ''small'', str ''tiny'']
          then None
          else
            Option.bind (zOptional (pixabayVideoRenditionSchema rt)
                          (getProp (JObject kvs) (str ''large''))) (\<lambda>v_large.
            Option.bind (zOptional (pixabayVideoRenditionSchema rt)
                          (getProp (JObject kvs) (str ''medium''))) (\<lambda>v_medium.
            Option.bind (zOptional (pixabayVideoRenditionSchema rt)
                          (getProp (JObject kvs) (str ''small''))) (\<lambda>v_small.
            Option.bind (zOptional (pixabayVideoRenditionSchema rt)
                          (getProp (JObject kvs) (str ''tiny''))) (\<lambda>v_tiny.
              Some \<lparr> large = v_large, medium = v_medium, small = v_small,
                     tiny = v_tiny \<rparr>))))
      | _ \<Rightarrow> None)"

text \<open>\<open>z.number().int().nonnegative()\<close>\<close>

definition durationSchema :: "json option \<Rightarrow> jsnumber option" where
  "durationSchema v =
     (case zNumber v of
        Some n \<Rightarrow> if isInteger n \<and> \<not> numLess n (Finite 0) then Some n else None
      | None \<Rightarrow> None)"

definition pixabayVideoHitSchema :: "runtime \<Rightarrow> json \<Rightarrow> pixabayVideoHit option" where
  "pixabayVideoHitSchema rt raw =
     (if \<not> isObject raw then None
      else
        Option.bind (zNumber (getProp raw (str ''id''))) (\<lambda>v_id.
        Option.bind (zUrl rt (getProp raw (str ''pageURL''))) (\<lambda>v_pageURL.
        Option.bind (zString (getProp raw (str ''tags''))) (\<lambda>v_tags.
        Option.bind (durationSchema (getProp raw (str ''duration''))) (\<lambda>v_duration.
        Option.bind (zString (getProp raw (str ''type''))) (\<lambda>v_type.
        Option.bind (videosSchema rt (getProp raw (str ''videos''))) (\<lambda>v_videos.
        Option.bind (zString (getProp raw (str ''user''))) (\<lambda>v_user.
        Option.bind (zNumber (getProp raw (str ''user_id''))) (\<lambda>v_user_id.
        Option.bind (userImageURLSchema rt (getProp raw (str ''userImageURL''))) (\<lambda>v_userImageURL.
        Option.bind (zOptional zNumber (getProp raw (str ''views''))) (\<lambda>v_views.
        Option.bind (zOptional zNumber (getProp raw (str ''downloads''))) (\<lambda>v_downloads.
        Option.bind (zOptional zNumber (getProp raw (str ''likes''))) (\<lambda>v_likes.
          Some \<lparr> vh_id = v_id, vh_pageURL = v_pageURL, vh_tags = v_tags,
                 vh_duration = v_duration, vh_type = v_type, vh_videos = v_videos,
                 vh_user = v_user, vh_user_id = v_user_id,
                 vh_userImageURL = v_userImageURL, vh_views = v_views,
                 vh_downloads = v_downloads, vh_likes = v_likes \<rparr>)))))))))))))"

section \<open>schemas.ts: the results\<close>

record contributor =
  name :: jsstring
  profileUrl :: jsstring

record imageResult =
  ir_id :: jsnumber
  ir_previewUrl :: jsstring
  ir_pageUrl :: jsstring
  ir_imageUrl :: jsstring
  ir_imageWidth :: jsnumber
  ir_imageHeight :: jsnumber
  ir_tags :: "jsstring list"
  ir_photographer :: contributor
  ir_likes :: jsnumber
  ir_downloads :: jsnumber

record videoResult =
  vr_id :: jsnumber
  vr_pageUrl :: jsstring
  vr_videoUrl :: jsstring
  vr_previewImageUrl :: "jsstring option"
  vr_width :: "jsnumber option"
  vr_height :: "jsnumber option"
  vr_durationSeconds :: jsnumber
  vr_tags :: "jsstring list"
  vr_creator :: contributor
  vr_likes :: "jsnumber option"
  vr_downloads :: "jsnumber option"

section \<open>pixabay.ts: choosing the rendition and the thumbnail\<close>

text \<open>
  The body of the \<open>for (const key of VIDEO_RENDITION_ORDER)\<close> loop of
  \<open>pickVideoRendition\<close>, as a recursion over the keys still to visit.
\<close>

fun pickLoop :: "pixabayVideoHit \<Rightarrow> renditionKey list \<Rightarrow> rendition option" where
  "pickLoop hit [] = None"
| "pickLoop hit (key # keys) =
     (case videosAt (vh_videos hit) key of
        None \<Rightarrow> pickLoop hit keys
      | Some r \<Rightarrow>
          if sanitizeUrl (Some (rd_url r)) \<noteq> None then Some r else pickLoop hit keys)"

definition pickVideoRendition :: "pixabayVideoHit \<Rightarrow> rendition option" where
  "pickVideoRendition hit = pickLoop hit VIDEO_RENDITION_ORDER"

fun thumbnailLoop :: "pixabayVideoHit \<Rightarrow> renditionKey list \<Rightarrow> jsstring option" where
  "thumbnailLoop hit [] = None"
| "thumbnailLoop hit (key # keys) =
     (case videosAt (vh_videos hit) key of
        None \<Rightarrow> thumbnailLoop hit keys
      | Some r \<Rightarrow>
          (case sanitizeUrl (rd_thumbnail r) of
             Some t \<Rightarrow> Some t
           | None \<Rightarrow> thumbnailLoop hit keys))"

definition findThumbnail :: "pixabayVideoHit \<Rightarrow> jsstring option \<Rightarrow> jsstring option" where
  "findThumbnail hit preferred =
     (case sanitizeUrl preferred of
        Some preferredUrl \<Rightarrow> Some preferredUrl
      | None \<Rightarrow> thumbnailLoop hit THUMBNAIL_RENDITION_ORDER)"


section \<open>pixabay.ts: the client\<close>

datatype errorCode = InternalError | InvalidParams

text \<open>
  What an invocation can throw: the \<open>McpError\<close>s of the repository, the \<open>TypeError\<close> of
  reading a property of \<open>null\<close>, the \<open>URIError\<close> of \<open>encodeURIComponent\<close>, the
  \<open>SyntaxError\<close> of \<open>response.json()\<close>, a body that cannot be read, and whatever
  \<open>fetch\<close> itself rejects with.
\<close>

datatype error =
    McpError errorCode jsstring
  | TypeError
  | URIError
  | SyntaxError
  | BodyUnreadable
  | FetchRejected

definition defaultLocale :: jsstring where
  "defaultLocale = str ''en''"

definition defaultPerPage :: nat where
  "defaultPerPage = 6"

definition maxPerPage :: nat where
  "maxPerPage = 20"

definition pixabayBaseUrl :: jsstring where
  "pixabayBaseUrl = str ''https://pixabay.com/api/''"

definition SUPPORTED_LANGS :: "jsstring list" where
  "SUPPORTED_LANGS =
     map str [''cs'', ''da'', ''de'', ''en'', ''es'', ''fr'', ''id'', ''it'', ''hu'', ''nl'',
              ''no'', ''pl'', ''pt'', ''ro'', ''sk'', ''fi'', ''sv'', ''tr'', ''vi'', ''th'',
              ''bg'', ''ru'', ''el'', ''ja'', ''ko'', ''zh'']"

text \<open>
  \<open>resolveLanguage(locale: string | undefined)\<close>. \<open>locale.split(/[-_]/)[0]\<close> is the
  first piece of the split; the optional chaining covers a missing first piece.
\<close>

definition isLocaleSeparator :: "nat \<Rightarrow> bool" where
  "isLocaleSeparator c = (c = 45 \<or> c = 95)"

definition resolveLanguage :: "jsstring option \<Rightarrow> jsstring" where
  "resolveLanguage loc =
     (case loc of
        None \<Rightarrow> defaultLocale
      | Some l \<Rightarrow>
          if l = [] then defaultLocale
          else
            (case (case split isLocaleSeparator l of
                     [] \<Rightarrow> None
                   | first # _ \<Rightarrow> Some (toLowerCase first)) of
               None \<Rightarrow> defaultLocale
             | Some candidate \<Rightarrow>
                 if candidate \<noteq> [] \<and> candidate \<in> set SUPPORTED_LANGS then candidate
                 else defaultLocale))"

definition normalizeTags :: "jsstring \<Rightarrow> jsstring list" where
  "normalizeTags tags =
     filter (\<lambda>tag. length tag > 0) (map trim (split (\<lambda>c. c = 44) tags))"

text \<open>\<open>buildContributorProfile\<close>: \<open>None\<close> when \<open>encodeURIComponent\<close> throws.\<close>

definition buildContributorProfile :: "runtime \<Rightarrow> jsstring \<Rightarrow> jsnumber \<Rightarrow> jsstring option" where
  "buildContributorProfile rt username userId =
     map_option
       (\<lambda>encoded. str ''https://pixabay.com/users/'' @ encoded @ str ''-''
                    @ numberToString rt userId @ str ''/'')
       (encodeURIComponent username)"

text \<open>
  A response of the upstream: the status, the status text, the headers and the text of the
  body (\<open>None\<close> when reading the body fails). A request is the base URL and the query
  parameters in the order given to \<open>URLSearchParams\<close>; their serialisation and the
  transport are the runtime's.
\<close>

record response =
  status :: nat
  statusText :: jsstring
  headers :: "jsstring \<Rightarrow> jsstring option"
  body :: "jsstring option"

record request =
  baseUrl :: jsstring
  searchParams :: "(jsstring \<times> jsstring) list"

definition ok :: "response \<Rightarrow> bool" where
  "ok r = (200 \<le> status r \<and> status r \<le> 299)"

record rateLimitInfo =
  limit :: "jsnumber option"
  remaining :: "jsnumber option"
  resetSeconds :: "jsnumber option"

definition parseHeader :: "runtime \<Rightarrow> jsstring option \<Rightarrow> jsnumber option" where
  "parseHeader rt v =
     (case v of
        None \<Rightarrow> None
      | Some s \<Rightarrow>
          if s = [] then None
          else let parsed = stringToNumber rt s in
            if isFinite parsed then Some parsed else None)"

definition extractRateLimit :: "runtime \<Rightarrow> (jsstring \<Rightarrow> jsstring option) \<Rightarrow> rateLimitInfo" where
  "extractRateLimit rt hs =
     \<lparr> limit = parseHeader rt (hs (str ''x-ratelimit-limit'')),
       remaining = parseHeader rt (hs (str ''x-ratelimit-remaining'')),
       resetSeconds = parseHeader rt (hs (str ''x-ratelimit-reset'')) \<rparr>"

definition safeReadError :: "response \<Rightarrow> jsstring" where
  "safeReadError r =
     (case body r of
        None \<Rightarrow> statusText r
      | Some text \<Rightarrow> if trim text \<noteq> [] then trim text else statusText r)"

text \<open>\<open>throwForErrorResponse\<close> always throws; the model returns what it throws.\<close>

definition throwForErrorResponse :: "response \<Rightarrow> error" where
  "throwForErrorResponse r =
     (let message = safeReadError r in
      if status r = 401 \<or> status r = 403
      then McpError InternalError (str ''Pixabay authentication failed. Verify PIXABAY_API_KEY.'')
      else if status r = 429
      then McpError InternalError
             (str ''Pixabay rate limit exceeded. Please wait a moment before trying again.'')
      else McpError InternalError
             (str ''Pixabay request failed ('' @ digitsOf (status r) @ str ''): '' @ message))"

text \<open>\<open>response.json()\<close>\<close>

definition responseJson :: "response \<Rightarrow> error + json" where
  "responseJson r =
     (case body r of
        None \<Rightarrow> Inl BodyUnreadable
      | Some text \<Rightarrow>
          (case JSON_parse text of None \<Rightarrow> Inl SyntaxError | Some v \<Rightarrow> Inr v))"

record searchImagesInput =
  query :: jsstring
  orientation :: "jsstring option"
  safesearch :: "bool option"
  per_page :: "jsnumber option"

record searchImagesParams = searchImagesInput +
  localeTag :: jsstring

record pixabayImageSearchResult =
  results :: "imageResult list"
  totalHits :: json
  rateLimit :: rateLimitInfo

record pixabayVideoSearchResult =
  v_results :: "videoResult list"
  v_totalHits :: json
  v_rateLimit :: rateLimitInfo

definition boolToString :: "bool \<Rightarrow> jsstring" where
  "boolToString b = (if b then str ''true'' else str ''false'')"

text \<open>The first loop of \<open>searchImages\<close>: the hits that parse, in order.\<close>

fun parseImageHits :: "runtime \<Rightarrow> json list \<Rightarrow> pixabayImageHit list" where
  "parseImageHits rt [] = []"
| "parseImageHits rt (rawHit # hits) =
     (case pixabayImageHitSchema rt rawHit of
        Some parsed \<Rightarrow> parsed # parseImageHits rt hits
      | None \<Rightarrow> parseImageHits rt hits)"

text \<open>The callback of \<open>parsedHits.map\<close>, which throws when the profile URL does.\<close>

definition toImageResult :: "runtime \<Rightarrow> pixabayImageHit \<Rightarrow> error + imageResult" where
  "toImageResult rt hit =
     (case buildContributorProfile rt (ih_user hit) (ih_user_id hit) of
        None \<Rightarrow> Inl URIError
      | Some profile \<Rightarrow>
          Inr \<lparr> ir_id = ih_id hit, ir_previewUrl = ih_previewURL hit,
                ir_pageUrl = ih_pageURL hit, ir_imageUrl = ih_webformatURL hit,
                ir_imageWidth = ih_imageWidth hit, ir_imageHeight = ih_imageHeight hit,
                ir_tags = normalizeTags (ih_tags hit),
                ir_photographer = \<lparr> name = ih_user hit, profileUrl = profile \<rparr>,
                ir_likes = ih_likes hit, ir_downloads = ih_downloads hit \<rparr>)"

fun mapImageResults :: "runtime \<Rightarrow> pixabayImageHit list \<Rightarrow> error + imageResult list" where
  "mapImageResults rt [] = Inr []"
| "mapImageResults rt (hit # hits) =
     (case toImageResult rt hit of
        Inl e \<Rightarrow> Inl e
      | Inr r \<Rightarrow>
          (case mapImageResults rt hits of Inl e \<Rightarrow> Inl e | Inr rs \<Rightarrow> Inr (r # rs)))"

text \<open>\<open>json.totalHits ?? results.length\<close>\<close>

definition totalHitsOr :: "json \<Rightarrow> nat \<Rightarrow> json" where
  "totalHitsOr js n =
     (case getProp js (str ''totalHits'') of
        None \<Rightarrow> JNumber (Finite (of_nat n))
      | Some JNull \<Rightarrow> JNumber (Finite (of_nat n))
      | Some v \<Rightarrow> v)"

text \<open>\<open>Array.isArray(json.hits) ? json.hits : []\<close>\<close>

definition hitsOf :: "json \<Rightarrow> json list" where
  "hitsOf js = (case getProp js (str ''hits'') of Some (JArray xs) \<Rightarrow> xs | _ \<Rightarrow> [])"

text \<open>\<open>searchImages\<close> from the parsed body on.\<close>

definition imagesFromJson :: "runtime \<Rightarrow> rateLimitInfo \<Rightarrow> json \<Rightarrow> error + pixabayImageSearchResult" where
  "imagesFromJson rt rl js =
     (if js = JNull then Inl TypeError
      else
        let hits = hitsOf js;
            parsedHits = parseImageHits rt hits
        in case mapImageResults rt parsedHits of
             Inl e \<Rightarrow> Inl e
           | Inr rs \<Rightarrow>
               Inr \<lparr> results = rs, totalHits = totalHitsOr js (length rs), rateLimit = rl \<rparr>)"

definition imageSearchRequest :: "runtime \<Rightarrow> searchImagesParams \<Rightarrow> request" where
  "imageSearchRequest rt params =
     (let lang = resolveLanguage (Some (localeTag params)) in
      \<lparr> baseUrl = pixabayBaseUrl,
        searchParams =
          [(str ''key'', pixabayApiKey rt),
           (str ''q'', query params),
           (str ''safesearch'',
              boolToString (case safesearch params of None \<Rightarrow> True | Some b \<Rightarrow> b)),
           (str ''per_page'',
              numberToString rt
                (case per_page params of None \<Rightarrow> Finite (of_nat defaultPerPage) | Some n \<Rightarrow> n)),
           (str ''lang'', lang),
           (str ''image_type'', str ''photo''),
           (str ''orientation'',
              (case orientation params of None \<Rightarrow> str ''all'' | Some v \<Rightarrow> v))] \<rparr>)"

definition searchImages ::
  "runtime \<Rightarrow> (request \<Rightarrow> error + response) \<Rightarrow> searchImagesParams
     \<Rightarrow> error + pixabayImageSearchResult" where
  "searchImages rt fetch params =
     (case fetch (imageSearchRequest rt params) of
        Inl e \<Rightarrow> Inl e
      | Inr resp \<Rightarrow>
          let rl = extractRateLimit rt (headers resp) in
          if \<not> ok resp then Inl (throwForErrorResponse resp)
          else (case responseJson resp of
                  Inl e \<Rightarrow> Inl e
                | Inr js \<Rightarrow> imagesFromJson rt rl js))"

fun parseVideoHits :: "runtime \<Rightarrow> json list \<Rightarrow> pixabayVideoHit list" where
  "parseVideoHits rt [] = []"
| "parseVideoHits rt (rawHit # hits) =
     (case pixabayVideoHitSchema rt rawHit of
        Some parsed \<Rightarrow> parsed # parseVideoHits rt hits
      | None \<Rightarrow> parseVideoHits rt hits)"

text \<open>
  The second loop of \<open>searchVideos\<close>: a hit with no usable rendition is skipped
  (\<open>continue\<close>), the others are pushed in order.
\<close>

fun videoResultsLoop :: "runtime \<Rightarrow> pixabayVideoHit list \<Rightarrow> error + videoResult list" where
  "videoResultsLoop rt [] = Inr []"
| "videoResultsLoop rt (hit # hits) =
     (case pickVideoRendition hit of
        None \<Rightarrow> videoResultsLoop rt hits
      | Some rendition \<Rightarrow>
          (case sanitizeUrl (Some (rd_url rendition)) of
             None \<Rightarrow> videoResultsLoop rt hits
           | Some videoUrl \<Rightarrow>
               let previewImageUrl = findThumbnail hit (rd_thumbnail rendition) in
               (case buildContributorProfile rt (vh_user hit) (vh_user_id hit) of
                  None \<Rightarrow> Inl URIError
                | Some profile \<Rightarrow>
                    (case videoResultsLoop rt hits of
                       Inl e \<Rightarrow> Inl e
                     | Inr rs \<Rightarrow>
                         Inr (\<lparr> vr_id = vh_id hit, vr_pageUrl = vh_pageURL hit,
                                 vr_videoUrl = videoUrl,
                                 vr_previewImageUrl = previewImageUrl,
                                 vr_width = (if isFinite (rd_width rendition)
                                             then Some (rd_width rendition) else None),
                                 vr_height = (if isFinite (rd_height rendition)
                                              then Some (rd_height rendition) else None),
                                 vr_durationSeconds = vh_duration hit,
                                 vr_tags = normalizeTags (vh_tags hit),
                                 vr_creator = \<lparr> name = vh_user hit, profileUrl = profile \<rparr>,
                                 vr_likes = vh_likes hit,
                                 vr_downloads = vh_downloads hit \<rparr> # rs)))))"

definition videosFromJson :: "runtime \<Rightarrow> rateLimitInfo \<Rightarrow> json \<Rightarrow> error + pixabayVideoSearchResult" where
  "videosFromJson rt rl js =
     (if js = JNull then Inl TypeError
      else
        let hits = hitsOf js;
            parsedHits = parseVideoHits rt hits
        in case videoResultsLoop rt parsedHits of
             Inl e \<Rightarrow> Inl e
           | Inr rs \<Rightarrow>
               Inr \<lparr> v_results = rs, v_totalHits = totalHitsOr js (length rs),
                     v_rateLimit = rl \<rparr>)"

definition videoSearchRequest :: "runtime \<Rightarrow> searchImagesParams \<Rightarrow> request" where
  "videoSearchRequest rt params =
     (let lang = resolveLanguage (Some (localeTag params)) in
      \<lparr> baseUrl = pixabayVideoBaseUrl rt,
        searchParams =
          [(str ''key'', pixabayApiKey rt),
           (str ''q'', query params),
           (str ''safesearch'',
              boolToString (case safesearch params of None \<Rightarrow> True | Some b \<Rightarrow> b)),
           (str ''per_page'',
              numberToString rt
                (case per_page params of None \<Rightarrow> Finite (of_nat defaultPerPage) | Some n \<Rightarrow> n)),
           (str ''lang'', lang)] \<rparr>)"

definition searchVideos ::
  "runtime \<Rightarrow> (request \<Rightarrow> error + response) \<Rightarrow> searchImagesParams
     \<Rightarrow> error + pixabayVideoSearchResult" where
  "searchVideos rt fetch params =
     (case fetch (videoSearchRequest rt params) of
        Inl e \<Rightarrow> Inl e
      | Inr resp \<Rightarrow>
          let rl = extractRateLimit rt (headers resp) in
          if \<not> ok resp then Inl (throwForErrorResponse resp)
          else (case responseJson resp of
                  Inl e \<Rightarrow> Inl e
                | Inr js \<Rightarrow> videosFromJson rt rl js))"


section \<open>schemas.ts: the input schema\<close>

text \<open>
  \<open>searchImagesInputSchema.safeParse\<close>. The library collects one issue for every failed
  check: the checks of a string or a number all run, in the order of the chain, the fields
  are visited in the order of the schema, and a strict object adds one issue listing the
  keys it does not know. An issue carries the message given in the schema, if any; the
  other messages are the library's.
\<close>

definition orientationValues :: "jsstring list" where
  "orientationValues = [str ''all'', str ''horizontal'', str ''vertical'']"

definition issue :: "issueCode \<Rightarrow> jsstring \<Rightarrow> json option \<Rightarrow> jsstring option \<Rightarrow> zodIssue" where
  "issue c field v m = \<lparr> iss_code = c, iss_path = [field], iss_received = v, iss_message = m \<rparr>"

definition queryIssues :: "json option \<Rightarrow> zodIssue list" where
  "queryIssues v =
     (case v of
        Some (JString s) \<Rightarrow>
          (if length (trim s) < 1
           then [issue too_small (str ''query'') v (Some (str ''Please provide a search query.''))]
           else [])
          @ (if length (trim s) > 100
             then [issue too_big (str ''query'') v
                     (Some (str ''Queries must be 100 characters or fewer.''))]
             else [])
      | _ \<Rightarrow> [issue invalid_type (str ''query'') v None])"

definition orientationIssues :: "json option \<Rightarrow> zodIssue list" where
  "orientationIssues v =
     (case v of
        None \<Rightarrow> []
      | Some (JString s) \<Rightarrow>
          if s \<in> set orientationValues then []
          else [issue invalid_enum_value (str ''orientation'') v None]
      | Some _ \<Rightarrow> [issue invalid_type (str ''orientation'') v None])"

definition safesearchIssues :: "json option \<Rightarrow> zodIssue list" where
  "safesearchIssues v =
     (case v of
        None \<Rightarrow> []
      | Some (JBool _) \<Rightarrow> []
      | Some _ \<Rightarrow> [issue invalid_type (str ''safesearch'') v None])"

definition perPageIssues :: "json option \<Rightarrow> zodIssue list" where
  "perPageIssues v =
     (case v of
        None \<Rightarrow> []
      | Some (JNumber n) \<Rightarrow>
          if n = NaN then [issue invalid_type (str ''per_page'') v None]
          else
            (if \<not> isInteger n then [issue invalid_type (str ''per_page'') v None] else [])
            @ (if numLess n (Finite 3)
               then [issue too_small (str ''per_page'') v
                       (Some (str ''per_page must be between 3 and 20.''))]
               else [])
            @ (if numLess (Finite (of_nat maxPerPage)) n
               then [issue too_big (str ''per_page'') v
                       (Some (str ''per_page must be between 3 and '' @ digitsOf maxPerPage
                              @ str ''.''))]
               else [])
      | Some _ \<Rightarrow> [issue invalid_type (str ''per_page'') v None])"

definition shapeKeys :: "jsstring list" where
  "shapeKeys = [str ''query'', str ''orientation'', str ''safesearch'', str ''per_page'']"

definition extraKeys :: "(jsstring \<times> json) list \<Rightarrow> jsstring list" where
  "extraKeys kvs = filter (\<lambda>k. k \<notin> set shapeKeys) (remdups (map fst kvs))"

definition strictIssues :: "(jsstring \<times> json) list \<Rightarrow> zodIssue list" where
  "strictIssues kvs =
     (if extraKeys kvs \<noteq> []
      then [\<lparr> iss_code = unrecognized_keys (extraKeys kvs), iss_path = [],
              iss_received = None, iss_message = None \<rparr>]
      else [])"

definition inputIssues :: "json \<Rightarrow> zodIssue list" where
  "inputIssues rawInput =
     (case rawInput of
        JObject kvs \<Rightarrow>
          queryIssues (getProp rawInput (str ''query''))
          @ orientationIssues (getProp rawInput (str ''orientation''))
          @ safesearchIssues (getProp rawInput (str ''safesearch''))
          @ perPageIssues (getProp rawInput (str ''per_page''))
          @ strictIssues kvs
      | _ \<Rightarrow> [\<lparr> iss_code = invalid_type, iss_path = [], iss_received = Some rawInput,
                 iss_message = None \<rparr>])"

text \<open>The parsed data: the query trimmed, the other fields as given.\<close>

definition inputData :: "json \<Rightarrow> searchImagesInput" where
  "inputData rawInput =
     \<lparr> query = (case getProp rawInput (str ''query'') of Some (JString s) \<Rightarrow> trim s | _ \<Rightarrow> []),
       orientation =
         (case getProp rawInput (str ''orientation'') of Some (JString s) \<Rightarrow> Some s | _ \<Rightarrow> None),
       safesearch =
         (case getProp rawInput (str ''safesearch'') of Some (JBool b) \<Rightarrow> Some b | _ \<Rightarrow> None),
       per_page =
         (case getProp rawInput (str ''per_page'') of Some (JNumber n) \<Rightarrow> Some n | _ \<Rightarrow> None) \<rparr>"

definition searchImagesInputSchema :: "json \<Rightarrow> zodIssue list + searchImagesInput" where
  "searchImagesInputSchema rawInput =
     (if inputIssues rawInput = [] then Inr (inputData rawInput)
      else Inl (inputIssues rawInput))"

definition issueMessage :: "runtime \<Rightarrow> zodIssue \<Rightarrow> jsstring" where
  "issueMessage rt i = (case iss_message i of Some m \<Rightarrow> m | None \<Rightarrow> zodDefaultMessage rt i)"

section \<open>index.ts: the tool handler (image-only variant)\<close>

text \<open>
  \<open>resolveLocale(meta: unknown)\<close>: \<open>None\<close> is a missing \<open>_meta\<close>. The operator
  \<open>??\<close> takes its right operand when the left one is \<open>undefined\<close> or \<open>null\<close>.
\<close>

definition nullish :: "json option \<Rightarrow> json option \<Rightarrow> json option" where
  "nullish a b = (case a of None \<Rightarrow> b | Some JNull \<Rightarrow> b | Some v \<Rightarrow> Some v)"

definition resolveLocale :: "json option \<Rightarrow> jsstring" where
  "resolveLocale meta =
     (case meta of
        None \<Rightarrow> defaultLocale
      | Some m \<Rightarrow>
          if m = JNull then defaultLocale
          else
            (case nullish (getProp m (str ''openai/locale'')) (getProp m (str ''webplus/i18n'')) of
               Some (JString l) \<Rightarrow> if length l > 0 then l else defaultLocale
             | _ \<Rightarrow> defaultLocale))"

record imageSearchStructuredContent =
  sc_query :: jsstring
  sc_resultCount :: nat
  sc_results :: "imageResult list"
  sc_attribution :: jsstring

definition toStructuredContent ::
  "searchImagesInput \<Rightarrow> pixabayImageSearchResult \<Rightarrow> imageSearchStructuredContent" where
  "toStructuredContent input result =
     \<lparr> sc_query = query input,
       sc_resultCount = length (results result),
       sc_results = results result,
       sc_attribution = str ''Images provided by Pixabay under the Pixabay License.'' \<rparr>"

definition isBracketed :: "jsstring \<Rightarrow> bool" where
  "isBracketed trimmed =
     ((startsWith trimmed (str ''{'') \<and> endsWith trimmed (str ''}''))
      \<or> (startsWith trimmed (str ''['') \<and> endsWith trimmed (str '']'')))"

text \<open>
  \<open>normalizeQuery\<close>. The \<open>try\<close> block catches the \<open>SyntaxError\<close> of \<open>JSON.parse\<close>
  and falls through to the last \<open>return\<close>. \<open>parsed && typeof parsed === "object"\<close>
  holds for objects and arrays; an array has no property \<open>query\<close>.
\<close>

definition normalizeQuery :: "jsstring \<Rightarrow> jsstring" where
  "normalizeQuery q =
     (let trimmed = trim q in
      if trimmed = [] then q
      else if isBracketed trimmed then
        (case JSON_parse trimmed of
           None \<Rightarrow> trimmed
         | Some (JString parsed) \<Rightarrow> if trim parsed \<noteq> [] then trim parsed else q
         | Some (JObject kvs) \<Rightarrow>
             (case getProp (JObject kvs) (str ''query'') of
                Some (JString nestedQuery) \<Rightarrow>
                  if length (trim nestedQuery) > 0 then trim nestedQuery else trimmed
              | _ \<Rightarrow> trimmed)
         | Some _ \<Rightarrow> trimmed)
      else trimmed)"

text \<open>The summary line of the handler, computed from the structured content.\<close>

definition summary :: "imageSearchStructuredContent \<Rightarrow> jsstring" where
  "summary structuredContent =
     (if sc_resultCount structuredContent > 0
      then str ''Found '' @ digitsOf (sc_resultCount structuredContent) @ str '' Pixabay image''
           @ (if sc_resultCount structuredContent = 1 then [] else str ''s'')
           @ str '' for \"'' @ sc_query structuredContent @ str ''\".''
      else str ''No Pixabay images found for \"'' @ sc_query structuredContent
           @ str ''\". Try a different description or add more detail.'')"

record toolResult =
  tr_text :: jsstring
  tr_structuredContent :: imageSearchStructuredContent
  tr_locale :: jsstring
  tr_rateLimit :: rateLimitInfo

definition handler ::
  "runtime \<Rightarrow> (request \<Rightarrow> error + response) \<Rightarrow> json option \<Rightarrow> json \<Rightarrow> error + toolResult" where
  "handler rt fetch meta rawInput =
     (let loc = resolveLocale meta in
      case searchImagesInputSchema rawInput of
        Inl issues \<Rightarrow>
          Inl (McpError InvalidParams (join (str ''; '') (map (issueMessage rt) issues)))
      | Inr input \<Rightarrow>
          let normalizedInput = input \<lparr> query := normalizeQuery (query input) \<rparr> in
          (case searchImages rt fetch
                  (searchImagesInput.extend normalizedInput
                     (searchImagesParams.fields loc)) of
             Inl e \<Rightarrow> Inl e
           | Inr searchResult \<Rightarrow>
               let structuredContent = toStructuredContent normalizedInput searchResult in
               Inr \<lparr> tr_text = summary structuredContent,
                     tr_structuredContent = structuredContent,
                     tr_locale = loc,
                     tr_rateLimit = rateLimit searchResult \<rparr>))"


section \<open>The input constraints as the specification words them\<close>

text \<open>
  \<open>spec_inputValid\<close> follows the wording of the specification: the trimmed query has
  1 to 100 characters, \<open>orientation\<close>, if present, is one of the three values,
  \<open>per_page\<close>, if present, is an integer from 3 to 20, and no field other than those of
  a search request is present. \<open>spec_inputValid_amended\<close> adds that \<open>safesearch\<close>,
  if present, is a boolean.
\<close>

definition spec_inputValid :: "json \<Rightarrow> bool" where
  "spec_inputValid rawInput =
     (case rawInput of
        JObject kvs \<Rightarrow>
          (case getProp rawInput (str ''query'') of
             Some (JString s) \<Rightarrow> 1 \<le> length (trim s) \<and> length (trim s) \<le> 100
           | _ \<Rightarrow> False)
          \<and> (case getProp rawInput (str ''orientation'') of
                None \<Rightarrow> True
              | Some (JString s) \<Rightarrow>
                  s = str ''all'' \<or> s = str ''horizontal'' \<or> s = str ''vertical''
              | Some _ \<Rightarrow> False)
          \<and> (case getProp rawInput (str ''per_page'') of
                None \<Rightarrow> True
              | Some (JNumber (Finite q)) \<Rightarrow> of_int \<lfloor>q\<rfloor> = q \<and> 3 \<le> q \<and> q \<le> 20
              | Some _ \<Rightarrow> False)
          \<and> list_all
                (\<lambda>k. k = str ''query'' \<or> k = str ''orientation'' \<or> k = str ''safesearch''
                      \<or> k = str ''per_page'')
                (map fst kvs)
      | _ \<Rightarrow> False)"

definition spec_inputValid_amended :: "json \<Rightarrow> bool" where
  "spec_inputValid_amended rawInput =
     (spec_inputValid rawInput
      \<and> (case getProp rawInput (str ''safesearch'') of
            None \<Rightarrow> True
          | Some (JBool _) \<Rightarrow> True
          | Some _ \<Rightarrow> False))"

section \<open>Sample values\<close>

text \<open>
  Concrete values at which the theorems below are instantiated: an environment whose URL
  test is the http(s) prefix test, the parameters of a search, and an image result.
\<close>

definition sampleRuntime :: runtime where
  "sampleRuntime =
     \<lparr> isUrl = httpRegexTest,
       zodDefaultMessage = (\<lambda>i. str ''Invalid input''),
       fractionToString = (\<lambda>q. str ''?''),
       stringToNumber = (\<lambda>s. NaN),
       pixabayApiKey = str ''key'',
       pixabayVideoBaseUrl = str ''https://pixabay.com/api/videos/'' \<rparr>"

definition sampleParams :: searchImagesParams where
  "sampleParams =
     \<lparr> query = str ''sunset'', orientation = None, safesearch = None,
       per_page = Some (Finite 5), localeTag = str ''en'' \<rparr>"

definition sampleImageResult :: imageResult where
  "sampleImageResult =
     \<lparr> ir_id = Finite 1, ir_previewUrl = str ''https://cdn.pixabay.com/p.jpg'',
       ir_pageUrl = str ''https://pixabay.com/photos/1/'',
       ir_imageUrl = str ''https://pixabay.com/get/1.jpg'',
       ir_imageWidth = Finite 640, ir_imageHeight = Finite 480,
       ir_tags = [str ''sunset'', str ''sea''],
       ir_photographer = \<lparr> name = str ''ann'',
                           profileUrl = str ''https://pixabay.com/users/ann-7/'' \<rparr>,
       ir_likes = Finite 3, ir_downloads = Finite 9 \<rparr>"

definition rateLimitedResponse :: response where
  "rateLimitedResponse =
     \<lparr> status = 429, statusText = str ''Too Many Requests'', headers = (\<lambda>h. None),
       body = Some (str ''slow down'') \<rparr>"

definition unauthorizedResponse :: response where
  "unauthorizedResponse =
     \<lparr> status = 401, statusText = str ''Unauthorized'', headers = (\<lambda>h. None),
       body = None \<rparr>"

definition sampleInput :: searchImagesInput where
  "sampleInput =
     \<lparr> query = str ''sunset'', orientation = None, safesearch = None,
       per_page = Some (Finite 5) \<rparr>"

definition sampleSearchResult :: pixabayImageSearchResult where
  "sampleSearchResult =
     \<lparr> results = [sampleImageResult, sampleImageResult, sampleImageResult],
       totalHits = JNumber (Finite 120),
       rateLimit = \<lparr> limit = None, remaining = None, resetSeconds = None \<rparr> \<rparr>"

definition sampleVideoHit :: pixabayVideoHit where
  "sampleVideoHit =
     \<lparr> vh_id = Finite 11, vh_pageURL = str ''https://p/11'',
       vh_tags = str ''sea, waves'', vh_duration = Finite 12, vh_type = str ''film'',
       vh_videos =
         \<lparr> large = None,
           medium = Some \<lparr> rd_url = [], rd_width = Finite 1280, rd_height = Finite 720,
                            rd_size = None,
                            rd_thumbnail = Some (str ''https://c/m.jpg'') \<rparr>,
           small = Some \<lparr> rd_url = str ''https://c/s.mp4'',
                           rd_width = Finite 640, rd_height = Finite 360, rd_size = None,
                           rd_thumbnail = None \<rparr>,
           tiny = None \<rparr>,
       vh_user = str ''ann'', vh_user_id = Finite 7, vh_userImageURL = None,
       vh_views = None, vh_downloads = None, vh_likes = None \<rparr>"

definition okResponse :: "jsstring \<Rightarrow> response" where
  "okResponse text =
     \<lparr> status = 200, statusText = str ''OK'', headers = (\<lambda>h. None), body = Some text \<rparr>"

definition sampleVideoBody :: jsstring where
  "sampleVideoBody =
     str ''{\"hits\":[{\"id\":11,\"pageURL\":\"https://p/11\",\"tags\":\"sea, waves\",''
     @ str ''\"duration\":12,\"type\":\"film\",\"videos\":{\"medium\":{\"url\":\"\",''
     @ str ''\"width\":1280,\"height\":720,\"thumbnail\":\"https://c/m.jpg\"},''
     @ str ''\"small\":{\"url\":\"https://c/s.mp4\",\"width\":640,''
     @ str ''\"height\":360}},\"user\":\"ann\",\"user_id\":7},{\"id\":\"x\"}]}''"

definition sampleVideoJson :: json where
  "sampleVideoJson =
     JObject
       [(str ''hits'',
         JArray
           [JObject
              [(str ''id'', JNumber (Finite 11)),
               (str ''pageURL'', JString (str ''https://p/11'')),
               (str ''tags'', JString (str ''sea, waves'')),
               (str ''duration'', JNumber (Finite 12)),
               (str ''type'', JString (str ''film'')),
               (str ''videos'',
                JObject
                  [(str ''medium'',
                    JObject
                      [(str ''url'', JString []),
                       (str ''width'', JNumber (Finite 1280)),
                       (str ''height'', JNumber (Finite 720)),
                       (str ''thumbnail'', JString (str ''https://c/m.jpg''))]),
                   (str ''small'',
                    JObject
                      [(str ''url'', JString (str ''https://c/s.mp4'')),
                       (str ''width'', JNumber (Finite 640)),
                       (str ''height'', JNumber (Finite 360))])]),
               (str ''user'', JString (str ''ann'')),
               (str ''user_id'', JNumber (Finite 7))],
            JObject [(str ''id'', JString (str ''x''))]])]"

definition sampleImageBody :: jsstring where
  "sampleImageBody =
     str ''{\"totalHits\":120,\"hits\":[{\"id\":1,\"pageURL\":\"http://a\",''
     @ str ''\"previewURL\":\"http://b\",\"webformatURL\":\"http://c\",\"imageWidth\":4,''
     @ str ''\"imageHeight\":3,\"tags\":\"sea, ,sun\",\"user\":\"ann\",\"user_id\":7,''
     @ str ''\"likes\":2,\"downloads\":5},{\"id\":\"x\"}]}''"

definition sampleImageHitJson :: "jsstring \<Rightarrow> json" where
  "sampleImageHitJson username =
     JObject
       [(str ''id'', JNumber (Finite 1)),
        (str ''pageURL'', JString (str ''http://a'')),
        (str ''previewURL'', JString (str ''http://b'')),
        (str ''webformatURL'', JString (str ''http://c'')),
        (str ''imageWidth'', JNumber (Finite 4)),
        (str ''imageHeight'', JNumber (Finite 3)),
        (str ''tags'', JString (str ''sea, ,sun'')),
        (str ''user'', JString username),
        (str ''user_id'', JNumber (Finite 7)),
        (str ''likes'', JNumber (Finite 2)),
        (str ''downloads'', JNumber (Finite 5))]"

definition sampleImageJson :: json where
  "sampleImageJson =
     JObject
       [(str ''totalHits'', JNumber (Finite 120)),
        (str ''hits'',
         JArray [sampleImageHitJson (str ''ann''), JObject [(str ''id'', JString (str ''x''))]])]"

text \<open>A body whose only hit passes the schema and carries a lone surrogate as user name.\<close>

definition surrogateBody :: jsstring where
  "surrogateBody =
     str ''{\"hits\":[{\"id\":1,\"pageURL\":\"http://a\",''
     @ str ''\"previewURL\":\"http://b\",\"webformatURL\":\"http://c\",\"imageWidth\":4,''
     @ str ''\"imageHeight\":3,\"tags\":\"sea, ,sun\",\"user\":\"'' @ [92] @ str ''ud800\",\"user_id\":7,''
     @ str ''\"likes\":2,\"downloads\":5}]}''"

definition surrogateJson :: json where
  "surrogateJson = JObject [(str ''hits'', JArray [sampleImageHitJson [55296]])]"

definition rateLimit0 :: rateLimitInfo where
  "rateLimit0 = \<lparr> limit = None, remaining = None, resetSeconds = None \<rparr>"

definition validPayload :: json where
  "validPayload =
     JObject [(str ''query'', JString (str ''sunset'')), (str ''per_page'', JNumber (Finite 5))]"

definition invalidPayload :: json where
  "invalidPayload =
     JObject [(str ''query'', JString (str ''  '')),
              (str ''per_page'', JNumber (Finite (5 / 2))),
              (str ''page'', JNumber (Finite 1))]"

definition safesearchPayload :: json where
  "safesearchPayload =
     JObject [(str ''query'', JString (str ''cats'')), (str ''safesearch'', JString (str ''yes''))]"

text \<open>A payload whose query is a JSON object wrapping the query.\<close>

definition wrappedPayload :: json where
  "wrappedPayload = JObject [(str ''query'', JString (str ''{\"query\":\"cats\"}''))]"

text \<open>
  A body with three valid hits and the total 120, and a body with no hit.
\<close>

definition imageHitText :: "jsstring \<Rightarrow> jsstring" where
  "imageHitText username =
     str ''{\"id\":1,\"pageURL\":\"http://a\",\"previewURL\":\"http://b\",''
     @ str ''\"webformatURL\":\"http://c\",\"imageWidth\":4,\"imageHeight\":3,''
     @ str ''\"tags\":\"sea, ,sun\",\"user\":\"'' @ username @ str ''\",\"user_id\":7,''
     @ str ''\"likes\":2,\"downloads\":5}''"

definition threeImagesBody :: jsstring where
  "threeImagesBody =
     str ''{\"total\":500,\"totalHits\":120,\"hits\":['' @ imageHitText (str ''ann'') @ str '',''
     @ imageHitText (str ''bob'') @ str '','' @ imageHitText (str ''cy'') @ str '']}''"

definition threeImagesJson :: json where
  "threeImagesJson =
     JObject
       [(str ''total'', JNumber (Finite 500)),
        (str ''totalHits'', JNumber (Finite 120)),
        (str ''hits'',
         JArray [sampleImageHitJson (str ''ann''), sampleImageHitJson (str ''bob''),
                 sampleImageHitJson (str ''cy'')])]"

definition emptyHitsBody :: jsstring where
  "emptyHitsBody = str ''{\"hits\":[]}''"

section \<open>Properties of JSON.parse\<close>

text \<open>
  Every successful parse consumes input; hence the tests that guard the recursive calls of
  \<open>parseElements\<close> and \<open>parseMembers\<close> never fail, and the value read after an opening
  brace is an object, after an opening bracket an array.
\<close>

lemma parse_shorter:
  "(\<forall>v r. parseValue cs = Some (v, r) \<longrightarrow> length r < length cs)"
  "(\<forall>v r. parseElements acc cs = Some (v, r) \<longrightarrow> length r < length cs)"
  "(\<forall>v r. parseMembers macc cs' = Some (v, r) \<longrightarrow> length r < length cs')"
proof (induction cs and acc cs and macc cs' rule: parseValue_parseElements_parseMembers.induct)
  case (1 cs)
  show ?case
  proof (intro allI impI)
    fix v r
    assume a: "parseValue cs = Some (v, r)"
    then obtain c t where sk: "skipWs cs = c # t"
      by (subst (asm) parseValue.simps) (auto split: list.splits)
    have lt: "length t < length cs"
      using skipWs_le [of cs] sk by simp
    consider (obj) "c = 123" | (arr) "c \<noteq> 123" "c = 91" | (strg) "c \<noteq> 123" "c \<noteq> 91" "c = 34"
      | (other) "c \<noteq> 123" "c \<noteq> 91" "c \<noteq> 34"
      by blast
    then show "length r < length cs"
    proof cases
      case obj
      from a sk obj obtain d t' where sk2: "skipWs t = d # t'"
        by (subst (asm) parseValue.simps) (auto split: list.splits)
      show ?thesis
      proof (cases "d = 125")
        case True
        with a sk obj sk2 have "r = t'"
          by (subst (asm) parseValue.simps) auto
        with skipWs_le [of t] sk2 lt show ?thesis by simp
      next
        case False
        with a sk obj sk2 have "parseMembers [] t = Some (v, r)"
          by (subst (asm) parseValue.simps) auto
        with "1.IH"(1) [OF sk obj sk2 False] lt show ?thesis by fastforce
      qed
    next
      case arr
      from a sk arr obtain d t' where sk2: "skipWs t = d # t'"
        by (subst (asm) parseValue.simps) (auto split: list.splits)
      show ?thesis
      proof (cases "d = 93")
        case True
        with a sk arr sk2 have "r = t'"
          by (subst (asm) parseValue.simps) auto
        with skipWs_le [of t] sk2 lt show ?thesis by simp
      next
        case False
        with a sk arr sk2 have "parseElements [] t = Some (v, r)"
          by (subst (asm) parseValue.simps) auto
        with "1.IH"(2) [OF sk arr(1) arr(2) sk2 False] lt show ?thesis by fastforce
      qed
    next
      case strg
      with a sk obtain s where "parseStringBody [] t = Some (s, r)"
        by (subst (asm) parseValue.simps) (auto split: option.splits)
      from parseStringBody_shorter [OF this] lt show ?thesis by simp
    next
      case other
      have len: "length (c # t) \<le> length cs"
        using skipWs_le [of cs] sk by simp
      from a sk other have
        "(r = drop 4 (c # t)) \<or> (r = drop 5 (c # t)) \<or> parseNumber (c # t) = Some (v, r)"
        by (subst (asm) parseValue.simps) (auto split: if_splits)
      then show ?thesis
        using len parseNumber_shorter [of "c # t" v r] by auto
    qed
  qed
next
  case (2 acc cs)
  show ?case
  proof (intro allI impI)
    fix v r
    assume a: "parseElements acc cs = Some (v, r)"
    then obtain w r1 where pv: "parseValue cs = Some (w, r1)"
      by (subst (asm) parseElements.simps) (auto split: option.splits)
    with "2.IH"(1) have l1: "length r1 < length cs" by simp
    from a pv obtain c r' where sk: "skipWs r1 = c # r'"
      by (subst (asm) parseElements.simps) (auto split: list.splits)
    have l2: "length r' < length cs"
      using skipWs_le [of r1] sk l1 by simp
    show "length r < length cs"
    proof (cases "c = 44")
      case True
      with a pv sk l2 have "parseElements (acc @ [w]) r' = Some (v, r)"
        by (subst (asm) parseElements.simps) auto
      with "2.IH"(2) [OF pv refl sk True l2] l2 show ?thesis by fastforce
    next
      case False
      with a pv sk have "r = r'"
        by (subst (asm) parseElements.simps) (auto split: if_splits)
      with l2 show ?thesis by simp
    qed
  qed
next
  case (3 macc cs)
  show ?case
  proof (intro allI impI)
    fix v r
    assume a: "parseMembers macc cs = Some (v, r)"
    then obtain q r0 where sk0: "skipWs cs = q # r0"
      by (subst (asm) parseMembers.simps) (auto split: list.splits)
    from a sk0 have q: "\<not> q \<noteq> 34"
      by (subst (asm) parseMembers.simps) (auto split: if_splits)
    from a sk0 q obtain k r1 where ps: "parseStringBody [] r0 = Some (k, r1)"
      by (subst (asm) parseMembers.simps) (auto split: option.splits)
    from a sk0 q ps obtain colon r2 where sk1: "skipWs r1 = colon # r2"
      by (subst (asm) parseMembers.simps) (auto split: list.splits)
    from a sk0 q ps sk1 have col: "\<not> colon \<noteq> 58"
      by (subst (asm) parseMembers.simps) (auto split: if_splits)
    from a sk0 q ps sk1 col obtain w r3 where pv: "parseValue r2 = Some (w, r3)"
      by (subst (asm) parseMembers.simps) (auto split: option.splits)
    from a sk0 q ps sk1 col pv obtain c r4 where sk3: "skipWs r3 = c # r4"
      by (subst (asm) parseMembers.simps) (auto split: list.splits)
    have l3: "length r3 < length r2"
      using "3.IH"(1) [OF sk0 q ps refl sk1 col] pv by simp
    have l2: "length r2 < length cs"
      using skipWs_le [of cs] sk0 skipWs_le [of r1] sk1 parseStringBody_shorter [OF ps]
      by simp
    have l4: "length r4 < length cs"
      using skipWs_le [of r3] sk3 l3 l2 by simp
    show "length r < length cs"
    proof (cases "c = 44")
      case True
      with a sk0 q ps sk1 col pv sk3 l4
      have "parseMembers (macc @ [(k, w)]) r4 = Some (v, r)"
        by (subst (asm) parseMembers.simps) auto
      with "3.IH"(2) [OF sk0 q ps refl sk1 col pv refl sk3 True l4] l4
      show ?thesis by fastforce
    next
      case False
      with a sk0 q ps sk1 col pv sk3 have "r = r4"
        by (subst (asm) parseMembers.simps) (auto split: if_splits)
      with l4 show ?thesis by simp
    qed
  qed
qed


lemma parseElements_unguarded:
  "parseElements acc cs =
     (case parseValue cs of
        None \<Rightarrow> None
      | Some (v, r) \<Rightarrow>
          (case skipWs r of
             [] \<Rightarrow> None
           | c # r' \<Rightarrow>
               if c = 44 then parseElements (acc @ [v]) r'
               else if c = 93 then Some (JArray (acc @ [v]), r')
               else None))"
proof (cases "parseValue cs")
  case None
  then show ?thesis by (subst parseElements.simps) simp
next
  case (Some p)
  obtain v r where p: "p = (v, r)" by (cases p)
  from parse_shorter(1) [of cs] Some p have l: "length r < length cs" by simp
  show ?thesis
  proof (cases "skipWs r")
    case Nil
    with Some p show ?thesis by (subst parseElements.simps) simp
  next
    case (Cons c r')
    have "length r' < length cs"
      using skipWs_le [of r] Cons l by simp
    with Some p Cons show ?thesis by (subst parseElements.simps) simp
  qed
qed

lemma parseMembers_unguarded:
  "parseMembers acc cs =
     (case skipWs cs of
        [] \<Rightarrow> None
      | q # r0 \<Rightarrow>
          if q \<noteq> 34 then None
          else
            (case parseStringBody [] r0 of
               None \<Rightarrow> None
             | Some (k, r1) \<Rightarrow>
                 (case skipWs r1 of
                    [] \<Rightarrow> None
                  | colon # r2 \<Rightarrow>
                      if colon \<noteq> 58 then None
                      else
                        (case parseValue r2 of
                           None \<Rightarrow> None
                         | Some (v, r3) \<Rightarrow>
                             (case skipWs r3 of
                                [] \<Rightarrow> None
                              | c # r4 \<Rightarrow>
                                  if c = 44 then parseMembers (acc @ [(k, v)]) r4
                                  else if c = 125 then Some (JObject (acc @ [(k, v)]), r4)
                                  else None)))))"
proof -
  have guard: "length r4 < length cs"
    if "skipWs cs = q # r0" "parseStringBody [] r0 = Some (k, r1)" "skipWs r1 = colon # r2"
      "parseValue r2 = Some (v, r3)" "skipWs r3 = c # r4"
    for q r0 k r1 colon r2 v r3 c r4
  proof -
    have "length r3 < length r2" using parse_shorter(1) [of r2] that(4) by simp
    moreover have "length r2 < length cs"
      using skipWs_le [of cs] that(1) skipWs_le [of r1] that(3)
        parseStringBody_shorter [OF that(2)] by simp
    ultimately show ?thesis using skipWs_le [of r3] that(5) by simp
  qed
  show ?thesis
    by (subst parseMembers.simps)
       (auto split: list.splits option.splits dest: guard)
qed

lemma parse_shape:
  "(cs0 :: jsstring) = cs0"
  "(\<forall>v r. parseElements acc cs = Some (v, r) \<longrightarrow> (\<exists>xs. v = JArray xs))"
  "(\<forall>v r. parseMembers macc cs' = Some (v, r) \<longrightarrow> (\<exists>m. v = JObject m))"
proof (induction cs0 and acc cs and macc cs' rule: parseValue_parseElements_parseMembers.induct)
  case (1 cs0)
  show ?case by simp
next
  case (2 acc cs)
  show ?case
  proof (intro allI impI)
    fix v r
    assume a: "parseElements acc cs = Some (v, r)"
    then obtain w r1 where pv: "parseValue cs = Some (w, r1)"
      by (subst (asm) parseElements.simps) (auto split: option.splits)
    from a pv obtain c r' where sk: "skipWs r1 = c # r'"
      by (subst (asm) parseElements.simps) (auto split: list.splits)
    show "\<exists>xs. v = JArray xs"
    proof (cases "c = 44")
      case True
      with a pv sk have l2: "length r' < length cs"
        and rec: "parseElements (acc @ [w]) r' = Some (v, r)"
        by (subst (asm) parseElements.simps, auto split: if_splits)+
      with "2.IH"(2) [OF pv refl sk True l2] show ?thesis by fastforce
    next
      case False
      with a pv sk show ?thesis
        by (subst (asm) parseElements.simps) (auto split: if_splits)
    qed
  qed
next
  case (3 macc cs)
  show ?case
  proof (intro allI impI)
    fix v r
    assume a: "parseMembers macc cs = Some (v, r)"
    then obtain q r0 where sk0: "skipWs cs = q # r0"
      by (subst (asm) parseMembers.simps) (auto split: list.splits)
    from a sk0 have q: "\<not> q \<noteq> 34"
      by (subst (asm) parseMembers.simps) (auto split: if_splits)
    from a sk0 q obtain k r1 where ps: "parseStringBody [] r0 = Some (k, r1)"
      by (subst (asm) parseMembers.simps) (auto split: option.splits)
    from a sk0 q ps obtain colon r2 where sk1: "skipWs r1 = colon # r2"
      by (subst (asm) parseMembers.simps) (auto split: list.splits)
    from a sk0 q ps sk1 have col: "\<not> colon \<noteq> 58"
      by (subst (asm) parseMembers.simps) (auto split: if_splits)
    from a sk0 q ps sk1 col obtain w r3 where pv: "parseValue r2 = Some (w, r3)"
      by (subst (asm) parseMembers.simps) (auto split: option.splits)
    from a sk0 q ps sk1 col pv obtain c r4 where sk3: "skipWs r3 = c # r4"
      by (subst (asm) parseMembers.simps) (auto split: list.splits)
    show "\<exists>m. v = JObject m"
    proof (cases "c = 44")
      case True
      with a sk0 q ps sk1 col pv sk3 have l4: "length r4 < length cs"
        and rec: "parseMembers (macc @ [(k, w)]) r4 = Some (v, r)"
        by (subst (asm) parseMembers.simps, auto split: if_splits)+
      with "3.IH"(2) [OF sk0 q ps refl sk1 col pv refl sk3 True l4]
      show ?thesis by fastforce
    next
      case False
      with a sk0 q ps sk1 col pv sk3 show ?thesis
        by (subst (asm) parseMembers.simps) (auto split: if_splits)
    qed
  qed
qed

lemma skipWs_nonws: "\<not> isJsonWs c \<Longrightarrow> skipWs (c # cs) = c # cs"
  by (simp add: skipWs_def)

lemma parseValue_brace:
  assumes "parseValue (123 # cs) = Some (v, r)"
  shows "\<exists>m. v = JObject m"
proof -
  have sk: "skipWs (123 # cs) = 123 # cs"
    by (rule skipWs_nonws) (simp add: isJsonWs_def)
  from assms sk obtain d t' where sk2: "skipWs cs = d # t'"
    by (subst (asm) parseValue.simps) (auto split: list.splits)
  show ?thesis
  proof (cases "d = 125")
    case True
    with assms sk sk2 show ?thesis
      by (subst (asm) parseValue.simps) auto
  next
    case False
    with assms sk sk2 have "parseMembers [] cs = Some (v, r)"
      by (subst (asm) parseValue.simps) auto
    with parse_shape(3) [of "[]" cs] show ?thesis by blast
  qed
qed

lemma parseValue_bracket:
  assumes "parseValue (91 # cs) = Some (v, r)"
  shows "\<exists>xs. v = JArray xs"
proof -
  have sk: "skipWs (91 # cs) = 91 # cs"
    by (rule skipWs_nonws) (simp add: isJsonWs_def)
  from assms sk obtain d t' where sk2: "skipWs cs = d # t'"
    by (subst (asm) parseValue.simps) (auto split: list.splits)
  show ?thesis
  proof (cases "d = 93")
    case True
    with assms sk sk2 show ?thesis
      by (subst (asm) parseValue.simps) auto
  next
    case False
    with assms sk sk2 have "parseElements [] cs = Some (v, r)"
      by (subst (asm) parseValue.simps) auto
    with parse_shape(2) [of "[]" cs] show ?thesis by blast
  qed
qed

lemma startsWith_single: "startsWith s [c] \<longleftrightarrow> (\<exists>t. s = c # t)"
  by (cases s) (auto simp: startsWith_def)

lemma bracketed_parse_shape:
  assumes "isBracketed t" "JSON_parse t = Some v"
  shows "(\<exists>m. v = JObject m) \<or> (\<exists>xs. v = JArray xs)"
proof -
  from assms(2) obtain r where pv: "parseValue t = Some (v, r)"
    by (auto simp: JSON_parse_def split: option.splits if_splits)
  from assms(1) consider cs where "t = 123 # cs" | cs where "t = 91 # cs"
    by (auto simp: isBracketed_def startsWith_single str_def)
  then show ?thesis
  proof cases
    case 1
    with pv parseValue_brace show ?thesis by blast
  next
    case 2
    with pv parseValue_bracket show ?thesis by blast
  qed
qed


text \<open>Rewrite rules that evaluate the parser on a concrete text.\<close>

lemmas parse_eval = JSON_parse_def parseValue.simps parseElements.simps parseMembers.simps
  parseStringBody.simps skipWs_def isJsonWs_def startsWith_def parseEscape_def escapeUnit_def
  hexValue_def

section \<open>The query normaliser\<close>

text \<open>
  C9. In \<open>normalizeQuery\<close> the branch \<open>typeof parsed === "string"\<close> is never taken: a
  text that starts with \<open>{\<close> and ends with \<open>}\<close>, or starts with \<open>[\<close> and ends with
  \<open>]\<close>, parses to an object or to an array whenever it parses, never to a string. So a
  query whose trimmed form is bracketed and parses is answered by the object path (the
  trimmed field \<open>query\<close>) or by the trimmed original.
\<close>

theorem normalizeQuery_string_branch_unreachable:
  "(isBracketed t \<and> JSON_parse t = Some v
      \<longrightarrow> ((\<exists>m. v = JObject m) \<or> (\<exists>xs. v = JArray xs)) \<and> (\<forall>s. v \<noteq> JString s))
   \<and> (isBracketed (trim q) \<and> JSON_parse (trim q) = Some w
      \<longrightarrow> normalizeQuery q = trim q
          \<or> (\<exists>kvs n. w = JObject kvs \<and> getProp w (str ''query'') = Some (JString n)
                \<and> trim n \<noteq> [] \<and> normalizeQuery q = trim n))"
proof (rule conjI; rule impI)
  assume a: "isBracketed t \<and> JSON_parse t = Some v"
  then have "(\<exists>m. v = JObject m) \<or> (\<exists>xs. v = JArray xs)"
    using bracketed_parse_shape by blast
  then show "((\<exists>m. v = JObject m) \<or> (\<exists>xs. v = JArray xs)) \<and> (\<forall>s. v \<noteq> JString s)"
    by auto
next
  assume b: "isBracketed (trim q) \<and> JSON_parse (trim q) = Some w"
  then have ne: "trim q \<noteq> []"
    by (auto simp: isBracketed_def startsWith_def str_def)
  from b have shape: "(\<exists>m. w = JObject m) \<or> (\<exists>xs. w = JArray xs)"
    using bracketed_parse_shape by blast
  then show "normalizeQuery q = trim q
      \<or> (\<exists>kvs n. w = JObject kvs \<and> getProp w (str ''query'') = Some (JString n)
            \<and> trim n \<noteq> [] \<and> normalizeQuery q = trim n)"
  proof (elim disjE)
    assume "\<exists>m. w = JObject m"
    then obtain m where w: "w = JObject m" ..
    show ?thesis
    proof (cases "getProp w (str ''query'')")
      case None
      with b ne w show ?thesis by (simp add: normalizeQuery_def)
    next
      case (Some x)
      with b ne w show ?thesis
        by (cases x) (auto simp: normalizeQuery_def)
    qed
  next
    assume "\<exists>xs. w = JArray xs"
    with b ne show ?thesis by (auto simp: normalizeQuery_def)
  qed
qed

theorem normalizeQuery_string_branch_unreachable_witness:
  "isBracketed (str ''{\"query\":\"cats\"}'')
   \<and> JSON_parse (str ''{\"query\":\"cats\"}'')
       = Some (JObject [(str ''query'', JString (str ''cats''))])
   \<and> isBracketed (trim (str ''{\"query\":\"cats\"}''))
   \<and> JSON_parse (trim (str ''{\"query\":\"cats\"}''))
       = Some (JObject [(str ''query'', JString (str ''cats''))])
   \<and> (\<forall>s. JObject [(str ''query'', JString (str ''cats''))] \<noteq> JString s)
   \<and> normalizeQuery (str ''{\"query\":\"cats\"}'') = str ''cats''"
proof -
  have t: "trim (str ''{\"query\":\"cats\"}'') = str ''{\"query\":\"cats\"}''"
    by (simp add: str_def trim_def isWhiteSpace_def)
  have a: "isBracketed (str ''{\"query\":\"cats\"}'')"
    by (simp add: str_def isBracketed_def startsWith_def endsWith_def)
  have b: "JSON_parse (str ''{\"query\":\"cats\"}'')
             = Some (JObject [(str ''query'', JString (str ''cats''))])"
    by (simp add: str_def parse_eval)
  have e: "normalizeQuery (str ''{\"query\":\"cats\"}'') = str ''cats''"
    unfolding normalizeQuery_def t Let_def b
    by (simp add: a getProp_def) (simp add: str_def trim_def isWhiteSpace_def)
  from normalizeQuery_string_branch_unreachable
         [of "str ''{\"query\":\"cats\"}''" "JObject [(str ''query'', JString (str ''cats''))]"
             "str ''{\"query\":\"cats\"}''" "JObject [(str ''query'', JString (str ''cats''))]"]
       a b e t
  show ?thesis by simp
qed

lemma isBracketed_nonempty: "isBracketed t \<Longrightarrow> t \<noteq> []"
  by (auto simp: isBracketed_def startsWith_def str_def)

text \<open>
  C4 (as amended). For a trimmed query \<open>q\<close>, \<open>normalizeQuery\<close> is total (the
  \<open>SyntaxError\<close> of the parser is caught) and returns: \<open>q\<close> itself when \<open>q\<close> is
  not bracketed or does not parse; the trimmed string when the parse is a plain string that
  is not blank (a shape that C9 shows never to arise); the trimmed field \<open>query\<close> when
  the parse is an object whose field \<open>query\<close> is a string that is not empty after
  trimming; and \<open>q\<close> itself for every other parsed shape, a blank field \<open>query\<close>
  included.
\<close>

theorem normalizeQuery_recovery:
  "trim q = q \<longrightarrow>
     (\<not> isBracketed q \<longrightarrow> normalizeQuery q = q)
   \<and> (JSON_parse q = None \<longrightarrow> normalizeQuery q = q)
   \<and> (\<forall>s. isBracketed q \<and> JSON_parse q = Some (JString s) \<and> trim s \<noteq> []
          \<longrightarrow> normalizeQuery q = trim s)
   \<and> (\<forall>kvs n. isBracketed q \<and> JSON_parse q = Some (JObject kvs)
          \<and> getProp (JObject kvs) (str ''query'') = Some (JString n) \<and> trim n \<noteq> []
          \<longrightarrow> normalizeQuery q = trim n)
   \<and> (\<forall>v. JSON_parse q = Some v
          \<and> (\<forall>s. v \<noteq> JString s)
          \<and> (\<forall>kvs n. v = JObject kvs \<and> getProp v (str ''query'') = Some (JString n)
                 \<longrightarrow> trim n = [])
          \<longrightarrow> normalizeQuery q = q)"
proof (rule impI)
  assume t: "trim q = q"
  have c1: "\<not> isBracketed q \<longrightarrow> normalizeQuery q = q"
    using t by (simp add: normalizeQuery_def)
  have c2: "JSON_parse q = None \<longrightarrow> normalizeQuery q = q"
    using t by (simp add: normalizeQuery_def)
  have c3: "\<forall>s. isBracketed q \<and> JSON_parse q = Some (JString s) \<and> trim s \<noteq> []
          \<longrightarrow> normalizeQuery q = trim s"
    using t by (auto simp: normalizeQuery_def dest: isBracketed_nonempty)
  have c4: "\<forall>kvs n. isBracketed q \<and> JSON_parse q = Some (JObject kvs)
          \<and> getProp (JObject kvs) (str ''query'') = Some (JString n) \<and> trim n \<noteq> []
          \<longrightarrow> normalizeQuery q = trim n"
    using t by (auto simp: normalizeQuery_def dest: isBracketed_nonempty)
  have c5: "normalizeQuery q = q"
    if p: "JSON_parse q = Some v" and ns: "\<forall>s. v \<noteq> JString s"
      and nq: "\<forall>kvs n. v = JObject kvs \<and> getProp v (str ''query'') = Some (JString n)
                 \<longrightarrow> trim n = []"
    for v
  proof (cases v)
    case (JObject kvs)
    show ?thesis
    proof (cases "getProp v (str ''query'')")
      case None
      with t p JObject show ?thesis by (simp add: normalizeQuery_def)
    next
      case (Some x)
      with t p JObject nq show ?thesis
        by (cases x) (auto simp: normalizeQuery_def)
    qed
  next
    case (JString s)
    with ns show ?thesis by simp
  qed (use t p in \<open>simp_all add: normalizeQuery_def\<close>)
  from c1 c2 c3 c4 c5 show
    "(\<not> isBracketed q \<longrightarrow> normalizeQuery q = q)
   \<and> (JSON_parse q = None \<longrightarrow> normalizeQuery q = q)
   \<and> (\<forall>s. isBracketed q \<and> JSON_parse q = Some (JString s) \<and> trim s \<noteq> []
          \<longrightarrow> normalizeQuery q = trim s)
   \<and> (\<forall>kvs n. isBracketed q \<and> JSON_parse q = Some (JObject kvs)
          \<and> getProp (JObject kvs) (str ''query'') = Some (JString n) \<and> trim n \<noteq> []
          \<longrightarrow> normalizeQuery q = trim n)
   \<and> (\<forall>v. JSON_parse q = Some v
          \<and> (\<forall>s. v \<noteq> JString s)
          \<and> (\<forall>kvs n. v = JObject kvs \<and> getProp v (str ''query'') = Some (JString n)
                 \<longrightarrow> trim n = [])
          \<longrightarrow> normalizeQuery q = q)"
    by blast
qed

lemma trim_cats: "trim (str ''{\"query\":\"cats\"}'') = str ''{\"query\":\"cats\"}''"
  by (simp add: str_def trim_def isWhiteSpace_def)

lemma parse_cats: "JSON_parse (str ''{\"query\":\"cats\"}'')
             = Some (JObject [(str ''query'', JString (str ''cats''))])"
  by (simp add: str_def parse_eval)

lemma bracketed_cats: "isBracketed (str ''{\"query\":\"cats\"}'')"
  by (simp add: str_def isBracketed_def startsWith_def endsWith_def)

theorem normalizeQuery_recovery_witness:
  "trim (str ''{\"query\":\"cats\"}'') = str ''{\"query\":\"cats\"}''
   \<and> isBracketed (str ''{\"query\":\"cats\"}'')
   \<and> JSON_parse (str ''{\"query\":\"cats\"}'')
       = Some (JObject [(str ''query'', JString (str ''cats''))])
   \<and> getProp (JObject [(str ''query'', JString (str ''cats''))]) (str ''query'')
       = Some (JString (str ''cats''))
   \<and> trim (str ''cats'') \<noteq> []
   \<and> normalizeQuery (str ''{\"query\":\"cats\"}'') = trim (str ''cats'')
   \<and> trim (str ''cats'') = str ''cats''"
proof -
  have g: "getProp (JObject [(str ''query'', JString (str ''cats''))]) (str ''query'')
       = Some (JString (str ''cats''))"
    by (simp add: getProp_def)
  have tc: "trim (str ''cats'') = str ''cats''"
    by (simp add: str_def trim_def isWhiteSpace_def)
  have ne: "trim (str ''cats'') \<noteq> []"
    by (simp add: tc) (simp add: str_def)
  from normalizeQuery_recovery [of "str ''{\"query\":\"cats\"}''"]
       trim_cats bracketed_cats parse_cats g ne tc
  show ?thesis by blast
qed

text \<open>
  The claim as first stated asks for the trimmed value of any non-empty string field
  \<open>query\<close>. A field holding one space is a non-empty string; the code returns the
  original text, not the (empty) trimmed field.
\<close>

theorem normalizeQuery_blank_field_counterexample:
  "trim (str ''{\"query\":\" \"}'') = str ''{\"query\":\" \"}''
   \<and> isBracketed (str ''{\"query\":\" \"}'')
   \<and> JSON_parse (str ''{\"query\":\" \"}'')
       = Some (JObject [(str ''query'', JString (str '' ''))])
   \<and> str '' '' \<noteq> []
   \<and> normalizeQuery (str ''{\"query\":\" \"}'') \<noteq> trim (str '' '')
   \<and> normalizeQuery (str ''{\"query\":\" \"}'') = str ''{\"query\":\" \"}''"
proof -
  have t: "trim (str ''{\"query\":\" \"}'') = str ''{\"query\":\" \"}''"
    by (simp add: str_def trim_def isWhiteSpace_def)
  have a: "isBracketed (str ''{\"query\":\" \"}'')"
    by (simp add: str_def isBracketed_def startsWith_def endsWith_def)
  have b: "JSON_parse (str ''{\"query\":\" \"}'')
       = Some (JObject [(str ''query'', JString (str '' ''))])"
    by (simp add: str_def parse_eval)
  have tb: "trim (str '' '') = []"
    by (simp add: str_def trim_def isWhiteSpace_def)
  have e: "normalizeQuery (str ''{\"query\":\" \"}'') = str ''{\"query\":\" \"}''"
    unfolding normalizeQuery_def t Let_def b
    by (simp add: a getProp_def tb)
  have ne: "str ''{\"query\":\" \"}'' \<noteq> []" "str '' '' \<noteq> []"
    by (simp_all add: str_def)
  from t a b tb e ne show ?thesis by simp
qed

text \<open>A text that is not bracketed is returned as it is.\<close>

lemma normalizeQuery_not_json:
  "normalizeQuery (str ''not json {'') = str ''not json {''"
  by (simp add: normalizeQuery_def str_def trim_def isWhiteSpace_def isBracketed_def
        startsWith_def endsWith_def)

section \<open>Language resolution\<close>

lemma splitScan_hd:
  "splitScan sep cur s \<noteq> []
   \<and> hd (splitScan sep cur s) = rev cur @ takeWhile (\<lambda>c. \<not> sep c) s"
  by (induction s arbitrary: cur) simp_all

lemma splitScan_first:
  "\<exists>rest. splitScan sep cur s = (rev cur @ takeWhile (\<lambda>c. \<not> sep c) s) # rest"
  using splitScan_hd [of sep cur s] by (cases "splitScan sep cur s") auto

lemma split_first: "\<exists>rest. split sep s = takeWhile (\<lambda>c. \<not> sep c) s # rest"
  using splitScan_first [of sep "[]" s] by (simp add: split_def)

lemma empty_not_supported: "[] \<notin> set SUPPORTED_LANGS"
  by (simp add: SUPPORTED_LANGS_def str_def)

lemma default_supported: "defaultLocale \<in> set SUPPORTED_LANGS"
  by (simp add: SUPPORTED_LANGS_def defaultLocale_def)

lemma resolveLanguage_eq:
  "resolveLanguage loc =
     (case loc of
        None \<Rightarrow> str ''en''
      | Some l \<Rightarrow>
          (let primary = toLowerCase (takeWhile (\<lambda>c. c \<noteq> 45 \<and> c \<noteq> 95) l)
           in if primary \<in> set SUPPORTED_LANGS then primary else str ''en''))"
proof (cases loc)
  case None
  then show ?thesis by (simp add: resolveLanguage_def defaultLocale_def)
next
  case (Some l)
  obtain rest where sp: "split isLocaleSeparator l = takeWhile (\<lambda>c. \<not> isLocaleSeparator c) l # rest"
    using split_first by blast
  have tw: "takeWhile (\<lambda>c. \<not> isLocaleSeparator c) l = takeWhile (\<lambda>c. c \<noteq> 45 \<and> c \<noteq> 95) l"
    by (simp add: isLocaleSeparator_def)
  show ?thesis
  proof (cases "l = []")
    case True
    with Some show ?thesis
      using empty_not_supported
      by (simp add: resolveLanguage_def defaultLocale_def toLowerCase_def)
  next
    case False
    with Some sp tw show ?thesis
      using empty_not_supported
      by (auto simp: resolveLanguage_def defaultLocale_def Let_def)
  qed
qed

text \<open>
  C5. \<open>resolveLanguage\<close> is total. For a locale string it takes the part before the
  first \<open>-\<close> or \<open>_\<close>, lower-cases it, and returns it when it is one of
  \<open>SUPPORTED_LANGS\<close>; in every other case, the empty and the missing locale included, it
  returns \<open>en\<close>. So the result is always a supported language; \<open>pt-BR\<close> gives
  \<open>pt\<close> and \<open>xx-YY\<close> gives \<open>en\<close>.
\<close>

theorem resolveLanguage_primary_subtag:
  "resolveLanguage loc =
     (case loc of
        None \<Rightarrow> str ''en''
      | Some l \<Rightarrow>
          (let primary = toLowerCase (takeWhile (\<lambda>c. c \<noteq> 45 \<and> c \<noteq> 95) l)
           in if primary \<in> set SUPPORTED_LANGS then primary else str ''en''))
   \<and> resolveLanguage loc \<in> set SUPPORTED_LANGS
   \<and> resolveLanguage (Some (str ''pt-BR'')) = str ''pt''
   \<and> resolveLanguage (Some (str ''xx-YY'')) = str ''en''
   \<and> resolveLanguage (Some []) = str ''en''
   \<and> resolveLanguage None = str ''en''"
proof -
  have en: "str ''en'' \<in> set SUPPORTED_LANGS"
    using default_supported by (simp add: defaultLocale_def)
  have mem: "resolveLanguage loc \<in> set SUPPORTED_LANGS"
    unfolding resolveLanguage_eq using en
    by (auto simp: Let_def split: option.splits)
  have pt: "resolveLanguage (Some (str ''pt-BR'')) = str ''pt''"
    unfolding resolveLanguage_eq
    by (simp add: str_def toLowerCase_def lowerUnit_def SUPPORTED_LANGS_def)
  have xx: "resolveLanguage (Some (str ''xx-YY'')) = str ''en''"
    unfolding resolveLanguage_eq
    by (simp add: str_def toLowerCase_def lowerUnit_def SUPPORTED_LANGS_def)
  have em: "resolveLanguage (Some []) = str ''en''"
    unfolding resolveLanguage_eq
    by (simp add: str_def toLowerCase_def SUPPORTED_LANGS_def)
  have no: "resolveLanguage None = str ''en''"
    unfolding resolveLanguage_eq by simp
  from resolveLanguage_eq [of loc] mem pt xx em no show ?thesis by blast
qed

theorem resolveLanguage_primary_subtag_witness:
  "resolveLanguage (Some (str ''DE_at'')) = str ''de''
   \<and> resolveLanguage (Some (str ''DE_at'')) \<in> set SUPPORTED_LANGS"
  using resolveLanguage_primary_subtag [of "Some (str ''DE_at'')"]
  by (simp add: str_def toLowerCase_def lowerUnit_def SUPPORTED_LANGS_def)

section \<open>The error classifier\<close>

text \<open>
  C6 (as amended). \<open>throwForErrorResponse\<close> throws one \<open>McpError\<close> with the code
  \<open>InternalError\<close>, whose message is decided by the status alone: for 401 and 403 the
  text \<open>Pixabay authentication failed. Verify PIXABAY_API_KEY.\<close>; for 429 the fixed
  rate-limit text, whatever the body holds; for any other status
  \<open>Pixabay request failed (<status>): <text>\<close>, where the text is the trimmed body, or
  the status text when the body cannot be read or is empty after trimming. Both search
  functions throw exactly this error for a response that is not \<open>ok\<close>.
\<close>

theorem error_classification:
  "throwForErrorResponse r =
     McpError InternalError
       (if status r = 401 \<or> status r = 403
        then str ''Pixabay authentication failed. Verify PIXABAY_API_KEY.''
        else if status r = 429
        then str ''Pixabay rate limit exceeded. Please wait a moment before trying again.''
        else str ''Pixabay request failed ('' @ digitsOf (status r) @ str ''): ''
             @ (case body r of
                  None \<Rightarrow> statusText r
                | Some text \<Rightarrow> if trim text = [] then statusText r else trim text))
   \<and> (fetch (imageSearchRequest rt params) = Inr r \<and> \<not> ok r
        \<longrightarrow> searchImages rt fetch params = Inl (throwForErrorResponse r))
   \<and> (fetch (videoSearchRequest rt params) = Inr r \<and> \<not> ok r
        \<longrightarrow> searchVideos rt fetch params = Inl (throwForErrorResponse r))"
proof -
  have a: "throwForErrorResponse r =
     McpError InternalError
       (if status r = 401 \<or> status r = 403
        then str ''Pixabay authentication failed. Verify PIXABAY_API_KEY.''
        else if status r = 429
        then str ''Pixabay rate limit exceeded. Please wait a moment before trying again.''
        else str ''Pixabay request failed ('' @ digitsOf (status r) @ str ''): ''
             @ (case body r of
                  None \<Rightarrow> statusText r
                | Some text \<Rightarrow> if trim text = [] then statusText r else trim text))"
    by (simp add: throwForErrorResponse_def safeReadError_def Let_def split: option.splits)
  have b: "fetch (imageSearchRequest rt params) = Inr r \<and> \<not> ok r
        \<longrightarrow> searchImages rt fetch params = Inl (throwForErrorResponse r)"
    by (simp add: searchImages_def Let_def)
  have c: "fetch (videoSearchRequest rt params) = Inr r \<and> \<not> ok r
        \<longrightarrow> searchVideos rt fetch params = Inl (throwForErrorResponse r)"
    by (simp add: searchVideos_def Let_def)
  from a b c show ?thesis by blast
qed

theorem error_classification_witness:
  "(\<lambda>req. Inr rateLimitedResponse) (imageSearchRequest sampleRuntime sampleParams)
      = (Inr rateLimitedResponse :: error + response)
   \<and> \<not> ok rateLimitedResponse
   \<and> searchImages sampleRuntime (\<lambda>req. Inr rateLimitedResponse) sampleParams
      = Inl (McpError InternalError
              (str ''Pixabay rate limit exceeded. Please wait a moment before trying again.''))
   \<and> (\<lambda>req. Inr rateLimitedResponse) (videoSearchRequest sampleRuntime sampleParams)
      = (Inr rateLimitedResponse :: error + response)
   \<and> searchVideos sampleRuntime (\<lambda>req. Inr rateLimitedResponse) sampleParams
      = Inl (McpError InternalError
              (str ''Pixabay rate limit exceeded. Please wait a moment before trying again.''))"
proof -
  have nok: "\<not> ok rateLimitedResponse"
    by (simp add: ok_def rateLimitedResponse_def)
  have st: "status rateLimitedResponse = 429"
    by (simp add: rateLimitedResponse_def)
  from error_classification
         [of rateLimitedResponse "\<lambda>req. Inr rateLimitedResponse" sampleRuntime sampleParams]
       nok st
  show ?thesis by simp
qed

text \<open>
  The claim as first stated gives the message of 401 and 403 as
  \<open>Pixabay authentication failed. Verify the API key.\<close>; the code names the variable.
\<close>

theorem auth_message_counterexample:
  "status unauthorizedResponse = 401
   \<and> throwForErrorResponse unauthorizedResponse
       \<noteq> McpError InternalError (str ''Pixabay authentication failed. Verify the API key.'')
   \<and> throwForErrorResponse unauthorizedResponse
       = McpError InternalError (str ''Pixabay authentication failed. Verify PIXABAY_API_KEY.'')"
  by (simp add: throwForErrorResponse_def unauthorizedResponse_def Let_def str_def)

section \<open>Choosing the rendition and the thumbnail\<close>

text \<open>
  Trimming is idempotent, and \<open>sanitizeUrl\<close> answers exactly the strings whose trimmed
  form passes the http(s) prefix test, with that trimmed form.
\<close>

lemma dropWhile_rev_prefix:
  assumes "xs = [] \<or> \<not> P (hd xs)"
  shows "dropWhile P (rev (dropWhile P (rev xs))) = rev (dropWhile P (rev xs))"
proof (cases "dropWhile P (rev xs) = []")
  case True
  then have "rev (dropWhile P (rev xs)) = []" by simp
  then show ?thesis by (simp only: dropWhile.simps)
next
  case False
  define ys where "ys = rev (dropWhile P (rev xs))"
  have "rev xs = takeWhile P (rev xs) @ dropWhile P (rev xs)" by simp
  then have "xs = ys @ rev (takeWhile P (rev xs))"
    unfolding ys_def by (metis rev_append rev_rev_ident)
  moreover have "ys \<noteq> []" using False by (simp add: ys_def)
  ultimately have "hd ys = hd xs" "xs \<noteq> []"
    by (metis hd_append2, metis append_is_Nil_conv)
  with assms have "\<not> P (hd ys)" by simp
  with \<open>ys \<noteq> []\<close> have "dropWhile P ys = ys"
    by (cases ys) auto
  then show ?thesis by (simp add: ys_def)
qed

lemma trim_idem: "trim (trim s) = trim s"
proof -
  define u where "u = dropWhile isWhiteSpace s"
  have hu: "u = [] \<or> \<not> isWhiteSpace (hd u)"
    unfolding u_def by (metis hd_dropWhile)
  define t where "t = rev (dropWhile isWhiteSpace (rev u))"
  have t: "trim s = t" by (simp add: trim_def t_def u_def)
  have d: "dropWhile isWhiteSpace t = t"
    unfolding t_def by (rule dropWhile_rev_prefix [of u isWhiteSpace, OF hu])
  have "trim t = rev (dropWhile isWhiteSpace (rev t))"
    by (simp add: trim_def d)
  also have "rev t = dropWhile isWhiteSpace (rev u)" by (simp add: t_def)
  also have "rev (dropWhile isWhiteSpace (dropWhile isWhiteSpace (rev u))) = t"
    by (simp add: t_def)
  finally show ?thesis by (simp add: t)
qed

lemma httpRegexTest_nonempty: "httpRegexTest t \<Longrightarrow> t \<noteq> []"
  by (auto simp: httpRegexTest_def startsWith_def str_def)

lemma trim_Nil: "trim [] = []"
  by (simp add: trim_def)

lemma sanitizeUrl_Some_iff:
  "sanitizeUrl v = Some t \<longleftrightarrow> (\<exists>s. v = Some s \<and> t = trim s \<and> httpRegexTest (trim s))"
  using httpRegexTest_nonempty trim_Nil
  by (cases v) (auto simp: sanitizeUrl_def Let_def)

lemma sanitizeUrl_ok_iff: "sanitizeUrl (Some u) \<noteq> None \<longleftrightarrow> httpRegexTest (trim u)"
  using sanitizeUrl_Some_iff [of "Some u"] by auto

lemma pickLoop_find:
  "pickLoop hit keys =
     List.find (\<lambda>r. sanitizeUrl (Some (rd_url r)) \<noteq> None)
       (List.map_filter (videosAt (vh_videos hit)) keys)"
  by (induction keys) (auto split: option.splits)

lemma pickLoop_Some:
  "pickLoop hit keys = Some r \<Longrightarrow> sanitizeUrl (Some (rd_url r)) \<noteq> None"
  unfolding pickLoop_find by (auto simp: find_Some_iff)

lemma thumbnailLoop_first:
  "thumbnailLoop hit keys =
     (case List.map_filter
             (\<lambda>k. Option.bind (videosAt (vh_videos hit) k) (\<lambda>r. sanitizeUrl (rd_thumbnail r)))
             keys of
        [] \<Rightarrow> None
      | t # _ \<Rightarrow> Some t)"
  by (induction keys) (auto split: option.splits)


lemma videoResultsLoop_skip:
  "pickVideoRendition hit = None \<Longrightarrow> videoResultsLoop rt (hit # hits) = videoResultsLoop rt hits"
  by simp

lemma videoResultsLoop_push:
  assumes "pickVideoRendition hit = Some r"
    and "buildContributorProfile rt (vh_user hit) (vh_user_id hit) = Some p"
    and "videoResultsLoop rt hits = Inr rs"
  shows "\<exists>v. videoResultsLoop rt (hit # hits) = Inr (v # rs)
           \<and> vr_videoUrl v = trim (rd_url r)
           \<and> vr_previewImageUrl v = findThumbnail hit (rd_thumbnail r)"
proof -
  from assms(1) have "sanitizeUrl (Some (rd_url r)) \<noteq> None"
    unfolding pickVideoRendition_def by (rule pickLoop_Some)
  then obtain t where t: "sanitizeUrl (Some (rd_url r)) = Some t" by auto
  then have "t = trim (rd_url r)" using sanitizeUrl_Some_iff by auto
  with assms t show ?thesis by (simp add: Let_def)
qed

lemmas string_eval = str_def trim_def isWhiteSpace_def httpRegexTest_def startsWith_def
  asciiLower_def

lemma sample_pick:
  "pickVideoRendition sampleVideoHit
     = Some \<lparr> rd_url = str ''https://c/s.mp4'', rd_width = Finite 640,
              rd_height = Finite 360, rd_size = None, rd_thumbnail = None \<rparr>"
  by (simp add: pickVideoRendition_def VIDEO_RENDITION_ORDER_def sampleVideoHit_def
        sanitizeUrl_def string_eval)

lemma sample_profile:
  "buildContributorProfile sampleRuntime (str ''ann'') (Finite 7)
     = Some (str ''https://pixabay.com/users/ann-7/'')"
  by (simp add: buildContributorProfile_def numberToString_def digitsOf.simps str_def
        isUnreserved_def)

text \<open>
  C1. \<open>pickVideoRendition\<close> returns the first rendition, in the order medium, large,
  small, tiny, whose trimmed URL passes the test \<open>/^https?:\/\//i\<close>. When there is none
  the hit is skipped by \<open>searchVideos\<close>. Otherwise the pushed result has the trimmed URL
  of that rendition, and its preview image is the rendition's own thumbnail (trimmed) when
  that passes the test, else the first thumbnail that passes it among the renditions in the
  order medium, small, large, tiny, else \<open>null\<close>.
\<close>

theorem video_rendition_and_thumbnail:
  "pickVideoRendition hit =
     List.find (\<lambda>r. httpRegexTest (trim (rd_url r)))
       (List.map_filter (videosAt (vh_videos hit)) [Medium, Large, Small, Tiny])
   \<and> (pickVideoRendition hit = None
        \<longrightarrow> videoResultsLoop rt (hit # hits) = videoResultsLoop rt hits)
   \<and> (\<forall>r p rs. pickVideoRendition hit = Some r
          \<and> buildContributorProfile rt (vh_user hit) (vh_user_id hit) = Some p
          \<and> videoResultsLoop rt hits = Inr rs
        \<longrightarrow> (\<exists>v. videoResultsLoop rt (hit # hits) = Inr (v # rs)
               \<and> vr_videoUrl v = trim (rd_url r)
               \<and> vr_previewImageUrl v =
                   (case rd_thumbnail r of
                      Some own \<Rightarrow>
                        if httpRegexTest (trim own) then Some (trim own)
                        else (case List.map_filter
                                     (\<lambda>k. Option.bind (videosAt (vh_videos hit) k)
                                            (\<lambda>x. sanitizeUrl (rd_thumbnail x)))
                                     [Medium, Small, Large, Tiny] of
                                [] \<Rightarrow> None
                              | t # _ \<Rightarrow> Some t)
                    | None \<Rightarrow>
                        (case List.map_filter
                                (\<lambda>k. Option.bind (videosAt (vh_videos hit) k)
                                       (\<lambda>x. sanitizeUrl (rd_thumbnail x)))
                                [Medium, Small, Large, Tiny] of
                           [] \<Rightarrow> None
                         | t # _ \<Rightarrow> Some t))))
   \<and> (\<forall>x t. sanitizeUrl x = Some t
          \<longleftrightarrow> (\<exists>s. x = Some s \<and> t = trim s \<and> httpRegexTest (trim s)))"
proof -
  have a: "pickVideoRendition hit =
     List.find (\<lambda>r. httpRegexTest (trim (rd_url r)))
       (List.map_filter (videosAt (vh_videos hit)) [Medium, Large, Small, Tiny])"
    by (simp only: pickVideoRendition_def pickLoop_find VIDEO_RENDITION_ORDER_def
          sanitizeUrl_ok_iff)
  have b: "pickVideoRendition hit = None
        \<longrightarrow> videoResultsLoop rt (hit # hits) = videoResultsLoop rt hits"
    by simp
  have ft: "findThumbnail hit th =
      (case th of
         Some own \<Rightarrow>
           if httpRegexTest (trim own) then Some (trim own)
           else (case List.map_filter
                        (\<lambda>k. Option.bind (videosAt (vh_videos hit) k)
                               (\<lambda>x. sanitizeUrl (rd_thumbnail x)))
                        [Medium, Small, Large, Tiny] of
                   [] \<Rightarrow> None
                 | t # _ \<Rightarrow> Some t)
       | None \<Rightarrow>
           (case List.map_filter
                   (\<lambda>k. Option.bind (videosAt (vh_videos hit) k)
                          (\<lambda>x. sanitizeUrl (rd_thumbnail x)))
                   [Medium, Small, Large, Tiny] of
              [] \<Rightarrow> None
            | t # _ \<Rightarrow> Some t))" for th
  proof (cases th)
    case None
    then show ?thesis
      by (simp add: findThumbnail_def sanitizeUrl_def thumbnailLoop_first
            THUMBNAIL_RENDITION_ORDER_def)
  next
    case (Some own)
    show ?thesis
    proof (cases "httpRegexTest (trim own)")
      case True
      then have "sanitizeUrl (Some own) = Some (trim own)"
        using sanitizeUrl_Some_iff [of "Some own" "trim own"] by simp
      with Some True show ?thesis by (simp add: findThumbnail_def)
    next
      case False
      then have "sanitizeUrl (Some own) = None"
        using sanitizeUrl_ok_iff [of own] by simp
      with Some False show ?thesis
        by (simp add: findThumbnail_def thumbnailLoop_first THUMBNAIL_RENDITION_ORDER_def)
    qed
  qed
  have c: "\<forall>r p rs. pickVideoRendition hit = Some r
          \<and> buildContributorProfile rt (vh_user hit) (vh_user_id hit) = Some p
          \<and> videoResultsLoop rt hits = Inr rs
        \<longrightarrow> (\<exists>v. videoResultsLoop rt (hit # hits) = Inr (v # rs)
               \<and> vr_videoUrl v = trim (rd_url r)
               \<and> vr_previewImageUrl v =
                   (case rd_thumbnail r of
                      Some own \<Rightarrow>
                        if httpRegexTest (trim own) then Some (trim own)
                        else (case List.map_filter
                                     (\<lambda>k. Option.bind (videosAt (vh_videos hit) k)
                                            (\<lambda>x. sanitizeUrl (rd_thumbnail x)))
                                     [Medium, Small, Large, Tiny] of
                                [] \<Rightarrow> None
                              | t # _ \<Rightarrow> Some t)
                    | None \<Rightarrow>
                        (case List.map_filter
                                (\<lambda>k. Option.bind (videosAt (vh_videos hit) k)
                                       (\<lambda>x. sanitizeUrl (rd_thumbnail x)))
                                [Medium, Small, Large, Tiny] of
                           [] \<Rightarrow> None
                         | t # _ \<Rightarrow> Some t)))"
    using videoResultsLoop_push [of hit _ rt _ hits] by (auto simp: ft [symmetric])
  have d: "\<forall>x t. sanitizeUrl x = Some t
          \<longleftrightarrow> (\<exists>s. x = Some s \<and> t = trim s \<and> httpRegexTest (trim s))"
    using sanitizeUrl_Some_iff by blast
  from a b c d show ?thesis by blast
qed


theorem video_rendition_and_thumbnail_witness:
  "pickVideoRendition sampleVideoHit
     = Some \<lparr> rd_url = str ''https://c/s.mp4'', rd_width = Finite 640,
              rd_height = Finite 360, rd_size = None, rd_thumbnail = None \<rparr>
   \<and> buildContributorProfile sampleRuntime (vh_user sampleVideoHit) (vh_user_id sampleVideoHit)
       = Some (str ''https://pixabay.com/users/ann-7/'')
   \<and> videoResultsLoop sampleRuntime [] = Inr []
   \<and> (\<exists>v. videoResultsLoop sampleRuntime [sampleVideoHit] = Inr [v]
          \<and> vr_videoUrl v = str ''https://c/s.mp4''
          \<and> vr_previewImageUrl v = Some (str ''https://c/m.jpg''))"
proof -
  have bp: "buildContributorProfile sampleRuntime (vh_user sampleVideoHit)
              (vh_user_id sampleVideoHit)
            = Some (str ''https://pixabay.com/users/ann-7/'')"
    using sample_profile by (simp add: sampleVideoHit_def)
  have e: "videoResultsLoop sampleRuntime [] = Inr []" by simp
  have tr: "trim (str ''https://c/s.mp4'') = str ''https://c/s.mp4''"
    by (simp add: string_eval)
  have th: "List.map_filter
              (\<lambda>k. Option.bind (videosAt (vh_videos sampleVideoHit) k)
                     (\<lambda>x. sanitizeUrl (rd_thumbnail x)))
              [Medium, Small, Large, Tiny]
            = [str ''https://c/m.jpg'']"
    by (simp add: sampleVideoHit_def sanitizeUrl_def string_eval)
  from video_rendition_and_thumbnail [of sampleVideoHit sampleRuntime "[]"]
  have "\<forall>r p rs. pickVideoRendition sampleVideoHit = Some r
          \<and> buildContributorProfile sampleRuntime (vh_user sampleVideoHit)
               (vh_user_id sampleVideoHit) = Some p
          \<and> videoResultsLoop sampleRuntime [] = Inr rs
        \<longrightarrow> (\<exists>v. videoResultsLoop sampleRuntime [sampleVideoHit] = Inr (v # rs)
               \<and> vr_videoUrl v = trim (rd_url r)
               \<and> vr_previewImageUrl v =
                   (case rd_thumbnail r of
                      Some own \<Rightarrow>
                        if httpRegexTest (trim own) then Some (trim own)
                        else (case List.map_filter
                                     (\<lambda>k. Option.bind (videosAt (vh_videos sampleVideoHit) k)
                                            (\<lambda>x. sanitizeUrl (rd_thumbnail x)))
                                     [Medium, Small, Large, Tiny] of
                                [] \<Rightarrow> None
                              | t # _ \<Rightarrow> Some t)
                    | None \<Rightarrow>
                        (case List.map_filter
                                (\<lambda>k. Option.bind (videosAt (vh_videos sampleVideoHit) k)
                                       (\<lambda>x. sanitizeUrl (rd_thumbnail x)))
                                [Medium, Small, Large, Tiny] of
                           [] \<Rightarrow> None
                         | t # _ \<Rightarrow> Some t)))"
    by blast
  from this [rule_format, OF conjI [OF sample_pick conjI [OF bp e]]]
  obtain v where v1: "videoResultsLoop sampleRuntime [sampleVideoHit] = Inr [v]"
    and v2: "vr_videoUrl v = trim (str ''https://c/s.mp4'')"
    and v3: "vr_previewImageUrl v =
               (case List.map_filter
                       (\<lambda>k. Option.bind (videosAt (vh_videos sampleVideoHit) k)
                              (\<lambda>x. sanitizeUrl (rd_thumbnail x)))
                       [Medium, Small, Large, Tiny] of
                  [] \<Rightarrow> None
                | t # _ \<Rightarrow> Some t)"
    by (auto simp del: videoResultsLoop.simps)
  from v2 v3 have "vr_videoUrl v = str ''https://c/s.mp4''"
    "vr_previewImageUrl v = Some (str ''https://c/m.jpg'')"
    by (simp_all only: tr th list.case)
  with v1 sample_pick bp e show ?thesis by blast
qed

section \<open>The sample bodies\<close>

text \<open>The sample texts parse to the sample values.\<close>

lemmas number_eval = parseNumber_def parseInt_def parseFrac_def parseExp_def parseSign_def
  numberValue_def digitsValue_def isDigit_def

lemma sampleVideoBody_parse: "JSON_parse sampleVideoBody = Some sampleVideoJson"
  by (simp add: sampleVideoBody_def sampleVideoJson_def str_def parse_eval number_eval)

lemma sampleImageBody_parse: "JSON_parse sampleImageBody = Some sampleImageJson"
  by (simp add: sampleImageBody_def sampleImageJson_def sampleImageHitJson_def str_def
        parse_eval number_eval)

lemma surrogateBody_parse: "JSON_parse surrogateBody = Some surrogateJson"
  by (simp add: surrogateBody_def surrogateJson_def sampleImageHitJson_def str_def
        parse_eval number_eval)



lemma threeImagesBody_parse: "JSON_parse threeImagesBody = Some threeImagesJson"
  by (simp add: threeImagesBody_def threeImagesJson_def imageHitText_def
        sampleImageHitJson_def str_def parse_eval number_eval)

lemma emptyHitsBody_parse:
  "JSON_parse emptyHitsBody = Some (JObject [(str ''hits'', JArray [])])"
  by (simp add: emptyHitsBody_def str_def parse_eval)


section \<open>The response mapper\<close>

text \<open>Evaluation of the image schema and of the searches at the sample values.\<close>

lemmas schema_eval = pixabayImageHitSchema_def isObject_def getProp_def zNumber_def zString_def
  zUrl_def userImageURLSchema_def urlOrEmpty_def zOptional_def

lemma sampleImageHit_parse:
  "pixabayImageHitSchema sampleRuntime (sampleImageHitJson u)
     = Some \<lparr> ih_id = Finite 1, ih_pageURL = str ''http://a'', ih_previewURL = str ''http://b'',
              ih_webformatURL = str ''http://c'', ih_imageWidth = Finite 4,
              ih_imageHeight = Finite 3, ih_tags = str ''sea, ,sun'', ih_user = u,
              ih_user_id = Finite 7, ih_userImageURL = None, ih_likes = Finite 2,
              ih_downloads = Finite 5 \<rparr>"
  by (simp add: sampleImageHitJson_def schema_eval sampleRuntime_def string_eval)

lemma nonnumeric_id_dropped:
  "getProp raw (str ''id'') = Some (JString x) \<Longrightarrow> pixabayImageHitSchema rt raw = None"
  by (simp add: pixabayImageHitSchema_def zNumber_def)

lemma malformed_url_dropped:
  "getProp raw (str ''pageURL'') = Some (JString u) \<Longrightarrow> \<not> isUrl rt u
     \<Longrightarrow> pixabayImageHitSchema rt raw = None"
  by (simp add: pixabayImageHitSchema_def zUrl_def zString_def Option.bind_eq_None_conv)

lemma sample_invalid_hit:
  "pixabayImageHitSchema rt (JObject [(str ''id'', JString (str ''x''))]) = None"
  by (rule nonnumeric_id_dropped [of _ "str ''x''"]) (simp add: getProp_def)

lemma sample_profile_ann:
  "buildContributorProfile sampleRuntime (str ''ann'') (Finite 7)
     = Some (str ''https://pixabay.com/users/ann-7/'')"
  by (rule sample_profile)

lemma surrogate_profile:
  "buildContributorProfile rt [55296] n = None"
  by (simp add: buildContributorProfile_def isUnreserved_def isLowSurrogate_def
        isHighSurrogate_def str_def)

lemma sample_images_from_json:
  "\<exists>r0. imagesFromJson sampleRuntime rl sampleImageJson
     = Inr \<lparr> results = [r0], totalHits = JNumber (Finite 120), rateLimit = rl \<rparr>"
  by (simp add: imagesFromJson_def hitsOf_def totalHitsOr_def sampleImageJson_def
        getProp_def [of "JObject _"] sampleImageHit_parse sample_invalid_hit toImageResult_def
        sample_profile_ann)
     (simp add: str_def)

lemma surrogate_images_from_json:
  "imagesFromJson sampleRuntime rl surrogateJson = Inl URIError"
  by (simp add: imagesFromJson_def hitsOf_def surrogateJson_def
        getProp_def [of "JObject _"] sampleImageHit_parse toImageResult_def surrogate_profile)

lemma search_images_ok:
  "searchImages rt (\<lambda>req. Inr (okResponse text)) params
     = (case JSON_parse text of
          None \<Rightarrow> Inl SyntaxError
        | Some js \<Rightarrow> imagesFromJson rt (extractRateLimit rt (\<lambda>h. None)) js)"
  by (simp add: searchImages_def okResponse_def ok_def responseJson_def Let_def
           split: option.splits)

lemma search_videos_ok:
  "searchVideos rt (\<lambda>req. Inr (okResponse text)) params
     = (case JSON_parse text of
          None \<Rightarrow> Inl SyntaxError
        | Some js \<Rightarrow> videosFromJson rt (extractRateLimit rt (\<lambda>h. None)) js)"
  by (simp add: searchVideos_def okResponse_def ok_def responseJson_def Let_def
           split: option.splits)

lemma parseImageHits_map_filter:
  "parseImageHits rt hits = List.map_filter (pixabayImageHitSchema rt) hits"
  by (induction hits) (auto split: option.splits)

lemma parseImageHits_length:
  "length (parseImageHits rt hits)
     = length hits - length (filter (\<lambda>h. pixabayImageHitSchema rt h = None) hits)"
proof (induction hits)
  case Nil
  show ?case by simp
next
  case (Cons h hs)
  have "length (filter (\<lambda>h. pixabayImageHitSchema rt h = None) hs) \<le> length hs"
    by simp
  with Cons show ?case by (auto split: option.splits simp: Suc_diff_le)
qed

lemma mapImageResults_Inr:
  "mapImageResults rt hs = Inr rs
     \<Longrightarrow> length rs = length hs \<and> map Inr rs = map (toImageResult rt) hs"
  by (induction hs arbitrary: rs) (auto split: sum.splits)

lemma mapImageResults_total:
  "\<forall>h \<in> set hs. encodeURIComponent (ih_user h) \<noteq> None
     \<Longrightarrow> \<exists>rs. mapImageResults rt hs = Inr rs"
  by (induction hs)
     (auto simp: toImageResult_def buildContributorProfile_def split: sum.splits option.splits)

lemma imagesFromJson_Inr:
  "imagesFromJson rt rl js = Inr r
     \<Longrightarrow> js \<noteq> JNull
       \<and> mapImageResults rt (parseImageHits rt (hitsOf js)) = Inr (results r)
       \<and> totalHits r = totalHitsOr js (length (results r))"
  by (auto simp: imagesFromJson_def Let_def split: if_splits sum.splits)

lemma videosFromJson_Inr:
  "videosFromJson rt rl js = Inr r
     \<Longrightarrow> js \<noteq> JNull
       \<and> videoResultsLoop rt (parseVideoHits rt (hitsOf js)) = Inr (v_results r)
       \<and> v_totalHits r = totalHitsOr js (length (v_results r))"
  by (auto simp: videosFromJson_def Let_def split: if_splits sum.splits)

lemma searchImages_Inr:
  "searchImages rt fetch params = Inr r
     \<Longrightarrow> \<exists>resp js. fetch (imageSearchRequest rt params) = Inr resp \<and> ok resp
           \<and> responseJson resp = Inr js
           \<and> imagesFromJson rt (extractRateLimit rt (headers resp)) js = Inr r"
  by (auto simp: searchImages_def Let_def split: sum.splits if_splits)

lemma searchVideos_Inr:
  "searchVideos rt fetch params = Inr r
     \<Longrightarrow> \<exists>resp js. fetch (videoSearchRequest rt params) = Inr resp \<and> ok resp
           \<and> responseJson resp = Inr js
           \<and> videosFromJson rt (extractRateLimit rt (headers resp)) js = Inr r"
  by (auto simp: searchVideos_def Let_def split: sum.splits if_splits)

lemmas video_schema_eval = pixabayVideoHitSchema_def videosSchema_def
  pixabayVideoRenditionSchema_def durationSchema_def isInteger_def numLess_def isObject_def
  getProp_def zNumber_def zString_def zUrl_def userImageURLSchema_def urlOrEmpty_def
  zOptional_def

lemma sample_video_hits:
  "parseVideoHits sampleRuntime (hitsOf sampleVideoJson) = [sampleVideoHit]"
  by (simp add: hitsOf_def sampleVideoJson_def sampleVideoHit_def video_schema_eval
        sampleRuntime_def string_eval)

lemma sample_video_loop:
  "\<exists>v. videoResultsLoop sampleRuntime [sampleVideoHit] = Inr [v]"
proof -
  have bp: "buildContributorProfile sampleRuntime (vh_user sampleVideoHit)
              (vh_user_id sampleVideoHit)
            = Some (str ''https://pixabay.com/users/ann-7/'')"
    using sample_profile by (simp add: sampleVideoHit_def)
  have e: "videoResultsLoop sampleRuntime [] = Inr []" by simp
  from videoResultsLoop_push [OF sample_pick bp e] show ?thesis by blast
qed

lemma sample_search_videos:
  "\<exists>v. searchVideos sampleRuntime (\<lambda>req. Inr (okResponse sampleVideoBody)) sampleParams
     = Inr \<lparr> v_results = [v], v_totalHits = JNumber (Finite 1),
             v_rateLimit = extractRateLimit sampleRuntime (\<lambda>h. None) \<rparr>"
proof -
  from sample_video_loop obtain v where
    v: "videoResultsLoop sampleRuntime [sampleVideoHit] = Inr [v]" ..
  have nn: "sampleVideoJson \<noteq> JNull" by (simp add: sampleVideoJson_def)
  have th: "totalHitsOr sampleVideoJson n = JNumber (Finite (of_nat n))" for n
    by (simp add: totalHitsOr_def sampleVideoJson_def getProp_def str_def)
  have "searchVideos sampleRuntime (\<lambda>req. Inr (okResponse sampleVideoBody)) sampleParams
     = Inr \<lparr> v_results = [v], v_totalHits = JNumber (Finite 1),
             v_rateLimit = extractRateLimit sampleRuntime (\<lambda>h. None) \<rparr>"
    by (simp add: search_videos_ok sampleVideoBody_parse videosFromJson_def nn
          sample_video_hits v th del: videoResultsLoop.simps)
  then show ?thesis ..
qed

lemma sample_search_images:
  "\<exists>r0. searchImages sampleRuntime (\<lambda>req. Inr (okResponse sampleImageBody)) sampleParams
     = Inr \<lparr> results = [r0], totalHits = JNumber (Finite 120),
             rateLimit = extractRateLimit sampleRuntime (\<lambda>h. None) \<rparr>"
  using sample_images_from_json [of "extractRateLimit sampleRuntime (\<lambda>h. None)"]
  by (simp add: search_images_ok sampleImageBody_parse)

lemma responseJson_ok: "responseJson (okResponse text) = Inr js \<longleftrightarrow> JSON_parse text = Some js"
  by (simp add: responseJson_def okResponse_def split: option.splits)

text \<open>
  C2, the code at a failing input. The claim says that no record of the upstream can fail
  the invocation. A hit that passes \<open>pixabayImageHitSchema\<close> and whose \<open>user\<close> is the
  string \<open>"\ud800"\<close> (a lone surrogate, which JSON can carry and \<open>z.string()\<close>
  accepts) makes \<open>encodeURIComponent\<close> throw inside \<open>buildContributorProfile\<close>; the
  \<open>URIError\<close> leaves \<open>parsedHits.map\<close> and \<open>searchImages\<close> rejects.
\<close>

theorem lone_surrogate_user_fails_invocation:
  "JSON_parse surrogateBody = Some surrogateJson
   \<and> hitsOf surrogateJson = [sampleImageHitJson [55296]]
   \<and> pixabayImageHitSchema sampleRuntime (sampleImageHitJson [55296]) \<noteq> None
   \<and> searchImages sampleRuntime (\<lambda>req. Inr (okResponse surrogateBody)) sampleParams
       = Inl URIError"
proof -
  have h: "hitsOf surrogateJson = [sampleImageHitJson [55296]]"
    by (simp add: hitsOf_def surrogateJson_def getProp_def)
  have p: "pixabayImageHitSchema sampleRuntime (sampleImageHitJson [55296]) \<noteq> None"
    by (simp add: sampleImageHit_parse)
  have s: "searchImages sampleRuntime (\<lambda>req. Inr (okResponse surrogateBody)) sampleParams
       = Inl URIError"
    by (simp add: search_images_ok surrogateBody_parse surrogate_images_from_json)
  from surrogateBody_parse h p s show ?thesis by blast
qed


text \<open>
  What the code does for the hits that fail the schema: they are skipped, the others are
  kept in order, and the number of parsed hits is the number of hits less the number of
  invalid ones; a hit whose \<open>id\<close> is a string is invalid. When \<open>encodeURIComponent\<close>
  accepts the user name of every parsed hit (and the body is not \<open>null\<close>), a result is
  returned with one image per parsed hit, in order.
\<close>

theorem invalid_image_hits_are_dropped:
  "parseImageHits rt hits = List.map_filter (pixabayImageHitSchema rt) hits
   \<and> length (parseImageHits rt hits)
       = length hits - length (filter (\<lambda>h. pixabayImageHitSchema rt h = None) hits)
   \<and> (\<forall>x. getProp raw (str ''id'') = Some (JString x) \<longrightarrow> pixabayImageHitSchema rt raw = None)
   \<and> (js \<noteq> JNull
        \<and> (\<forall>h \<in> set (parseImageHits rt (hitsOf js)). encodeURIComponent (ih_user h) \<noteq> None)
      \<longrightarrow> (\<exists>r. imagesFromJson rt rl js = Inr r
             \<and> length (results r)
                 = length (hitsOf js)
                   - length (filter (\<lambda>h. pixabayImageHitSchema rt h = None) (hitsOf js))
             \<and> map Inr (results r) = map (toImageResult rt) (parseImageHits rt (hitsOf js))))"
proof -
  have d: "js \<noteq> JNull
        \<and> (\<forall>h \<in> set (parseImageHits rt (hitsOf js)). encodeURIComponent (ih_user h) \<noteq> None)
      \<longrightarrow> (\<exists>r. imagesFromJson rt rl js = Inr r
             \<and> length (results r)
                 = length (hitsOf js)
                   - length (filter (\<lambda>h. pixabayImageHitSchema rt h = None) (hitsOf js))
             \<and> map Inr (results r) = map (toImageResult rt) (parseImageHits rt (hitsOf js)))"
  proof
    assume a: "js \<noteq> JNull
        \<and> (\<forall>h \<in> set (parseImageHits rt (hitsOf js)). encodeURIComponent (ih_user h) \<noteq> None)"
    then obtain rs where rs: "mapImageResults rt (parseImageHits rt (hitsOf js)) = Inr rs"
      using mapImageResults_total [of "parseImageHits rt (hitsOf js)" rt] by blast
    from mapImageResults_Inr [OF rs] parseImageHits_length [of rt "hitsOf js"]
    have "length rs = length (hitsOf js)
                   - length (filter (\<lambda>h. pixabayImageHitSchema rt h = None) (hitsOf js))"
      and "map Inr rs = map (toImageResult rt) (parseImageHits rt (hitsOf js))"
      by simp_all
    with a rs show "\<exists>r. imagesFromJson rt rl js = Inr r
             \<and> length (results r)
                 = length (hitsOf js)
                   - length (filter (\<lambda>h. pixabayImageHitSchema rt h = None) (hitsOf js))
             \<and> map Inr (results r) = map (toImageResult rt) (parseImageHits rt (hitsOf js))"
      by (simp add: imagesFromJson_def)
  qed
  from parseImageHits_map_filter [of rt hits] parseImageHits_length [of rt hits]
       nonnumeric_id_dropped [of raw _ rt] d
  show ?thesis by blast
qed

theorem invalid_image_hits_are_dropped_witness:
  "getProp (JObject [(str ''id'', JString (str ''x''))]) (str ''id'') = Some (JString (str ''x''))
   \<and> pixabayImageHitSchema sampleRuntime (JObject [(str ''id'', JString (str ''x''))]) = None
   \<and> sampleImageJson \<noteq> JNull
   \<and> length (hitsOf sampleImageJson) = 2
   \<and> list_all (\<lambda>h. encodeURIComponent (ih_user h) \<noteq> None)
        (parseImageHits sampleRuntime (hitsOf sampleImageJson))
   \<and> (\<exists>r. imagesFromJson sampleRuntime rateLimit0 sampleImageJson = Inr r
          \<and> length (results r) = 1)"
proof -
  have g: "getProp (JObject [(str ''id'', JString (str ''x''))]) (str ''id'')
             = Some (JString (str ''x''))"
    by (simp add: getProp_def)
  have nn: "sampleImageJson \<noteq> JNull" by (simp add: sampleImageJson_def)
  have h: "hitsOf sampleImageJson
             = [sampleImageHitJson (str ''ann''), JObject [(str ''id'', JString (str ''x''))]]"
    by (simp add: hitsOf_def sampleImageJson_def getProp_def str_def)
  have f: "filter (\<lambda>h. pixabayImageHitSchema sampleRuntime h = None) (hitsOf sampleImageJson)
             = [JObject [(str ''id'', JString (str ''x''))]]"
    by (simp add: h sampleImageHit_parse sample_invalid_hit)
  have e: "encodeURIComponent (str ''ann'') \<noteq> None"
    by (simp add: str_def isUnreserved_def)
  have p: "parseImageHits sampleRuntime (hitsOf sampleImageJson)
             = [the (pixabayImageHitSchema sampleRuntime (sampleImageHitJson (str ''ann'')))]"
    by (simp add: h sampleImageHit_parse sample_invalid_hit)
  have a: "list_all (\<lambda>h. encodeURIComponent (ih_user h) \<noteq> None)
        (parseImageHits sampleRuntime (hitsOf sampleImageJson))"
    using e by (simp add: p sampleImageHit_parse)
  note inst = invalid_image_hits_are_dropped
         [of sampleRuntime "[]" "JObject [(str ''id'', JString (str ''x''))]" sampleImageJson
             rateLimit0]
  from inst g
  have n: "pixabayImageHitSchema sampleRuntime (JObject [(str ''id'', JString (str ''x''))]) = None"
    by blast
  have pre: "\<forall>h \<in> set (parseImageHits sampleRuntime (hitsOf sampleImageJson)).
               encodeURIComponent (ih_user h) \<noteq> None"
    using a by (simp only: list_all_iff)
  from inst nn pre obtain r where
    r1: "imagesFromJson sampleRuntime rateLimit0 sampleImageJson = Inr r"
    and r2: "length (results r)
               = length (hitsOf sampleImageJson)
                 - length (filter (\<lambda>h. pixabayImageHitSchema sampleRuntime h = None)
                            (hitsOf sampleImageJson))"
    by blast
  have l2: "length (hitsOf sampleImageJson) = 2" by (simp add: h)
  from r2 have "length (results r) = 1" by (simp only: f l2) simp
  with r1 have "\<exists>r. imagesFromJson sampleRuntime rateLimit0 sampleImageJson = Inr r
          \<and> length (results r) = 1"
    by blast
  with g n nn l2 a show ?thesis by blast
qed

lemma length_map_filter:
  "length (List.map_filter f xs) = length (filter (\<lambda>x. f x \<noteq> None) xs)"
  by (induction xs) (auto split: option.splits)

lemma parseVideoHits_map_filter:
  "parseVideoHits rt hits = List.map_filter (pixabayVideoHitSchema rt) hits"
  by (induction hits) (auto split: option.splits)

lemma videoResultsLoop_ids:
  "videoResultsLoop rt hs = Inr rs
     \<Longrightarrow> map vr_id rs = map vh_id (filter (\<lambda>h. pickVideoRendition h \<noteq> None) hs)"
proof (induction hs arbitrary: rs)
  case Nil
  then show ?case by simp
next
  case (Cons hit hits)
  show ?case
  proof (cases "pickVideoRendition hit")
    case None
    with Cons show ?thesis by simp
  next
    case (Some r)
    then have "sanitizeUrl (Some (rd_url r)) \<noteq> None"
      unfolding pickVideoRendition_def by (rule pickLoop_Some)
    then obtain t where t: "sanitizeUrl (Some (rd_url r)) = Some t" by auto
    from Cons.prems Some t obtain rs' w where
      rec: "videoResultsLoop rt hits = Inr rs'" and rs: "rs = w # rs'"
      and w: "vr_id w = vh_id hit"
      by (auto simp: Let_def split: option.splits sum.splits)
    from Cons.IH [OF rec] rs w Some show ?thesis by simp
  qed
qed

lemma videoResultsLoop_total:
  "\<forall>h \<in> set hs. pickVideoRendition h \<noteq> None \<longrightarrow> encodeURIComponent (vh_user h) \<noteq> None
     \<Longrightarrow> \<exists>rs. videoResultsLoop rt hs = Inr rs"
proof (induction hs)
  case Nil
  show ?case by simp
next
  case (Cons hit hits)
  then obtain rs where rec: "videoResultsLoop rt hits = Inr rs" by auto
  show ?case
  proof (cases "pickVideoRendition hit")
    case None
    with rec show ?thesis by simp
  next
    case (Some r)
    then have "sanitizeUrl (Some (rd_url r)) \<noteq> None"
      unfolding pickVideoRendition_def by (rule pickLoop_Some)
    then obtain t where t: "sanitizeUrl (Some (rd_url r)) = Some t" by auto
    from Cons.prems Some obtain e where "encodeURIComponent (vh_user hit) = Some e" by auto
    then obtain p where "buildContributorProfile rt (vh_user hit) (vh_user_id hit) = Some p"
      by (simp add: buildContributorProfile_def)
    with Some t rec show ?thesis by (simp add: Let_def)
  qed
qed

lemma searchImages_returns:
  assumes "fetch (imageSearchRequest rt params) = Inr resp" "ok resp"
    and "responseJson resp = Inr js" "js \<noteq> JNull"
    and "\<forall>h \<in> set (List.map_filter (pixabayImageHitSchema rt) (hitsOf js)).
           encodeURIComponent (ih_user h) \<noteq> None"
  shows "\<exists>r. searchImages rt fetch params = Inr r"
proof -
  from assms(5) obtain rs where
    "mapImageResults rt (parseImageHits rt (hitsOf js)) = Inr rs"
    using mapImageResults_total [of "parseImageHits rt (hitsOf js)" rt]
    by (auto simp: parseImageHits_map_filter)
  with assms(1-4) show ?thesis
    by (simp add: searchImages_def imagesFromJson_def Let_def)
qed

lemma searchVideos_returns:
  assumes "fetch (videoSearchRequest rt params) = Inr resp" "ok resp"
    and "responseJson resp = Inr js" "js \<noteq> JNull"
    and "\<forall>h \<in> set (List.map_filter (pixabayVideoHitSchema rt) (hitsOf js)).
           pickVideoRendition h \<noteq> None \<longrightarrow> encodeURIComponent (vh_user h) \<noteq> None"
  shows "\<exists>r. searchVideos rt fetch params = Inr r"
proof -
  from assms(5) obtain rs where
    "videoResultsLoop rt (parseVideoHits rt (hitsOf js)) = Inr rs"
    using videoResultsLoop_total [of "parseVideoHits rt (hitsOf js)" rt]
    by (auto simp: parseVideoHits_map_filter)
  with assms(1-4) show ?thesis
    by (simp add: searchVideos_def videosFromJson_def Let_def)
qed

lemma totalHitsOr_case:
  "totalHitsOr js n =
     (case getProp js (str ''totalHits'') of
        None \<Rightarrow> JNumber (Finite (of_nat n))
      | Some v \<Rightarrow> if v = JNull then JNumber (Finite (of_nat n)) else v)"
  by (simp add: totalHitsOr_def split: option.splits json.splits)

lemma searchImages_result:
  assumes "searchImages rt fetch params = Inr r"
  shows "\<exists>resp js. fetch (imageSearchRequest rt params) = Inr resp
             \<and> responseJson resp = Inr js
             \<and> map Inr (results r)
                 = map (toImageResult rt)
                     (List.map_filter (pixabayImageHitSchema rt) (hitsOf js))
             \<and> length (results r)
                 = length (filter (\<lambda>h. pixabayImageHitSchema rt h \<noteq> None) (hitsOf js))
             \<and> totalHits r =
                 (case getProp js (str ''totalHits'') of
                    None \<Rightarrow> JNumber (Finite (of_nat (length (results r))))
                  | Some v \<Rightarrow>
                      if v = JNull then JNumber (Finite (of_nat (length (results r)))) else v)"
proof -
  from searchImages_Inr [OF assms] obtain resp js where
    f: "fetch (imageSearchRequest rt params) = Inr resp" and j: "responseJson resp = Inr js"
    and i: "imagesFromJson rt (extractRateLimit rt (headers resp)) js = Inr r"
    by blast
  from imagesFromJson_Inr [OF i]
  have m: "mapImageResults rt (parseImageHits rt (hitsOf js)) = Inr (results r)"
    and t: "totalHits r = totalHitsOr js (length (results r))"
    by simp_all
  from mapImageResults_Inr [OF m]
  have l: "length (results r) = length (parseImageHits rt (hitsOf js))"
    and e: "map Inr (results r) = map (toImageResult rt) (parseImageHits rt (hitsOf js))"
    by simp_all
  from f j l e t show ?thesis
    unfolding totalHitsOr_case parseImageHits_map_filter length_map_filter by blast
qed

lemma searchVideos_result:
  assumes "searchVideos rt fetch params = Inr vr"
  shows "\<exists>resp js. fetch (videoSearchRequest rt params) = Inr resp
             \<and> responseJson resp = Inr js
             \<and> map vr_id (v_results vr)
                 = map vh_id
                     (filter (\<lambda>h. pickVideoRendition h \<noteq> None)
                        (List.map_filter (pixabayVideoHitSchema rt) (hitsOf js)))
             \<and> length (v_results vr)
                 = length
                     (filter (\<lambda>h. pickVideoRendition h \<noteq> None)
                        (List.map_filter (pixabayVideoHitSchema rt) (hitsOf js)))
             \<and> v_totalHits vr =
                 (case getProp js (str ''totalHits'') of
                    None \<Rightarrow> JNumber (Finite (of_nat (length (v_results vr))))
                  | Some v \<Rightarrow>
                      if v = JNull then JNumber (Finite (of_nat (length (v_results vr))))
                      else v)"
proof -
  from searchVideos_Inr [OF assms] obtain resp js where
    f: "fetch (videoSearchRequest rt params) = Inr resp" and j: "responseJson resp = Inr js"
    and i: "videosFromJson rt (extractRateLimit rt (headers resp)) js = Inr vr"
    by blast
  from videosFromJson_Inr [OF i]
  have m: "videoResultsLoop rt (parseVideoHits rt (hitsOf js)) = Inr (v_results vr)"
    and t: "v_totalHits vr = totalHitsOr js (length (v_results vr))"
    by simp_all
  from videoResultsLoop_ids [OF m]
  have e: "map vr_id (v_results vr)
             = map vh_id (filter (\<lambda>h. pickVideoRendition h \<noteq> None)
                            (parseVideoHits rt (hitsOf js)))" .
  then have "length (map vr_id (v_results vr))
             = length (map vh_id (filter (\<lambda>h. pickVideoRendition h \<noteq> None)
                            (parseVideoHits rt (hitsOf js))))"
    by simp
  then have l: "length (v_results vr)
             = length (filter (\<lambda>h. pickVideoRendition h \<noteq> None)
                            (parseVideoHits rt (hitsOf js)))"
    by simp
  from f j l e t show ?thesis
    unfolding totalHitsOr_case parseVideoHits_map_filter by blast
qed

lemma encode_sample_users:
  "encodeURIComponent (str ''ann'') \<noteq> None" "encodeURIComponent (str ''bob'') \<noteq> None"
  "encodeURIComponent (str ''cy'') \<noteq> None"
  by (simp_all add: str_def isUnreserved_def)

lemma three_hits:
  "hitsOf threeImagesJson
     = [sampleImageHitJson (str ''ann''), sampleImageHitJson (str ''bob''),
        sampleImageHitJson (str ''cy'')]"
  by (simp add: hitsOf_def threeImagesJson_def getProp_def str_def)

lemma sample_hits:
  "hitsOf sampleImageJson
     = [sampleImageHitJson (str ''ann''), JObject [(str ''id'', JString (str ''x''))]]"
  by (simp add: hitsOf_def sampleImageJson_def getProp_def str_def)

lemma empty_hits: "hitsOf (JObject [(str ''hits'', JArray [])]) = []"
  by (simp add: hitsOf_def getProp_def)

text \<open>
  C8. Whenever \<open>searchImages\<close> or \<open>searchVideos\<close> returns a result, the results are
  exactly the hits of the parsed body that survive: for images the hits that pass the image
  schema, each mapped by \<open>toImageResult\<close>, in order; for videos the hits that pass the video
  schema and have a usable rendition, in order. The \<open>totalHits\<close> of the result is the field
  \<open>totalHits\<close> of the parsed body when that field is present and not \<open>null\<close>, and the
  number of these surviving results otherwise. A result is returned whenever the response is
  ok, its body parses to a value other than \<open>null\<close>, and the user name of every surviving
  hit can be encoded.
\<close>

theorem total_hits_reported:
  "(searchImages rt fetch params = Inr r
      \<longrightarrow> (\<exists>resp js. fetch (imageSearchRequest rt params) = Inr resp
             \<and> responseJson resp = Inr js
             \<and> map Inr (results r)
                 = map (toImageResult rt)
                     (List.map_filter (pixabayImageHitSchema rt) (hitsOf js))
             \<and> length (results r)
                 = length (filter (\<lambda>h. pixabayImageHitSchema rt h \<noteq> None) (hitsOf js))
             \<and> totalHits r =
                 (case getProp js (str ''totalHits'') of
                    None \<Rightarrow> JNumber (Finite (of_nat (length (results r))))
                  | Some v \<Rightarrow>
                      if v = JNull then JNumber (Finite (of_nat (length (results r)))) else v)))
   \<and> (searchVideos rt fetch params = Inr vr
      \<longrightarrow> (\<exists>resp js. fetch (videoSearchRequest rt params) = Inr resp
             \<and> responseJson resp = Inr js
             \<and> map vr_id (v_results vr)
                 = map vh_id
                     (filter (\<lambda>h. pickVideoRendition h \<noteq> None)
                        (List.map_filter (pixabayVideoHitSchema rt) (hitsOf js)))
             \<and> length (v_results vr)
                 = length
                     (filter (\<lambda>h. pickVideoRendition h \<noteq> None)
                        (List.map_filter (pixabayVideoHitSchema rt) (hitsOf js)))
             \<and> v_totalHits vr =
                 (case getProp js (str ''totalHits'') of
                    None \<Rightarrow> JNumber (Finite (of_nat (length (v_results vr))))
                  | Some v \<Rightarrow>
                      if v = JNull then JNumber (Finite (of_nat (length (v_results vr))))
                      else v)))
   \<and> (fetch (imageSearchRequest rt params) = Inr resp \<and> ok resp
        \<and> responseJson resp = Inr js \<and> js \<noteq> JNull
        \<and> (\<forall>h \<in> set (List.map_filter (pixabayImageHitSchema rt) (hitsOf js)).
               encodeURIComponent (ih_user h) \<noteq> None)
      \<longrightarrow> (\<exists>r'. searchImages rt fetch params = Inr r'))
   \<and> (fetch (videoSearchRequest rt params) = Inr resp \<and> ok resp
        \<and> responseJson resp = Inr js \<and> js \<noteq> JNull
        \<and> (\<forall>h \<in> set (List.map_filter (pixabayVideoHitSchema rt) (hitsOf js)).
               pickVideoRendition h \<noteq> None \<longrightarrow> encodeURIComponent (vh_user h) \<noteq> None)
      \<longrightarrow> (\<exists>vr'. searchVideos rt fetch params = Inr vr'))"
proof (intro conjI impI)
  assume "searchImages rt fetch params = Inr r"
  then show "\<exists>resp js. fetch (imageSearchRequest rt params) = Inr resp
             \<and> responseJson resp = Inr js
             \<and> map Inr (results r)
                 = map (toImageResult rt)
                     (List.map_filter (pixabayImageHitSchema rt) (hitsOf js))
             \<and> length (results r)
                 = length (filter (\<lambda>h. pixabayImageHitSchema rt h \<noteq> None) (hitsOf js))
             \<and> totalHits r =
                 (case getProp js (str ''totalHits'') of
                    None \<Rightarrow> JNumber (Finite (of_nat (length (results r))))
                  | Some v \<Rightarrow>
                      if v = JNull then JNumber (Finite (of_nat (length (results r)))) else v)"
    by (rule searchImages_result)
next
  assume "searchVideos rt fetch params = Inr vr"
  then show "\<exists>resp js. fetch (videoSearchRequest rt params) = Inr resp
             \<and> responseJson resp = Inr js
             \<and> map vr_id (v_results vr)
                 = map vh_id
                     (filter (\<lambda>h. pickVideoRendition h \<noteq> None)
                        (List.map_filter (pixabayVideoHitSchema rt) (hitsOf js)))
             \<and> length (v_results vr)
                 = length
                     (filter (\<lambda>h. pickVideoRendition h \<noteq> None)
                        (List.map_filter (pixabayVideoHitSchema rt) (hitsOf js)))
             \<and> v_totalHits vr =
                 (case getProp js (str ''totalHits'') of
                    None \<Rightarrow> JNumber (Finite (of_nat (length (v_results vr))))
                  | Some v \<Rightarrow>
                      if v = JNull then JNumber (Finite (of_nat (length (v_results vr))))
                      else v)"
    by (rule searchVideos_result)
next
  assume "fetch (imageSearchRequest rt params) = Inr resp \<and> ok resp
        \<and> responseJson resp = Inr js \<and> js \<noteq> JNull
        \<and> (\<forall>h \<in> set (List.map_filter (pixabayImageHitSchema rt) (hitsOf js)).
               encodeURIComponent (ih_user h) \<noteq> None)"
  then show "\<exists>r'. searchImages rt fetch params = Inr r'"
    using searchImages_returns [of fetch rt params resp js] by blast
next
  assume "fetch (videoSearchRequest rt params) = Inr resp \<and> ok resp
        \<and> responseJson resp = Inr js \<and> js \<noteq> JNull
        \<and> (\<forall>h \<in> set (List.map_filter (pixabayVideoHitSchema rt) (hitsOf js)).
               pickVideoRendition h \<noteq> None \<longrightarrow> encodeURIComponent (vh_user h) \<noteq> None)"
  then show "\<exists>vr'. searchVideos rt fetch params = Inr vr'"
    using searchVideos_returns [of fetch rt params resp js] by blast
qed

text \<open>C8 at three bodies for images (three valid hits, one valid and one invalid hit, no hit
  and no \<open>totalHits\<close>) and at the sample body for videos.\<close>

theorem total_hits_reported_witness:
  "(\<exists>r. searchImages sampleRuntime (\<lambda>req. Inr (okResponse threeImagesBody)) sampleParams = Inr r
        \<and> getProp threeImagesJson (str ''totalHits'') = Some (JNumber (Finite 120))
        \<and> length (results r) = 3 \<and> totalHits r = JNumber (Finite 120))
   \<and> (\<exists>r. searchImages sampleRuntime (\<lambda>req. Inr (okResponse sampleImageBody)) sampleParams = Inr r
        \<and> length (hitsOf sampleImageJson) = 2
        \<and> length (results r) = 1 \<and> totalHits r = JNumber (Finite 120))
   \<and> (\<exists>r. searchImages sampleRuntime (\<lambda>req. Inr (okResponse emptyHitsBody)) sampleParams = Inr r
        \<and> getProp (JObject [(str ''hits'', JArray [])]) (str ''totalHits'') = None
        \<and> length (results r) = 0 \<and> totalHits r = JNumber (Finite 0))
   \<and> (\<exists>vr. searchVideos sampleRuntime (\<lambda>req. Inr (okResponse sampleVideoBody)) sampleParams
             = Inr vr
        \<and> getProp sampleVideoJson (str ''totalHits'') = None
        \<and> length (v_results vr) = 1 \<and> v_totalHits vr = JNumber (Finite 1))"
proof -
  have okr: "ok (okResponse body)" for body
    by (simp add: ok_def okResponse_def)
  have img: "\<exists>r. searchImages sampleRuntime (\<lambda>req. Inr (okResponse body)) sampleParams = Inr r
        \<and> length (results r)
            = length (filter (\<lambda>h. pixabayImageHitSchema sampleRuntime h \<noteq> None) (hitsOf js))
        \<and> totalHits r =
            (case getProp js (str ''totalHits'') of
               None \<Rightarrow> JNumber (Finite (of_nat (length (results r))))
             | Some v \<Rightarrow>
                 if v = JNull then JNumber (Finite (of_nat (length (results r)))) else v)"
    if p: "JSON_parse body = Some js" and nn: "js \<noteq> JNull"
      and en: "\<forall>h \<in> set (List.map_filter (pixabayImageHitSchema sampleRuntime) (hitsOf js)).
                 encodeURIComponent (ih_user h) \<noteq> None"
    for body js
  proof -
    have rj: "responseJson (okResponse body) = Inr js"
      using p by (simp add: responseJson_ok)
    from total_hits_reported
           [of sampleRuntime "\<lambda>req. Inr (okResponse body)" sampleParams _ _ "okResponse body" js,
            THEN conjunct2, THEN conjunct2, THEN conjunct1]
         okr rj nn en
    obtain r where r: "searchImages sampleRuntime (\<lambda>req. Inr (okResponse body)) sampleParams
                         = Inr r"
      by blast
    from total_hits_reported
           [of sampleRuntime "\<lambda>req. Inr (okResponse body)" sampleParams r,
            THEN conjunct1, rule_format, OF r]
    obtain resp js' where
      a: "Inr (okResponse body) = (Inr resp :: error + response)"
      and b: "responseJson resp = Inr js'"
      and c: "length (results r)
            = length (filter (\<lambda>h. pixabayImageHitSchema sampleRuntime h \<noteq> None) (hitsOf js'))"
      and d: "totalHits r =
            (case getProp js' (str ''totalHits'') of
               None \<Rightarrow> JNumber (Finite (of_nat (length (results r))))
             | Some v \<Rightarrow>
                 if v = JNull then JNumber (Finite (of_nat (length (results r)))) else v)"
      by blast
    from a b rj have "js' = js" by simp
    with r c d show ?thesis by blast
  qed
  have vid: "\<exists>vr. searchVideos sampleRuntime (\<lambda>req. Inr (okResponse body)) sampleParams = Inr vr
        \<and> length (v_results vr)
            = length (filter (\<lambda>h. pickVideoRendition h \<noteq> None)
                        (List.map_filter (pixabayVideoHitSchema sampleRuntime) (hitsOf js)))
        \<and> v_totalHits vr =
            (case getProp js (str ''totalHits'') of
               None \<Rightarrow> JNumber (Finite (of_nat (length (v_results vr))))
             | Some v \<Rightarrow>
                 if v = JNull then JNumber (Finite (of_nat (length (v_results vr)))) else v)"
    if p: "JSON_parse body = Some js" and nn: "js \<noteq> JNull"
      and en: "\<forall>h \<in> set (List.map_filter (pixabayVideoHitSchema sampleRuntime) (hitsOf js)).
                 pickVideoRendition h \<noteq> None \<longrightarrow> encodeURIComponent (vh_user h) \<noteq> None"
    for body js
  proof -
    have rj: "responseJson (okResponse body) = Inr js"
      using p by (simp add: responseJson_ok)
    from total_hits_reported
           [of sampleRuntime "\<lambda>req. Inr (okResponse body)" sampleParams _ _ "okResponse body" js,
            THEN conjunct2, THEN conjunct2, THEN conjunct2]
         okr rj nn en
    obtain vr where vr: "searchVideos sampleRuntime (\<lambda>req. Inr (okResponse body)) sampleParams
                         = Inr vr"
      by blast
    from total_hits_reported
           [of sampleRuntime "\<lambda>req. Inr (okResponse body)" sampleParams _ vr,
            THEN conjunct2, THEN conjunct1, rule_format, OF vr]
    obtain resp js' where
      a: "Inr (okResponse body) = (Inr resp :: error + response)"
      and b: "responseJson resp = Inr js'"
      and c: "length (v_results vr)
            = length (filter (\<lambda>h. pickVideoRendition h \<noteq> None)
                        (List.map_filter (pixabayVideoHitSchema sampleRuntime) (hitsOf js')))"
      and d: "v_totalHits vr =
            (case getProp js' (str ''totalHits'') of
               None \<Rightarrow> JNumber (Finite (of_nat (length (v_results vr))))
             | Some v \<Rightarrow>
                 if v = JNull then JNumber (Finite (of_nat (length (v_results vr)))) else v)"
      by blast
    from a b rj have "js' = js" by simp
    with vr c d show ?thesis by blast
  qed
  have g3: "getProp threeImagesJson (str ''totalHits'') = Some (JNumber (Finite 120))"
    by (simp add: threeImagesJson_def getProp_def str_def)
  have g1: "getProp sampleImageJson (str ''totalHits'') = Some (JNumber (Finite 120))"
    by (simp add: sampleImageJson_def getProp_def str_def)
  have g0: "getProp (JObject [(str ''hits'', JArray [])]) (str ''totalHits'') = None"
    by (simp add: getProp_def str_def)
  have gv: "getProp sampleVideoJson (str ''totalHits'') = None"
    by (simp add: sampleVideoJson_def getProp_def str_def)
  have n3: "threeImagesJson \<noteq> JNull" by (simp add: threeImagesJson_def)
  have n1: "sampleImageJson \<noteq> JNull" by (simp add: sampleImageJson_def)
  have nv: "sampleVideoJson \<noteq> JNull" by (simp add: sampleVideoJson_def)
  have f3: "length (filter (\<lambda>h. pixabayImageHitSchema sampleRuntime h \<noteq> None)
                      (hitsOf threeImagesJson)) = 3"
    by (simp add: three_hits sampleImageHit_parse)
  have f1: "length (filter (\<lambda>h. pixabayImageHitSchema sampleRuntime h \<noteq> None)
                      (hitsOf sampleImageJson)) = 1"
    by (simp add: sample_hits sampleImageHit_parse sample_invalid_hit)
  have e3: "\<forall>h \<in> set (List.map_filter (pixabayImageHitSchema sampleRuntime)
                         (hitsOf threeImagesJson)). encodeURIComponent (ih_user h) \<noteq> None"
    using encode_sample_users
    by (simp add: three_hits sampleImageHit_parse)
  have e1: "\<forall>h \<in> set (List.map_filter (pixabayImageHitSchema sampleRuntime)
                         (hitsOf sampleImageJson)). encodeURIComponent (ih_user h) \<noteq> None"
    using encode_sample_users
    by (simp add: sample_hits sampleImageHit_parse sample_invalid_hit)
  have e0: "\<forall>h \<in> set (List.map_filter (pixabayImageHitSchema sampleRuntime)
                         (hitsOf (JObject [(str ''hits'', JArray [])]))).
              encodeURIComponent (ih_user h) \<noteq> None"
    by (simp add: empty_hits)
  have c3: "\<exists>r. searchImages sampleRuntime (\<lambda>req. Inr (okResponse threeImagesBody)) sampleParams
                 = Inr r
        \<and> getProp threeImagesJson (str ''totalHits'') = Some (JNumber (Finite 120))
        \<and> length (results r) = 3 \<and> totalHits r = JNumber (Finite 120)"
    using img [OF threeImagesBody_parse n3 e3] unfolding f3 g3
    by simp
  have c1: "\<exists>r. searchImages sampleRuntime (\<lambda>req. Inr (okResponse sampleImageBody)) sampleParams
                 = Inr r
        \<and> length (hitsOf sampleImageJson) = 2
        \<and> length (results r) = 1 \<and> totalHits r = JNumber (Finite 120)"
    using img [OF sampleImageBody_parse n1 e1] unfolding f1 g1
    by (simp add: sample_hits)
  have c0: "\<exists>r. searchImages sampleRuntime (\<lambda>req. Inr (okResponse emptyHitsBody)) sampleParams
                 = Inr r
        \<and> getProp (JObject [(str ''hits'', JArray [])]) (str ''totalHits'') = None
        \<and> length (results r) = 0 \<and> totalHits r = JNumber (Finite 0)"
    using img [OF emptyHitsBody_parse _ e0] unfolding empty_hits g0
    by auto
  have vh: "List.map_filter (pixabayVideoHitSchema sampleRuntime) (hitsOf sampleVideoJson)
              = [sampleVideoHit]"
    using sample_video_hits by (simp add: parseVideoHits_map_filter)
  have ev: "\<forall>h \<in> set (List.map_filter (pixabayVideoHitSchema sampleRuntime)
                         (hitsOf sampleVideoJson)).
              pickVideoRendition h \<noteq> None \<longrightarrow> encodeURIComponent (vh_user h) \<noteq> None"
    using encode_sample_users(1) by (simp add: vh sampleVideoHit_def)
  have fv: "length (filter (\<lambda>h. pickVideoRendition h \<noteq> None)
                      (List.map_filter (pixabayVideoHitSchema sampleRuntime)
                         (hitsOf sampleVideoJson))) = 1"
    by (simp add: vh sample_pick)
  have cv: "\<exists>vr. searchVideos sampleRuntime (\<lambda>req. Inr (okResponse sampleVideoBody)) sampleParams
             = Inr vr
        \<and> getProp sampleVideoJson (str ''totalHits'') = None
        \<and> length (v_results vr) = 1 \<and> v_totalHits vr = JNumber (Finite 1)"
    using vid [OF sampleVideoBody_parse nv ev] unfolding fv gv
    by auto
  from c3 c1 c0 cv show ?thesis by (intro conjI)
qed

lemma videoResultsLoop_urls:
  "videoResultsLoop rt hits = Inr rs \<Longrightarrow> v \<in> set rs
     \<Longrightarrow> \<exists>s. vr_videoUrl v = trim s \<and> httpRegexTest (trim s)"
proof (induction hits arbitrary: rs)
  case Nil
  then show ?case by simp
next
  case (Cons hit hits)
  show ?case
  proof (cases "pickVideoRendition hit")
    case None
    with Cons show ?thesis by simp
  next
    case (Some r)
    then have "sanitizeUrl (Some (rd_url r)) \<noteq> None"
      unfolding pickVideoRendition_def by (rule pickLoop_Some)
    then obtain t where t: "sanitizeUrl (Some (rd_url r)) = Some t" by auto
    then have tt: "t = trim (rd_url r)" "httpRegexTest (trim (rd_url r))"
      using sanitizeUrl_Some_iff [of "Some (rd_url r)" t] by auto
    from Cons.prems(1) Some t obtain p rs' w where
      rec: "videoResultsLoop rt hits = Inr rs'" and rs: "rs = w # rs'"
      and w: "vr_videoUrl w = t"
      by (auto simp: Let_def split: option.splits sum.splits)
    from Cons.prems(2) rs consider "v = w" | "v \<in> set rs'" by auto
    then show ?thesis
    proof cases
      case 1
      with w tt show ?thesis by blast
    next
      case 2
      with Cons.IH [OF rec] show ?thesis by blast
    qed
  qed
qed

text \<open>
  C10. A rendition returned by \<open>pickVideoRendition\<close> has a URL that \<open>sanitizeUrl\<close>
  accepts, so the second \<open>continue\<close> of the loop of \<open>searchVideos\<close> is never taken;
  and the \<open>videoUrl\<close> of every result is trimmed and passes the http(s) prefix test.
\<close>

theorem selected_rendition_url_is_sanitized:
  "(pickVideoRendition hit = Some r
      \<longrightarrow> sanitizeUrl (Some (rd_url r)) = Some (trim (rd_url r))
        \<and> httpRegexTest (trim (rd_url r)))
   \<and> (videoResultsLoop rt hits = Inr rs
      \<longrightarrow> (\<forall>v \<in> set rs. trim (vr_videoUrl v) = vr_videoUrl v \<and> httpRegexTest (vr_videoUrl v)))
   \<and> (searchVideos rt fetch params = Inr res
      \<longrightarrow> (\<forall>v \<in> set (v_results res).
             trim (vr_videoUrl v) = vr_videoUrl v \<and> httpRegexTest (vr_videoUrl v)))"
proof -
  have a: "pickVideoRendition hit = Some r
      \<longrightarrow> sanitizeUrl (Some (rd_url r)) = Some (trim (rd_url r))
        \<and> httpRegexTest (trim (rd_url r))"
  proof
    assume "pickVideoRendition hit = Some r"
    then have "sanitizeUrl (Some (rd_url r)) \<noteq> None"
      unfolding pickVideoRendition_def by (rule pickLoop_Some)
    then show "sanitizeUrl (Some (rd_url r)) = Some (trim (rd_url r))
        \<and> httpRegexTest (trim (rd_url r))"
      using sanitizeUrl_Some_iff [of "Some (rd_url r)"] by auto
  qed
  have loop: "\<forall>v \<in> set xs. trim (vr_videoUrl v) = vr_videoUrl v \<and> httpRegexTest (vr_videoUrl v)"
    if "videoResultsLoop rt hs = Inr xs" for hs xs
    using videoResultsLoop_urls [OF that] trim_idem by metis
  have b: "videoResultsLoop rt hits = Inr rs
      \<longrightarrow> (\<forall>v \<in> set rs. trim (vr_videoUrl v) = vr_videoUrl v \<and> httpRegexTest (vr_videoUrl v))"
    using loop by blast
  have c: "searchVideos rt fetch params = Inr res
      \<longrightarrow> (\<forall>v \<in> set (v_results res).
             trim (vr_videoUrl v) = vr_videoUrl v \<and> httpRegexTest (vr_videoUrl v))"
  proof
    assume "searchVideos rt fetch params = Inr res"
    then obtain hs where "videoResultsLoop rt hs = Inr (v_results res)"
      by (auto simp: searchVideos_def videosFromJson_def Let_def
               split: sum.splits if_splits)
    then show "\<forall>v \<in> set (v_results res).
             trim (vr_videoUrl v) = vr_videoUrl v \<and> httpRegexTest (vr_videoUrl v)"
      by (rule loop)
  qed
  from a b c show ?thesis by blast
qed



text \<open>C10 at the sample hit and the sample body.\<close>

theorem selected_rendition_url_is_sanitized_witness:
  "pickVideoRendition sampleVideoHit
     = Some \<lparr> rd_url = str ''https://c/s.mp4'', rd_width = Finite 640,
              rd_height = Finite 360, rd_size = None, rd_thumbnail = None \<rparr>
   \<and> sanitizeUrl (Some (str ''https://c/s.mp4'')) = Some (str ''https://c/s.mp4'')
   \<and> (\<exists>v. videoResultsLoop sampleRuntime [sampleVideoHit] = Inr [v]
          \<and> trim (vr_videoUrl v) = vr_videoUrl v \<and> httpRegexTest (vr_videoUrl v))
   \<and> (\<exists>res. searchVideos sampleRuntime (\<lambda>req. Inr (okResponse sampleVideoBody)) sampleParams
              = Inr res
          \<and> v_results res \<noteq> []
          \<and> list_all (\<lambda>v. trim (vr_videoUrl v) = vr_videoUrl v \<and> httpRegexTest (vr_videoUrl v))
               (v_results res))"
proof -
  from sample_video_loop obtain v where
    v: "videoResultsLoop sampleRuntime [sampleVideoHit] = Inr [v]" ..
  from sample_search_videos obtain res where
    res: "searchVideos sampleRuntime (\<lambda>req. Inr (okResponse sampleVideoBody)) sampleParams
            = Inr res"
    and ne: "v_results res \<noteq> []"
    by force
  have tr: "trim (str ''https://c/s.mp4'') = str ''https://c/s.mp4''"
    by (simp add: string_eval)
  note inst = selected_rendition_url_is_sanitized
         [of sampleVideoHit
             "\<lparr> rd_url = str ''https://c/s.mp4'', rd_width = Finite 640,
                rd_height = Finite 360, rd_size = None, rd_thumbnail = None \<rparr>"
             sampleRuntime "[sampleVideoHit]" "[v]"
             "\<lambda>req. Inr (okResponse sampleVideoBody)" sampleParams res]
  from inst sample_pick have a: "sanitizeUrl (Some (str ''https://c/s.mp4'')) = Some (str ''https://c/s.mp4'')"
    by (simp add: tr del: videoResultsLoop.simps)
  from inst v have b: "trim (vr_videoUrl v) = vr_videoUrl v \<and> httpRegexTest (vr_videoUrl v)"
    by (simp del: videoResultsLoop.simps)
  from inst res have c: "list_all (\<lambda>v. trim (vr_videoUrl v) = vr_videoUrl v
                          \<and> httpRegexTest (vr_videoUrl v)) (v_results res)"
    by (simp add: list_all_iff del: videoResultsLoop.simps)
  from sample_pick a v b res ne c show ?thesis by blast
qed



section \<open>The input validator\<close>

text \<open>
  The issues of each field, and of the strict object, characterised one by one.
\<close>

lemma queryIssues_Nil:
  "queryIssues v = [] \<longleftrightarrow> (\<exists>s. v = Some (JString s) \<and> 1 \<le> length (trim s) \<and> length (trim s) \<le> 100)"
  by (auto simp: queryIssues_def Suc_le_eq split: option.splits json.splits)

lemma orientationIssues_Nil:
  "orientationIssues v = [] \<longleftrightarrow>
     (v = None \<or> (\<exists>s. v = Some (JString s)
         \<and> (s = str ''all'' \<or> s = str ''horizontal'' \<or> s = str ''vertical'')))"
  by (auto simp: orientationIssues_def orientationValues_def split: option.splits json.splits)

lemma safesearchIssues_Nil:
  "safesearchIssues v = [] \<longleftrightarrow> (v = None \<or> (\<exists>b. v = Some (JBool b)))"
  by (auto simp: safesearchIssues_def split: option.splits json.splits)

lemma perPageIssues_Nil:
  "perPageIssues v = [] \<longleftrightarrow>
     (v = None \<or> (\<exists>q. v = Some (JNumber (Finite q)) \<and> of_int \<lfloor>q\<rfloor> = q \<and> 3 \<le> q \<and> q \<le> 20))"
  by (auto simp: perPageIssues_def isInteger_def numLess_def maxPerPage_def
           split: option.splits json.splits jsnumber.splits)

lemma strictIssues_Nil:
  "strictIssues kvs = [] \<longleftrightarrow>
     list_all (\<lambda>k. k = str ''query'' \<or> k = str ''orientation'' \<or> k = str ''safesearch''
                   \<or> k = str ''per_page'') (map fst kvs)"
  by (auto simp: strictIssues_def extraKeys_def shapeKeys_def filter_empty_conv list_all_iff)

lemma inputIssues_Nil: "inputIssues raw = [] \<longleftrightarrow> spec_inputValid_amended raw"
proof (cases raw)
  case (JObject kvs)
  show ?thesis
    unfolding JObject inputIssues_def spec_inputValid_amended_def spec_inputValid_def
    by (simp add: queryIssues_Nil orientationIssues_Nil safesearchIssues_Nil perPageIssues_Nil
          strictIssues_Nil split: option.splits json.splits jsnumber.splits)
qed (simp_all add: inputIssues_def spec_inputValid_amended_def spec_inputValid_def)


lemma per_page_max_message:
  "str ''per_page must be between 3 and '' @ digitsOf maxPerPage @ str ''.''
     = str ''per_page must be between 3 and 20.''"
  by (simp add: maxPerPage_def digitsOf.simps str_def)

lemma inputIssues_object:
  "inputIssues (JObject kvs) =
     queryIssues (getProp (JObject kvs) (str ''query''))
     @ orientationIssues (getProp (JObject kvs) (str ''orientation''))
     @ safesearchIssues (getProp (JObject kvs) (str ''safesearch''))
     @ perPageIssues (getProp (JObject kvs) (str ''per_page''))
     @ strictIssues kvs"
  by (simp add: inputIssues_def)

lemma inputIssues_not_object:
  "\<not> isObject raw \<Longrightarrow>
     inputIssues raw = [\<lparr> iss_code = invalid_type, iss_path = [], iss_received = Some raw,
                          iss_message = None \<rparr>]"
  by (cases raw) (simp_all add: inputIssues_def isObject_def)

lemma query_messages:
  "iss_message ` set (queryIssues v) =
     (case v of
        Some (JString s) \<Rightarrow>
          (if trim s = [] then {Some (str ''Please provide a search query.'')} else {})
          \<union> (if length (trim s) > 100
              then {Some (str ''Queries must be 100 characters or fewer.'')} else {})
      | _ \<Rightarrow> {None})"
proof (cases v)
  case None
  then show ?thesis by (simp add: queryIssues_def issue_def)
next
  case (Some x)
  then show ?thesis by (cases x) (auto simp: queryIssues_def issue_def)
qed

lemma orientation_messages: "iss_message ` set (orientationIssues v) \<subseteq> {None}"
proof (cases v)
  case None
  then show ?thesis by (simp add: orientationIssues_def)
next
  case (Some x)
  then show ?thesis by (cases x) (auto simp: orientationIssues_def issue_def)
qed

lemma safesearch_messages: "iss_message ` set (safesearchIssues v) \<subseteq> {None}"
proof (cases v)
  case None
  then show ?thesis by (simp add: safesearchIssues_def)
next
  case (Some x)
  then show ?thesis by (cases x) (auto simp: safesearchIssues_def issue_def)
qed

lemma strict_messages: "iss_message ` set (strictIssues kvs) \<subseteq> {None}"
  by (auto simp: strictIssues_def)

lemma perPage_messages:
  "iss_message ` set (perPageIssues v) - {None} =
     (case v of
        Some (JNumber n) \<Rightarrow>
          if numLess n (Finite 3) \<or> numLess (Finite 20) n
          then {Some (str ''per_page must be between 3 and 20.'')} else {}
      | _ \<Rightarrow> {})"
proof (cases v)
  case None
  then show ?thesis by (simp add: perPageIssues_def)
next
  case (Some x)
  show ?thesis
  proof (cases x)
    case (JNumber n)
    have nan: "\<not> numLess NaN (Finite 3)" "\<not> numLess (Finite 20) NaN"
      by (simp_all add: numLess_def)
    show ?thesis
      unfolding Some JNumber perPageIssues_def per_page_max_message
      using nan by (auto simp: issue_def maxPerPage_def)
  qed (use Some in \<open>auto simp: perPageIssues_def issue_def\<close>)
qed


lemma path_distinct:
  "str ''query'' \<noteq> str ''orientation''" "str ''query'' \<noteq> str ''safesearch''"
  "str ''query'' \<noteq> str ''per_page''" "str ''orientation'' \<noteq> str ''safesearch''"
  "str ''orientation'' \<noteq> str ''per_page''" "str ''safesearch'' \<noteq> str ''per_page''"
  by (simp_all add: str_def)

lemma queryIssues_shape:
  "i \<in> set (queryIssues v) \<Longrightarrow> iss_path i = [str ''query'']"
  by (cases v; (cases "the v")?) (auto simp: queryIssues_def issue_def split: if_splits)

lemma orientationIssues_shape:
  "i \<in> set (orientationIssues v) \<Longrightarrow> iss_path i = [str ''orientation'']"
  by (cases v; (cases "the v")?) (auto simp: orientationIssues_def issue_def split: if_splits)

lemma safesearchIssues_shape:
  "i \<in> set (safesearchIssues v) \<Longrightarrow> iss_path i = [str ''safesearch'']"
  by (cases v; (cases "the v")?) (auto simp: safesearchIssues_def issue_def split: if_splits)

lemma perPageIssues_shape:
  "i \<in> set (perPageIssues v) \<Longrightarrow> iss_path i = [str ''per_page'']"
  by (cases v; (cases "the v")?) (auto simp: perPageIssues_def issue_def split: if_splits)

lemma strictIssues_shape:
  "i \<in> set (strictIssues kvs) \<Longrightarrow> iss_path i = [] \<and> (\<exists>ks. iss_code i = unrecognized_keys ks)"
  by (auto simp: strictIssues_def split: if_splits)

lemma field_codes:
  "i \<in> set (queryIssues v) \<Longrightarrow> iss_code i \<noteq> unrecognized_keys ks"
  "i \<in> set (orientationIssues v) \<Longrightarrow> iss_code i \<noteq> unrecognized_keys ks"
  "i \<in> set (safesearchIssues v) \<Longrightarrow> iss_code i \<noteq> unrecognized_keys ks"
  "i \<in> set (perPageIssues v) \<Longrightarrow> iss_code i \<noteq> unrecognized_keys ks"
  by ((cases v; (cases "the v")?),
      auto simp: queryIssues_def orientationIssues_def safesearchIssues_def perPageIssues_def
                 issue_def split: if_splits)+

lemma query_type_issue:
  "(\<exists>i \<in> set (queryIssues v). iss_code i = invalid_type) \<longleftrightarrow> (\<forall>s. v \<noteq> Some (JString s))"
  by (cases v; (cases "the v")?) (auto simp: queryIssues_def issue_def)

lemma orientation_issue:
  "orientationIssues v \<noteq> [] \<longleftrightarrow>
     v \<noteq> None \<and> (\<forall>s. v = Some (JString s) \<longrightarrow> s \<notin> set orientationValues)"
  by (cases v; (cases "the v")?) (auto simp: orientationIssues_def)

lemma safesearch_issue:
  "safesearchIssues v \<noteq> [] \<longleftrightarrow> v \<noteq> None \<and> (\<forall>b. v \<noteq> Some (JBool b))"
  by (cases v; (cases "the v")?) (auto simp: safesearchIssues_def)

lemma perPage_type_issue:
  "(\<exists>i \<in> set (perPageIssues v). iss_code i = invalid_type) \<longleftrightarrow>
     v \<noteq> None \<and> (\<forall>n. v = Some (JNumber n) \<longrightarrow> \<not> isInteger n)"
proof (cases v)
  case None
  then show ?thesis by (simp add: perPageIssues_def)
next
  case (Some x)
  show ?thesis
  proof (cases x)
    case (JNumber n)
    have "\<not> isInteger NaN" by (simp add: isInteger_def)
    then show ?thesis
      unfolding Some JNumber by (auto simp: perPageIssues_def issue_def)
  qed (use Some in \<open>auto simp: perPageIssues_def issue_def\<close>)
qed

lemma strict_issue:
  "strictIssues kvs \<noteq> [] \<longleftrightarrow> \<not> list_all (\<lambda>k. k \<in> set shapeKeys) (map fst kvs)"
  by (auto simp: strictIssues_def extraKeys_def filter_empty_conv list_all_iff)


lemma msg_distinct:
  "str ''Please provide a search query.'' \<noteq> str ''Queries must be 100 characters or fewer.''"
  "str ''Please provide a search query.'' \<noteq> str ''per_page must be between 3 and 20.''"
  "str ''Queries must be 100 characters or fewer.'' \<noteq> str ''per_page must be between 3 and 20.''"
  by (simp_all add: str_def)

lemma custom_message_mem:
  "Some x \<in> iss_message ` set (inputIssues (JObject kvs)) \<longleftrightarrow>
     Some x \<in> iss_message ` set (queryIssues (getProp (JObject kvs) (str ''query'')))
     \<or> Some x \<in> iss_message ` set (perPageIssues (getProp (JObject kvs) (str ''per_page'')))
                - {None}"
  using orientation_messages [of "getProp (JObject kvs) (str ''orientation'')"]
    safesearch_messages [of "getProp (JObject kvs) (str ''safesearch'')"]
    strict_messages [of kvs]
  unfolding inputIssues_object set_append image_Un
  by blast

lemma query_msg_short:
  "Some (str ''Please provide a search query.'') \<in> iss_message ` set (queryIssues v)
     \<longleftrightarrow> (\<exists>s. v = Some (JString s) \<and> length (trim s) = 0)"
proof (cases v)
  case None
  then show ?thesis by (simp add: query_messages)
next
  case (Some y)
  then show ?thesis
    using msg_distinct by (cases y) (simp_all add: query_messages)
qed

lemma query_msg_long:
  "Some (str ''Queries must be 100 characters or fewer.'') \<in> iss_message ` set (queryIssues v)
     \<longleftrightarrow> (\<exists>s. v = Some (JString s) \<and> length (trim s) > 100)"
proof (cases v)
  case None
  then show ?thesis by (simp add: query_messages)
next
  case (Some y)
  then show ?thesis
    using msg_distinct by (cases y) (auto simp: query_messages)
qed

lemma query_msg_other:
  "Some (str ''per_page must be between 3 and 20.'') \<notin> iss_message ` set (queryIssues v)"
proof (cases v)
  case None
  then show ?thesis by (simp add: query_messages)
next
  case (Some y)
  then show ?thesis
    using msg_distinct by (cases y) (auto simp: query_messages)
qed

lemma perPage_msg:
  "Some x \<in> iss_message ` set (perPageIssues v) - {None}
     \<longleftrightarrow> x = str ''per_page must be between 3 and 20.''
       \<and> (\<exists>n. v = Some (JNumber n) \<and> (numLess n (Finite 3) \<or> numLess (Finite 20) n))"
proof (cases v)
  case None
  then show ?thesis by (simp add: perPage_messages)
next
  case (Some y)
  then show ?thesis
    by (cases y) (auto simp: perPage_messages)
qed

lemma input_msg_short:
  "Some (str ''Please provide a search query.'') \<in> iss_message ` set (inputIssues raw)
      \<longleftrightarrow> isObject raw
        \<and> (\<exists>s. getProp raw (str ''query'') = Some (JString s) \<and> length (trim s) = 0)"
proof (cases "isObject raw")
  case True
  then obtain kvs where raw: "raw = JObject kvs" by (cases raw) (auto simp: isObject_def)
  show ?thesis
    unfolding raw custom_message_mem query_msg_short perPage_msg
    using msg_distinct by (simp add: isObject_def)
next
  case False
  then show ?thesis by (simp add: inputIssues_not_object)
qed

lemma input_msg_long:
  "Some (str ''Queries must be 100 characters or fewer.'')
        \<in> iss_message ` set (inputIssues raw)
      \<longleftrightarrow> isObject raw
        \<and> (\<exists>s. getProp raw (str ''query'') = Some (JString s) \<and> length (trim s) > 100)"
proof (cases "isObject raw")
  case True
  then obtain kvs where raw: "raw = JObject kvs" by (cases raw) (auto simp: isObject_def)
  show ?thesis
    unfolding raw custom_message_mem query_msg_long perPage_msg
    using msg_distinct by (simp add: isObject_def)
next
  case False
  then show ?thesis by (simp add: inputIssues_not_object)
qed

lemma input_msg_per_page:
  "Some (str ''per_page must be between 3 and 20.'') \<in> iss_message ` set (inputIssues raw)
      \<longleftrightarrow> isObject raw
        \<and> (\<exists>n. getProp raw (str ''per_page'') = Some (JNumber n)
               \<and> (numLess n (Finite 3) \<or> numLess (Finite 20) n))"
proof (cases "isObject raw")
  case True
  then obtain kvs where raw: "raw = JObject kvs" by (cases raw) (auto simp: isObject_def)
  show ?thesis
    unfolding raw custom_message_mem perPage_msg
    using query_msg_other by (simp add: isObject_def)
next
  case False
  then show ?thesis by (simp add: inputIssues_not_object)
qed


lemma input_query_type:
  "((\<exists>i \<in> set (inputIssues raw). iss_path i = [str ''query''] \<and> iss_code i = invalid_type)
      \<longleftrightarrow> isObject raw \<and> (\<forall>s. getProp raw (str ''query'') \<noteq> Some (JString s)))"
proof (cases "isObject raw")
  case True
  then obtain kvs where raw: "raw = JObject kvs" by (cases raw) (auto simp: isObject_def)
  have "(\<exists>i \<in> set (inputIssues raw). iss_path i = [str ''query''] \<and> iss_code i = invalid_type)
        \<longleftrightarrow> (\<exists>i \<in> set (queryIssues (getProp raw (str ''query''))). iss_code i = invalid_type)"
    unfolding raw inputIssues_object set_append
    using path_distinct
    by (auto dest: queryIssues_shape orientationIssues_shape safesearchIssues_shape
               perPageIssues_shape strictIssues_shape)
  then show ?thesis using True by (simp add: query_type_issue)
next
  case False
  then show ?thesis by (simp add: inputIssues_not_object)
qed

lemma input_orientation:
  "((\<exists>i \<in> set (inputIssues raw). iss_path i = [str ''orientation''])
      \<longleftrightarrow> isObject raw \<and> getProp raw (str ''orientation'') \<noteq> None
        \<and> (\<forall>s. getProp raw (str ''orientation'') = Some (JString s)
               \<longrightarrow> s \<notin> set orientationValues))"
proof (cases "isObject raw")
  case True
  then obtain kvs where raw: "raw = JObject kvs" by (cases raw) (auto simp: isObject_def)
  have "(\<exists>i \<in> set (inputIssues raw). iss_path i = [str ''orientation''])
        \<longleftrightarrow> (\<exists>i \<in> set (orientationIssues (getProp raw (str ''orientation''))). True)"
    unfolding raw inputIssues_object set_append
    using path_distinct
    by (auto dest: queryIssues_shape orientationIssues_shape safesearchIssues_shape
               perPageIssues_shape strictIssues_shape)
  also have "\<dots> \<longleftrightarrow> orientationIssues (getProp raw (str ''orientation'')) \<noteq> []"
    by (cases "orientationIssues (getProp raw (str ''orientation''))") auto
  finally show ?thesis using True by (simp add: orientation_issue)
next
  case False
  then show ?thesis by (simp add: inputIssues_not_object)
qed

lemma input_safesearch:
  "((\<exists>i \<in> set (inputIssues raw). iss_path i = [str ''safesearch''])
      \<longleftrightarrow> isObject raw \<and> getProp raw (str ''safesearch'') \<noteq> None
        \<and> (\<forall>b. getProp raw (str ''safesearch'') \<noteq> Some (JBool b)))"
proof (cases "isObject raw")
  case True
  then obtain kvs where raw: "raw = JObject kvs" by (cases raw) (auto simp: isObject_def)
  have "(\<exists>i \<in> set (inputIssues raw). iss_path i = [str ''safesearch''])
        \<longleftrightarrow> (\<exists>i \<in> set (safesearchIssues (getProp raw (str ''safesearch''))). True)"
    unfolding raw inputIssues_object set_append
    using path_distinct
    by (auto dest: queryIssues_shape orientationIssues_shape safesearchIssues_shape
               perPageIssues_shape strictIssues_shape)
  also have "\<dots> \<longleftrightarrow> safesearchIssues (getProp raw (str ''safesearch'')) \<noteq> []"
    by (cases "safesearchIssues (getProp raw (str ''safesearch''))") auto
  finally show ?thesis using True by (simp add: safesearch_issue)
next
  case False
  then show ?thesis by (simp add: inputIssues_not_object)
qed

lemma input_per_page_type:
  "((\<exists>i \<in> set (inputIssues raw). iss_path i = [str ''per_page''] \<and> iss_code i = invalid_type)
      \<longleftrightarrow> isObject raw \<and> getProp raw (str ''per_page'') \<noteq> None
        \<and> (\<forall>n. getProp raw (str ''per_page'') = Some (JNumber n) \<longrightarrow> \<not> isInteger n))"
proof (cases "isObject raw")
  case True
  then obtain kvs where raw: "raw = JObject kvs" by (cases raw) (auto simp: isObject_def)
  have "(\<exists>i \<in> set (inputIssues raw). iss_path i = [str ''per_page''] \<and> iss_code i = invalid_type)
        \<longleftrightarrow> (\<exists>i \<in> set (perPageIssues (getProp raw (str ''per_page''))). iss_code i = invalid_type)"
    unfolding raw inputIssues_object set_append
    using path_distinct
    by (auto dest: queryIssues_shape orientationIssues_shape safesearchIssues_shape
               perPageIssues_shape strictIssues_shape)
  then show ?thesis using True by (simp add: perPage_type_issue)
next
  case False
  then show ?thesis by (simp add: inputIssues_not_object)
qed

lemma input_unrecognized:
  "((\<exists>i \<in> set (inputIssues raw). \<exists>ks. iss_code i = unrecognized_keys ks)
      \<longleftrightarrow> (\<exists>kvs. raw = JObject kvs
             \<and> \<not> list_all (\<lambda>k. k \<in> set shapeKeys) (map fst kvs)))"
proof (cases "isObject raw")
  case True
  then obtain kvs where raw: "raw = JObject kvs" by (cases raw) (auto simp: isObject_def)
  have "(\<exists>i \<in> set (inputIssues raw). \<exists>ks. iss_code i = unrecognized_keys ks)
        \<longleftrightarrow> (\<exists>i \<in> set (strictIssues kvs). True)"
  proof
    assume "\<exists>i \<in> set (inputIssues raw). \<exists>ks. iss_code i = unrecognized_keys ks"
    then obtain i ks where i: "i \<in> set (inputIssues raw)" "iss_code i = unrecognized_keys ks"
      by blast
    from i(1) have "i \<in> set (strictIssues kvs)"
      unfolding raw inputIssues_object set_append
      using field_codes [of i _ ks] i(2) by blast
    then show "\<exists>i \<in> set (strictIssues kvs). True" by blast
  next
    assume "\<exists>i \<in> set (strictIssues kvs). True"
    then obtain i where i: "i \<in> set (strictIssues kvs)" by blast
    then have "i \<in> set (inputIssues raw)"
      unfolding raw inputIssues_object set_append by blast
    with strictIssues_shape [OF i]
    show "\<exists>i \<in> set (inputIssues raw). \<exists>ks. iss_code i = unrecognized_keys ks"
      by blast
  qed
  also have "\<dots> \<longleftrightarrow> strictIssues kvs \<noteq> []"
    by (cases "strictIssues kvs") auto
  finally show ?thesis using raw by (simp add: strict_issue)
next
  case False
  then have "\<forall>kvs. raw \<noteq> JObject kvs" by (auto simp: isObject_def)
  with False show ?thesis by (simp add: inputIssues_not_object)
qed

lemma input_success_iff:
  "((\<exists>input. searchImagesInputSchema raw = Inr input) \<longleftrightarrow> spec_inputValid_amended raw)"
  by (auto simp: searchImagesInputSchema_def inputIssues_Nil)

lemma input_success_data:
  "(spec_inputValid_amended raw
      \<longrightarrow> searchImagesInputSchema raw = Inr (inputData raw)
        \<and> (\<exists>s. getProp raw (str ''query'') = Some (JString s)
               \<and> query (inputData raw) = trim s))"
proof
  assume v: "spec_inputValid_amended raw"
  then have n: "inputIssues raw = []" by (simp add: inputIssues_Nil)
  from v obtain kvs where raw: "raw = JObject kvs"
    by (cases raw) (auto simp: spec_inputValid_amended_def spec_inputValid_def)
  from n have "queryIssues (getProp raw (str ''query'')) = []"
    unfolding raw inputIssues_object by simp
  then obtain s where s: "getProp raw (str ''query'') = Some (JString s)"
    unfolding queryIssues_Nil by blast
  then have "query (inputData raw) = trim s" by (simp add: inputData_def)
  with n s show "searchImagesInputSchema raw = Inr (inputData raw)
        \<and> (\<exists>s. getProp raw (str ''query'') = Some (JString s)
               \<and> query (inputData raw) = trim s)"
    by (simp add: searchImagesInputSchema_def)
qed

lemma input_failure:
  "(\<not> spec_inputValid_amended raw
      \<longrightarrow> inputIssues raw \<noteq> []
        \<and> (\<forall>fetch. handler rt fetch meta raw
               = Inl (McpError InvalidParams
                       (join (str ''; '') (map (issueMessage rt) (inputIssues raw))))))"
  by (simp add: handler_def searchImagesInputSchema_def inputIssues_Nil Let_def)


text \<open>
  C3 (as amended). Validation succeeds exactly when the payload is an object whose trimmed
  query has 1 to 100 characters, whose \<open>orientation\<close>, if present, is one of the three
  values, whose \<open>safesearch\<close>, if present, is a boolean, whose \<open>per_page\<close>, if
  present, is an integer from 3 to 20, and which has no other field; the parsed request
  then carries the trimmed query. Otherwise the handler throws, whatever \<open>fetch\<close>
  would do, an \<open>McpError\<close> with the code \<open>InvalidParams\<close> whose message joins the
  messages of all issues with \<open>"; "\<close>; and the list of issues holds one issue for
  every violated constraint: the three messages of the schema appear exactly when the query
  is blank, when it is too long, when \<open>per_page\<close> is out of range, and an issue of the
  library stands for a query that is no string, an \<open>orientation\<close> outside the three
  values, a \<open>safesearch\<close> that is no boolean, a \<open>per_page\<close> that is no integer, and
  for unknown keys.
\<close>

theorem input_validation:
  "((\<exists>input. searchImagesInputSchema raw = Inr input) \<longleftrightarrow> spec_inputValid_amended raw)
   \<and> (spec_inputValid_amended raw
      \<longrightarrow> searchImagesInputSchema raw = Inr (inputData raw)
        \<and> (\<exists>s. getProp raw (str ''query'') = Some (JString s)
               \<and> query (inputData raw) = trim s))
   \<and> (\<not> spec_inputValid_amended raw
      \<longrightarrow> inputIssues raw \<noteq> []
        \<and> (\<forall>fetch. handler rt fetch meta raw
               = Inl (McpError InvalidParams
                       (join (str ''; '') (map (issueMessage rt) (inputIssues raw))))))
   \<and> (Some (str ''Please provide a search query.'') \<in> iss_message ` set (inputIssues raw)
      \<longleftrightarrow> isObject raw
        \<and> (\<exists>s. getProp raw (str ''query'') = Some (JString s) \<and> length (trim s) = 0))
   \<and> (Some (str ''Queries must be 100 characters or fewer.'')
        \<in> iss_message ` set (inputIssues raw)
      \<longleftrightarrow> isObject raw
        \<and> (\<exists>s. getProp raw (str ''query'') = Some (JString s) \<and> length (trim s) > 100))
   \<and> (Some (str ''per_page must be between 3 and 20.'') \<in> iss_message ` set (inputIssues raw)
      \<longleftrightarrow> isObject raw
        \<and> (\<exists>n. getProp raw (str ''per_page'') = Some (JNumber n)
               \<and> (numLess n (Finite 3) \<or> numLess (Finite 20) n)))
   \<and> ((\<exists>i \<in> set (inputIssues raw). iss_path i = [str ''query''] \<and> iss_code i = invalid_type)
      \<longleftrightarrow> isObject raw \<and> (\<forall>s. getProp raw (str ''query'') \<noteq> Some (JString s)))
   \<and> ((\<exists>i \<in> set (inputIssues raw). iss_path i = [str ''orientation''])
      \<longleftrightarrow> isObject raw \<and> getProp raw (str ''orientation'') \<noteq> None
        \<and> (\<forall>s. getProp raw (str ''orientation'') = Some (JString s)
               \<longrightarrow> s \<notin> set orientationValues))
   \<and> ((\<exists>i \<in> set (inputIssues raw). iss_path i = [str ''safesearch''])
      \<longleftrightarrow> isObject raw \<and> getProp raw (str ''safesearch'') \<noteq> None
        \<and> (\<forall>b. getProp raw (str ''safesearch'') \<noteq> Some (JBool b)))
   \<and> ((\<exists>i \<in> set (inputIssues raw). iss_path i = [str ''per_page''] \<and> iss_code i = invalid_type)
      \<longleftrightarrow> isObject raw \<and> getProp raw (str ''per_page'') \<noteq> None
        \<and> (\<forall>n. getProp raw (str ''per_page'') = Some (JNumber n) \<longrightarrow> \<not> isInteger n))
   \<and> ((\<exists>i \<in> set (inputIssues raw). \<exists>ks. iss_code i = unrecognized_keys ks)
      \<longleftrightarrow> (\<exists>kvs. raw = JObject kvs
             \<and> \<not> list_all (\<lambda>k. k \<in> set shapeKeys) (map fst kvs)))"
  using input_success_iff [of raw] input_success_data [of raw] input_failure [of raw rt meta]
    input_msg_short [of raw] input_msg_long [of raw] input_msg_per_page [of raw]
    input_query_type [of raw] input_orientation [of raw] input_safesearch [of raw]
    input_per_page_type [of raw] input_unrecognized [of raw]
  by (intro conjI)


text \<open>The validator at the sample payloads.\<close>

lemmas input_eval = inputIssues_def queryIssues_def orientationIssues_def safesearchIssues_def
  perPageIssues_def strictIssues_def extraKeys_def shapeKeys_def issue_def getProp_def
  isInteger_def numLess_def maxPerPage_def

lemma floor_five_halves: "\<lfloor>(5 :: rat) / 2\<rfloor> = 2"
  by (rule floor_unique) simp_all

lemma validPayload_valid: "spec_inputValid_amended validPayload"
    by (simp add: spec_inputValid_amended_def spec_inputValid_def validPayload_def getProp_def
          string_eval)

lemma validPayload_data: "inputData validPayload
             = \<lparr> query = str ''sunset'', orientation = None, safesearch = None,
                 per_page = Some (Finite 5) \<rparr>"
    by (simp add: inputData_def validPayload_def getProp_def string_eval)


lemma invalidPayload_issues: "inputIssues invalidPayload
             = [issue too_small (str ''query'') (Some (JString (str ''  '')))
                  (Some (str ''Please provide a search query.'')),
                issue invalid_type (str ''per_page'') (Some (JNumber (Finite (5 / 2)))) None,
                issue too_small (str ''per_page'') (Some (JNumber (Finite (5 / 2))))
                  (Some (str ''per_page must be between 3 and 20.'')),
                \<lparr> iss_code = unrecognized_keys [str ''page''], iss_path = [],
                  iss_received = None, iss_message = None \<rparr>]"
    by (simp add: invalidPayload_def input_eval string_eval floor_five_halves)


lemma invalidPayload_invalid: "\<not> spec_inputValid_amended invalidPayload"
    unfolding inputIssues_Nil [symmetric] invalidPayload_issues by simp

lemma invalidPayload_message: "join (str ''; '') (map (issueMessage sampleRuntime) (inputIssues invalidPayload))
             = str ''Please provide a search query.; Invalid input; ''
               @ str ''per_page must be between 3 and 20.; Invalid input''"
    unfolding invalidPayload_issues
    by (simp add: issueMessage_def issue_def sampleRuntime_def str_def)

theorem input_validation_witness:
  "spec_inputValid_amended validPayload
   \<and> searchImagesInputSchema validPayload
       = Inr \<lparr> query = str ''sunset'', orientation = None, safesearch = None,
               per_page = Some (Finite 5) \<rparr>
   \<and> \<not> spec_inputValid_amended invalidPayload
   \<and> handler sampleRuntime (\<lambda>req. Inl FetchRejected) None invalidPayload
       = Inl (McpError InvalidParams
               (str ''Please provide a search query.; Invalid input; ''
                @ str ''per_page must be between 3 and 20.; Invalid input''))"
proof -
  note ok = input_validation [of validPayload sampleRuntime None,
                 THEN conjunct2, THEN conjunct1, rule_format, OF validPayload_valid, THEN conjunct1]
  note ko = input_validation [of invalidPayload sampleRuntime None,
                 THEN conjunct2, THEN conjunct2, THEN conjunct1, rule_format, OF invalidPayload_invalid,
                 THEN conjunct2, THEN spec, of "\<lambda>req. Inl FetchRejected"]
  from ok have a: "searchImagesInputSchema validPayload
       = Inr \<lparr> query = str ''sunset'', orientation = None, safesearch = None,
               per_page = Some (Finite 5) \<rparr>"
    by (simp only: validPayload_data)
  from ko have b: "handler sampleRuntime (\<lambda>req. Inl FetchRejected) None invalidPayload
       = Inl (McpError InvalidParams
               (str ''Please provide a search query.; Invalid input; ''
                @ str ''per_page must be between 3 and 20.; Invalid input''))"
    by (simp only: invalidPayload_message)
  from validPayload_valid a invalidPayload_invalid b show ?thesis by (intro conjI)
qed


text \<open>
  The claim as first stated does not constrain \<open>safesearch\<close>. The payload
  \<open>{query: "cats", safesearch: "yes"}\<close> meets every condition it lists, and validation
  fails on it with the issue of the boolean field.
\<close>

theorem safesearch_type_counterexample:
  "spec_inputValid safesearchPayload
   \<and> searchImagesInputSchema safesearchPayload
       = Inl [issue invalid_type (str ''safesearch'') (Some (JString (str ''yes''))) None]"
proof -
  have v: "spec_inputValid safesearchPayload"
    by (simp add: spec_inputValid_def safesearchPayload_def getProp_def string_eval)
  have i: "inputIssues safesearchPayload
             = [issue invalid_type (str ''safesearch'') (Some (JString (str ''yes''))) None]"
    by (simp add: safesearchPayload_def input_eval string_eval)
  from i have "searchImagesInputSchema safesearchPayload
       = Inl [issue invalid_type (str ''safesearch'') (Some (JString (str ''yes''))) None]"
    by (simp add: searchImagesInputSchema_def)
  with v show ?thesis by (intro conjI)
qed

section \<open>The summary line\<close>

lemma three_hits_valid:
  "length (filter (\<lambda>h. pixabayImageHitSchema sampleRuntime h \<noteq> None)
             (hitsOf threeImagesJson)) = 3"
  by (simp add: three_hits sampleImageHit_parse)

lemma three_hits_users:
  "\<forall>h \<in> set (List.map_filter (pixabayImageHitSchema sampleRuntime) (hitsOf threeImagesJson)).
     encodeURIComponent (ih_user h) \<noteq> None"
  using encode_sample_users by (simp add: three_hits sampleImageHit_parse)

lemma schema_query:
  assumes "searchImagesInputSchema rawInput = Inr input"
  shows "\<exists>s. getProp rawInput (str ''query'') = Some (JString s) \<and> query input = trim s"
proof -
  from assms have i: "input = inputData rawInput" and v: "spec_inputValid_amended rawInput"
    by (auto simp: searchImagesInputSchema_def inputIssues_Nil split: if_splits)
  from v have "spec_inputValid rawInput" by (simp add: spec_inputValid_amended_def)
  then obtain s where s: "getProp rawInput (str ''query'') = Some (JString s)"
    unfolding spec_inputValid_def
    by (cases rawInput; cases "getProp rawInput (str ''query'')")
       (auto split: json.splits)
  with i show ?thesis by (simp add: inputData_def)
qed

lemma summary_text:
  "summary (toStructuredContent input result) =
     (if length (results result) = 0
      then str ''No Pixabay images found for \"'' @ query input
           @ str ''\". Try a different description or add more detail.''
      else if length (results result) = 1
      then str ''Found 1 Pixabay image for \"'' @ query input @ str ''\".''
      else str ''Found '' @ digitsOf (length (results result)) @ str '' Pixabay images for \"''
           @ query input @ str ''\".'')"
proof -
  have d1: "digitsOf (Suc 0) = str ''1''"
    by (simp add: digitsOf.simps str_def)
  show ?thesis
    by (simp add: summary_def toStructuredContent_def d1) (simp add: str_def)
qed

lemma handler_Inr:
  "handler rt fetch meta rawInput = Inr out
     \<longleftrightarrow> (\<exists>input sr.
            searchImagesInputSchema rawInput = Inr input
          \<and> searchImages rt fetch
               (searchImagesInput.extend (input \<lparr> query := normalizeQuery (query input) \<rparr>)
                  (searchImagesParams.fields (resolveLocale meta))) = Inr sr
          \<and> out = \<lparr> tr_text =
                      summary (toStructuredContent
                                 (input \<lparr> query := normalizeQuery (query input) \<rparr>) sr),
                    tr_structuredContent =
                      toStructuredContent (input \<lparr> query := normalizeQuery (query input) \<rparr>) sr,
                    tr_locale = resolveLocale meta,
                    tr_rateLimit = rateLimit sr \<rparr>)"
  by (auto simp: handler_def Let_def split: sum.splits)

lemma sample_hits_valid:
  "length (filter (\<lambda>h. pixabayImageHitSchema sampleRuntime h \<noteq> None)
             (hitsOf sampleImageJson)) = 1"
  by (simp add: sample_hits sampleImageHit_parse sample_invalid_hit)

lemma sample_hits_users:
  "\<forall>h \<in> set (List.map_filter (pixabayImageHitSchema sampleRuntime) (hitsOf sampleImageJson)).
     encodeURIComponent (ih_user h) \<noteq> None"
  using encode_sample_users
  by (simp add: sample_hits sampleImageHit_parse sample_invalid_hit)

lemma validPayload_query:
  "getProp validPayload (str ''query'') = Some (JString (str ''sunset''))"
  by (simp add: validPayload_def getProp_def str_def)

lemma wrappedPayload_query:
  "getProp wrappedPayload (str ''query'') = Some (JString (str ''{\"query\":\"cats\"}''))"
  by (simp add: wrappedPayload_def getProp_def)

lemma wrappedPayload_valid: "spec_inputValid_amended wrappedPayload"
proof -
  have "length (str ''{\"query\":\"cats\"}'') = 16" by (simp add: str_def)
  then show ?thesis
    by (simp add: spec_inputValid_amended_def spec_inputValid_def wrappedPayload_def
          getProp_def trim_cats)
       (simp add: str_def)
qed

lemma normalizeQuery_sunset: "normalizeQuery (trim (str ''sunset'')) = str ''sunset''"
  by (simp add: normalizeQuery_def Let_def isBracketed_def endsWith_def string_eval)

lemma normalizeQuery_cats:
  "normalizeQuery (trim (str ''{\"query\":\"cats\"}'')) = str ''cats''"
proof -
  have tc: "trim (str ''cats'') = str ''cats''"
    by (simp add: str_def trim_def isWhiteSpace_def)
  have ne: "str ''{\"query\":\"cats\"}'' \<noteq> []" "str ''cats'' \<noteq> []"
    by (simp_all add: str_def)
  show ?thesis
    unfolding trim_cats
    by (simp add: normalizeQuery_def Let_def trim_cats bracketed_cats parse_cats getProp_def
          tc ne)
qed

text \<open>
  C7. In the image-only variant the summary is a function of the number \<open>N\<close> of
  results and of the query alone: the not-found sentence for \<open>N = 0\<close>,
  \<open>Found 1 Pixabay image for "<query>".\<close> for \<open>N = 1\<close>, and
  \<open>Found N Pixabay images for "<query>".\<close> otherwise; three results for \<open>sunset\<close>
  give \<open>Found 3 Pixabay images for "sunset".\<close>. The handler returns a result exactly when
  the input passes the schema and \<open>searchImages\<close>, called with the normalized query,
  returns; the result is then determined: its text is this sentence for the normalized query
  and the number of results of \<open>searchImages\<close>. In terms of the raw input and of the
  upstream response: the query is \<open>normalizeQuery\<close> of the trimmed string field \<open>query\<close>,
  it is the parameter \<open>q\<close> of the request, the results are the hits of the response body
  that pass the image schema, mapped in order, and \<open>N\<close> is their number.
\<close>

theorem image_summary_text:
  "summary (toStructuredContent input result) =
     (if length (results result) = 0
      then str ''No Pixabay images found for \"'' @ query input
           @ str ''\". Try a different description or add more detail.''
      else if length (results result) = 1
      then str ''Found 1 Pixabay image for \"'' @ query input @ str ''\".''
      else str ''Found '' @ digitsOf (length (results result)) @ str '' Pixabay images for \"''
           @ query input @ str ''\".'')
   \<and> (length (results result) = 3 \<and> query input = str ''sunset''
        \<longrightarrow> summary (toStructuredContent input result)
            = str ''Found 3 Pixabay images for \"sunset\".'')
   \<and> (handler rt fetch meta rawInput = Inr out
        \<longrightarrow> tr_text out = summary (tr_structuredContent out)
          \<and> sc_resultCount (tr_structuredContent out)
              = length (sc_results (tr_structuredContent out)))
   \<and> (handler rt fetch meta rawInput = Inr out
        \<longleftrightarrow> (\<exists>input sr.
               searchImagesInputSchema rawInput = Inr input
             \<and> searchImages rt fetch
                  (searchImagesInput.extend (input \<lparr> query := normalizeQuery (query input) \<rparr>)
                     (searchImagesParams.fields (resolveLocale meta))) = Inr sr
             \<and> out =
                 \<lparr> tr_text =
                     (if length (results sr) = 0
                      then str ''No Pixabay images found for \"'' @ normalizeQuery (query input)
                           @ str ''\". Try a different description or add more detail.''
                      else if length (results sr) = 1
                      then str ''Found 1 Pixabay image for \"'' @ normalizeQuery (query input)
                           @ str ''\".''
                      else str ''Found '' @ digitsOf (length (results sr))
                           @ str '' Pixabay images for \"'' @ normalizeQuery (query input)
                           @ str ''\".''),
                   tr_structuredContent =
                     \<lparr> sc_query = normalizeQuery (query input),
                       sc_resultCount = length (results sr),
                       sc_results = results sr,
                       sc_attribution =
                         str ''Images provided by Pixabay under the Pixabay License.'' \<rparr>,
                   tr_locale = resolveLocale meta,
                   tr_rateLimit = rateLimit sr \<rparr>))
   \<and> (handler rt fetch meta rawInput = Inr out
        \<longrightarrow> (\<exists>s input resp js.
               getProp rawInput (str ''query'') = Some (JString s)
             \<and> searchImagesInputSchema rawInput = Inr input
             \<and> query input = trim s
             \<and> fetch (imageSearchRequest rt
                        (searchImagesInput.extend (input \<lparr> query := normalizeQuery (trim s) \<rparr>)
                           (searchImagesParams.fields (resolveLocale meta)))) = Inr resp
             \<and> map_of (searchParams (imageSearchRequest rt
                        (searchImagesInput.extend (input \<lparr> query := normalizeQuery (trim s) \<rparr>)
                           (searchImagesParams.fields (resolveLocale meta))))) (str ''q'')
                 = Some (normalizeQuery (trim s))
             \<and> responseJson resp = Inr js
             \<and> sc_query (tr_structuredContent out) = normalizeQuery (trim s)
             \<and> map Inr (sc_results (tr_structuredContent out))
                 = map (toImageResult rt)
                     (List.map_filter (pixabayImageHitSchema rt) (hitsOf js))
             \<and> sc_resultCount (tr_structuredContent out)
                 = length (filter (\<lambda>h. pixabayImageHitSchema rt h \<noteq> None) (hitsOf js))
             \<and> tr_text out =
                 (if sc_resultCount (tr_structuredContent out) = 0
                  then str ''No Pixabay images found for \"'' @ normalizeQuery (trim s)
                       @ str ''\". Try a different description or add more detail.''
                  else if sc_resultCount (tr_structuredContent out) = 1
                  then str ''Found 1 Pixabay image for \"'' @ normalizeQuery (trim s)
                       @ str ''\".''
                  else str ''Found '' @ digitsOf (sc_resultCount (tr_structuredContent out))
                       @ str '' Pixabay images for \"'' @ normalizeQuery (trim s)
                       @ str ''\".'')))"
proof (intro conjI)
  show "summary (toStructuredContent input result) =
     (if length (results result) = 0
      then str ''No Pixabay images found for \"'' @ query input
           @ str ''\". Try a different description or add more detail.''
      else if length (results result) = 1
      then str ''Found 1 Pixabay image for \"'' @ query input @ str ''\".''
      else str ''Found '' @ digitsOf (length (results result)) @ str '' Pixabay images for \"''
           @ query input @ str ''\".'')"
    by (rule summary_text)
next
  have d3: "digitsOf 3 = str ''3''"
    by (simp add: digitsOf.simps str_def)
  show "length (results result) = 3 \<and> query input = str ''sunset''
        \<longrightarrow> summary (toStructuredContent input result)
            = str ''Found 3 Pixabay images for \"sunset\".''"
    by (simp add: summary_text d3) (simp add: str_def)
next
  show "handler rt fetch meta rawInput = Inr out
        \<longrightarrow> tr_text out = summary (tr_structuredContent out)
          \<and> sc_resultCount (tr_structuredContent out)
              = length (sc_results (tr_structuredContent out))"
    by (auto simp: handler_Inr toStructuredContent_def)
next
  show "handler rt fetch meta rawInput = Inr out
        \<longleftrightarrow> (\<exists>input sr.
               searchImagesInputSchema rawInput = Inr input
             \<and> searchImages rt fetch
                  (searchImagesInput.extend (input \<lparr> query := normalizeQuery (query input) \<rparr>)
                     (searchImagesParams.fields (resolveLocale meta))) = Inr sr
             \<and> out =
                 \<lparr> tr_text =
                     (if length (results sr) = 0
                      then str ''No Pixabay images found for \"'' @ normalizeQuery (query input)
                           @ str ''\". Try a different description or add more detail.''
                      else if length (results sr) = 1
                      then str ''Found 1 Pixabay image for \"'' @ normalizeQuery (query input)
                           @ str ''\".''
                      else str ''Found '' @ digitsOf (length (results sr))
                           @ str '' Pixabay images for \"'' @ normalizeQuery (query input)
                           @ str ''\".''),
                   tr_structuredContent =
                     \<lparr> sc_query = normalizeQuery (query input),
                       sc_resultCount = length (results sr),
                       sc_results = results sr,
                       sc_attribution =
                         str ''Images provided by Pixabay under the Pixabay License.'' \<rparr>,
                   tr_locale = resolveLocale meta,
                   tr_rateLimit = rateLimit sr \<rparr>)"
    unfolding handler_Inr summary_text
    by (simp add: toStructuredContent_def)
next
  show "handler rt fetch meta rawInput = Inr out
        \<longrightarrow> (\<exists>s input resp js.
               getProp rawInput (str ''query'') = Some (JString s)
             \<and> searchImagesInputSchema rawInput = Inr input
             \<and> query input = trim s
             \<and> fetch (imageSearchRequest rt
                        (searchImagesInput.extend (input \<lparr> query := normalizeQuery (trim s) \<rparr>)
                           (searchImagesParams.fields (resolveLocale meta)))) = Inr resp
             \<and> map_of (searchParams (imageSearchRequest rt
                        (searchImagesInput.extend (input \<lparr> query := normalizeQuery (trim s) \<rparr>)
                           (searchImagesParams.fields (resolveLocale meta))))) (str ''q'')
                 = Some (normalizeQuery (trim s))
             \<and> responseJson resp = Inr js
             \<and> sc_query (tr_structuredContent out) = normalizeQuery (trim s)
             \<and> map Inr (sc_results (tr_structuredContent out))
                 = map (toImageResult rt)
                     (List.map_filter (pixabayImageHitSchema rt) (hitsOf js))
             \<and> sc_resultCount (tr_structuredContent out)
                 = length (filter (\<lambda>h. pixabayImageHitSchema rt h \<noteq> None) (hitsOf js))
             \<and> tr_text out =
                 (if sc_resultCount (tr_structuredContent out) = 0
                  then str ''No Pixabay images found for \"'' @ normalizeQuery (trim s)
                       @ str ''\". Try a different description or add more detail.''
                  else if sc_resultCount (tr_structuredContent out) = 1
                  then str ''Found 1 Pixabay image for \"'' @ normalizeQuery (trim s)
                       @ str ''\".''
                  else str ''Found '' @ digitsOf (sc_resultCount (tr_structuredContent out))
                       @ str '' Pixabay images for \"'' @ normalizeQuery (trim s)
                       @ str ''\".''))"
  proof
    assume h: "handler rt fetch meta rawInput = Inr out"
    then obtain input sr where
      i: "searchImagesInputSchema rawInput = Inr input"
      and r: "searchImages rt fetch
               (searchImagesInput.extend (input \<lparr> query := normalizeQuery (query input) \<rparr>)
                  (searchImagesParams.fields (resolveLocale meta))) = Inr sr"
      and out: "out = \<lparr> tr_text =
                      summary (toStructuredContent
                                 (input \<lparr> query := normalizeQuery (query input) \<rparr>) sr),
                    tr_structuredContent =
                      toStructuredContent (input \<lparr> query := normalizeQuery (query input) \<rparr>) sr,
                    tr_locale = resolveLocale meta,
                    tr_rateLimit = rateLimit sr \<rparr>"
      unfolding handler_Inr by blast
    from schema_query [OF i] obtain s where
      g: "getProp rawInput (str ''query'') = Some (JString s)" and q: "query input = trim s"
      by blast
    from searchImages_result [OF r] obtain resp js where
      f: "fetch (imageSearchRequest rt
                   (searchImagesInput.extend (input \<lparr> query := normalizeQuery (query input) \<rparr>)
                      (searchImagesParams.fields (resolveLocale meta)))) = Inr resp"
      and j: "responseJson resp = Inr js"
      and m: "map Inr (results sr)
                 = map (toImageResult rt)
                     (List.map_filter (pixabayImageHitSchema rt) (hitsOf js))"
      and l: "length (results sr)
                 = length (filter (\<lambda>h. pixabayImageHitSchema rt h \<noteq> None) (hitsOf js))"
      by blast
    have p: "map_of (searchParams (imageSearchRequest rt
                        (searchImagesInput.extend (input \<lparr> query := normalizeQuery (trim s) \<rparr>)
                           (searchImagesParams.fields (resolveLocale meta))))) (str ''q'')
                 = Some (normalizeQuery (trim s))"
      by (simp add: imageSearchRequest_def Let_def searchImagesInput.extend_def
            searchImagesParams.fields_def str_def)
    have sq: "sc_query (tr_structuredContent out) = normalizeQuery (trim s)"
      and sr: "sc_results (tr_structuredContent out) = results sr"
      and sn: "sc_resultCount (tr_structuredContent out) = length (results sr)"
      unfolding out by (simp_all add: toStructuredContent_def q)
    have tx: "tr_text out =
                 (if sc_resultCount (tr_structuredContent out) = 0
                  then str ''No Pixabay images found for \"'' @ normalizeQuery (trim s)
                       @ str ''\". Try a different description or add more detail.''
                  else if sc_resultCount (tr_structuredContent out) = 1
                  then str ''Found 1 Pixabay image for \"'' @ normalizeQuery (trim s)
                       @ str ''\".''
                  else str ''Found '' @ digitsOf (sc_resultCount (tr_structuredContent out))
                       @ str '' Pixabay images for \"'' @ normalizeQuery (trim s)
                       @ str ''\".'')"
      unfolding sn unfolding out by (simp add: summary_text q)
    from g i q f [unfolded q] p j sq m [folded sr] l [folded sn] tx
    show "\<exists>s input resp js.
               getProp rawInput (str ''query'') = Some (JString s)
             \<and> searchImagesInputSchema rawInput = Inr input
             \<and> query input = trim s
             \<and> fetch (imageSearchRequest rt
                        (searchImagesInput.extend (input \<lparr> query := normalizeQuery (trim s) \<rparr>)
                           (searchImagesParams.fields (resolveLocale meta)))) = Inr resp
             \<and> map_of (searchParams (imageSearchRequest rt
                        (searchImagesInput.extend (input \<lparr> query := normalizeQuery (trim s) \<rparr>)
                           (searchImagesParams.fields (resolveLocale meta))))) (str ''q'')
                 = Some (normalizeQuery (trim s))
             \<and> responseJson resp = Inr js
             \<and> sc_query (tr_structuredContent out) = normalizeQuery (trim s)
             \<and> map Inr (sc_results (tr_structuredContent out))
                 = map (toImageResult rt)
                     (List.map_filter (pixabayImageHitSchema rt) (hitsOf js))
             \<and> sc_resultCount (tr_structuredContent out)
                 = length (filter (\<lambda>h. pixabayImageHitSchema rt h \<noteq> None) (hitsOf js))
             \<and> tr_text out =
                 (if sc_resultCount (tr_structuredContent out) = 0
                  then str ''No Pixabay images found for \"'' @ normalizeQuery (trim s)
                       @ str ''\". Try a different description or add more detail.''
                  else if sc_resultCount (tr_structuredContent out) = 1
                  then str ''Found 1 Pixabay image for \"'' @ normalizeQuery (trim s)
                       @ str ''\".''
                  else str ''Found '' @ digitsOf (sc_resultCount (tr_structuredContent out))
                       @ str '' Pixabay images for \"'' @ normalizeQuery (trim s)
                       @ str ''\".'')"
      by blast
  qed
qed

text \<open>C7 at the sample result, and the handler at three responses: three valid hits for
  \<open>sunset\<close>, one valid and one invalid hit for a wrapped query, and no hit.\<close>

theorem image_summary_text_witness:
  "(length (results sampleSearchResult) = 3 \<and> query sampleInput = str ''sunset''
      \<and> summary (toStructuredContent sampleInput sampleSearchResult)
          = str ''Found 3 Pixabay images for \"sunset\".'')
   \<and> (\<exists>out. handler sampleRuntime (\<lambda>req. Inr (okResponse threeImagesBody)) None validPayload
               = Inr out
          \<and> sc_query (tr_structuredContent out) = str ''sunset''
          \<and> sc_resultCount (tr_structuredContent out) = 3
          \<and> tr_text out = str ''Found 3 Pixabay images for \"sunset\".'')
   \<and> (\<exists>out. handler sampleRuntime (\<lambda>req. Inr (okResponse sampleImageBody)) None wrappedPayload
               = Inr out
          \<and> sc_query (tr_structuredContent out) = str ''cats''
          \<and> sc_resultCount (tr_structuredContent out) = 1
          \<and> tr_text out = str ''Found 1 Pixabay image for \"cats\".'')
   \<and> (\<exists>out. handler sampleRuntime (\<lambda>req. Inr (okResponse emptyHitsBody)) None validPayload
               = Inr out
          \<and> sc_query (tr_structuredContent out) = str ''sunset''
          \<and> sc_resultCount (tr_structuredContent out) = 0
          \<and> tr_text out
              = str ''No Pixabay images found for \"sunset\". ''
                @ str ''Try a different description or add more detail.'')"
proof -
  have l: "length (results sampleSearchResult) = 3"
    by (simp add: sampleSearchResult_def)
  have q: "query sampleInput = str ''sunset''"
    by (simp add: sampleInput_def)
  from image_summary_text [of sampleInput sampleSearchResult, THEN conjunct2, THEN conjunct1]
       l q
  have a: "length (results sampleSearchResult) = 3 \<and> query sampleInput = str ''sunset''
      \<and> summary (toStructuredContent sampleInput sampleSearchResult)
          = str ''Found 3 Pixabay images for \"sunset\".''"
    by blast
  have gen: "\<exists>out. handler sampleRuntime (\<lambda>req. Inr (okResponse body)) None raw = Inr out
          \<and> sc_query (tr_structuredContent out) = normalizeQuery (trim s)
          \<and> sc_resultCount (tr_structuredContent out)
              = length (filter (\<lambda>h. pixabayImageHitSchema sampleRuntime h \<noteq> None) (hitsOf js))
          \<and> tr_text out =
                 (if sc_resultCount (tr_structuredContent out) = 0
                  then str ''No Pixabay images found for \"'' @ normalizeQuery (trim s)
                       @ str ''\". Try a different description or add more detail.''
                  else if sc_resultCount (tr_structuredContent out) = 1
                  then str ''Found 1 Pixabay image for \"'' @ normalizeQuery (trim s)
                       @ str ''\".''
                  else str ''Found '' @ digitsOf (sc_resultCount (tr_structuredContent out))
                       @ str '' Pixabay images for \"'' @ normalizeQuery (trim s)
                       @ str ''\".'')"
    if p: "JSON_parse body = Some js" and nn: "js \<noteq> JNull"
      and en: "\<forall>h \<in> set (List.map_filter (pixabayImageHitSchema sampleRuntime) (hitsOf js)).
                 encodeURIComponent (ih_user h) \<noteq> None"
      and v: "spec_inputValid_amended raw"
      and g: "getProp raw (str ''query'') = Some (JString s)"
    for body js raw s
  proof -
    have rj: "responseJson (okResponse body) = Inr js"
      using p by (simp add: responseJson_ok)
    have okr: "ok (okResponse body)"
      by (simp add: ok_def okResponse_def)
    from v have i: "searchImagesInputSchema raw = Inr (inputData raw)"
      by (simp add: searchImagesInputSchema_def inputIssues_Nil)
    from searchImages_returns
           [of "\<lambda>req. Inr (okResponse body)" sampleRuntime _ "okResponse body" js,
            OF refl okr rj nn en]
    obtain sr where
      r: "searchImages sampleRuntime (\<lambda>req. Inr (okResponse body))
            (searchImagesInput.extend
               (inputData raw \<lparr> query := normalizeQuery (query (inputData raw)) \<rparr>)
               (searchImagesParams.fields (resolveLocale None))) = Inr sr"
      by blast
    note c4 = image_summary_text
                [where rt = sampleRuntime and fetch = "\<lambda>req. Inr (okResponse body)"
                   and meta = None and rawInput = raw,
                 THEN conjunct2, THEN conjunct2, THEN conjunct2, THEN conjunct1]
    from i r have "\<exists>out. handler sampleRuntime (\<lambda>req. Inr (okResponse body)) None raw = Inr out"
      unfolding c4 by blast
    then obtain out where
      h: "handler sampleRuntime (\<lambda>req. Inr (okResponse body)) None raw = Inr out"
      by blast
    from image_summary_text
           [where rt = sampleRuntime and fetch = "\<lambda>req. Inr (okResponse body)"
              and meta = None and rawInput = raw and out = out,
            THEN conjunct2, THEN conjunct2, THEN conjunct2, THEN conjunct2, rule_format, OF h]
    obtain s' resp js' where
      g': "getProp raw (str ''query'') = Some (JString s')"
      and f: "Inr (okResponse body) = (Inr resp :: error + response)"
      and j: "responseJson resp = Inr js'"
      and sq: "sc_query (tr_structuredContent out) = normalizeQuery (trim s')"
      and sn: "sc_resultCount (tr_structuredContent out)
                 = length (filter (\<lambda>h. pixabayImageHitSchema sampleRuntime h \<noteq> None)
                             (hitsOf js'))"
      and tx: "tr_text out =
                 (if sc_resultCount (tr_structuredContent out) = 0
                  then str ''No Pixabay images found for \"'' @ normalizeQuery (trim s')
                       @ str ''\". Try a different description or add more detail.''
                  else if sc_resultCount (tr_structuredContent out) = 1
                  then str ''Found 1 Pixabay image for \"'' @ normalizeQuery (trim s')
                       @ str ''\".''
                  else str ''Found '' @ digitsOf (sc_resultCount (tr_structuredContent out))
                       @ str '' Pixabay images for \"'' @ normalizeQuery (trim s')
                       @ str ''\".'')"
      by blast
    from g g' have s: "s' = s" by simp
    from f j rj have js: "js' = js" by simp
    from h sq sn tx show ?thesis unfolding s js by blast
  qed
  have d3: "digitsOf 3 = str ''3''"
    by (simp add: digitsOf.simps str_def)
  have n3: "threeImagesJson \<noteq> JNull" by (simp add: threeImagesJson_def)
  have n1: "sampleImageJson \<noteq> JNull" by (simp add: sampleImageJson_def)
  have b: "\<exists>out. handler sampleRuntime (\<lambda>req. Inr (okResponse threeImagesBody)) None validPayload
               = Inr out
          \<and> sc_query (tr_structuredContent out) = str ''sunset''
          \<and> sc_resultCount (tr_structuredContent out) = 3
          \<and> tr_text out = str ''Found 3 Pixabay images for \"sunset\".''"
    using gen [OF threeImagesBody_parse n3 three_hits_users validPayload_valid validPayload_query]
    unfolding three_hits_valid normalizeQuery_sunset
    by (auto simp: d3) (simp add: str_def)
  have c: "\<exists>out. handler sampleRuntime (\<lambda>req. Inr (okResponse sampleImageBody)) None wrappedPayload
               = Inr out
          \<and> sc_query (tr_structuredContent out) = str ''cats''
          \<and> sc_resultCount (tr_structuredContent out) = 1
          \<and> tr_text out = str ''Found 1 Pixabay image for \"cats\".''"
    using gen [OF sampleImageBody_parse n1 sample_hits_users wrappedPayload_valid
                  wrappedPayload_query]
    unfolding sample_hits_valid normalizeQuery_cats
    by auto (simp add: str_def)
  have e0: "\<forall>h \<in> set (List.map_filter (pixabayImageHitSchema sampleRuntime)
                         (hitsOf (JObject [(str ''hits'', JArray [])]))).
              encodeURIComponent (ih_user h) \<noteq> None"
    by (simp add: empty_hits)
  have d: "\<exists>out. handler sampleRuntime (\<lambda>req. Inr (okResponse emptyHitsBody)) None validPayload
               = Inr out
          \<and> sc_query (tr_structuredContent out) = str ''sunset''
          \<and> sc_resultCount (tr_structuredContent out) = 0
          \<and> tr_text out
              = str ''No Pixabay images found for \"sunset\". ''
                @ str ''Try a different description or add more detail.''"
    using gen [OF emptyHitsBody_parse _ e0 validPayload_valid validPayload_query]
    unfolding empty_hits normalizeQuery_sunset
    by auto (simp add: str_def)
  from conjI [OF a conjI [OF b conjI [OF c d]]] show ?thesis .
qed


end
